(* ===== verification/Prelude.thy ===== *)
theory Prelude
  imports Complex_Main "HOL-Library.Word" "HOL-Library.Monad_Syntax"
begin

text \<open>
  Shared vocabulary of the development: the machine integers of the Rust sources, the
  partiality monad used for code that can panic, fallible loops, the last-n window of a list,
  Rust strings as lists of Unicode scalar values, and the interface of an event-driven
  component with an invariant.

  \<^item> A Rust function that may panic (an index out of range, a slice off a character
    boundary) returns \<^typ>\<open>'a option\<close>; \<^const>\<open>None\<close> is the panic.
  \<^item> \<open>usize\<close> values are \<^typ>\<open>nat\<close>; \<open>u8\<close>, \<open>u16\<close>, \<open>u32\<close>, \<open>u64\<close> are words; \<open>i32\<close>
    values are \<^typ>\<open>int\<close>, with the wrap-around (the release profile sets
    \<open>overflow-checks = false\<close>) and the saturating addition written out.
\<close>

named_theorems option_loop \<open>rules for loops that may panic\<close>
named_theorems i32_arith \<open>the i32 conversions on values that fit\<close>
named_theorems step_inv \<open>operations that keep the invariant of their component\<close>

section \<open>Machine integers\<close>

type_synonym u8 = "8 word"
type_synonym u16 = "16 word"
type_synonym u32 = "32 word"
type_synonym u64 = "64 word"
type_synonym i32 = int

definition i32_min :: i32 where "i32_min = - (2 ^ 31)"
definition i32_max :: i32 where "i32_max = 2 ^ 31 - 1"

text \<open>An \<open>i32\<close> result reduced to 32 bits, as the unchecked operators of the release build.\<close>

definition i32_wrap :: "int \<Rightarrow> i32" where
  "i32_wrap x = (x + 2 ^ 31) mod 2 ^ 32 - 2 ^ 31"

definition i32_saturating_add :: "i32 \<Rightarrow> i32 \<Rightarrow> i32" where
  "i32_saturating_add x y = max i32_min (min i32_max (x + y))"

text \<open>The casts \<open>as i32\<close> of a \<open>u32\<close> and \<open>as u32\<close> of an \<open>i32\<close>.\<close>

definition u32_as_i32 :: "u32 \<Rightarrow> i32" where
  "u32_as_i32 w = sint w"

definition i32_as_u32 :: "i32 \<Rightarrow> u32" where
  "i32_as_u32 x = word_of_int x"

text \<open>Rust's \<open>/\<close> on signed integers truncates towards zero.\<close>

definition i32_quot :: "i32 \<Rightarrow> i32 \<Rightarrow> i32" where
  "i32_quot x y = sgn x * sgn y * (\<bar>x\<bar> div \<bar>y\<bar>)"

text \<open>\<open>x.max(0) as usize\<close>.\<close>

definition i32_clamp0 :: "i32 \<Rightarrow> nat" where
  "i32_clamp0 x = nat (max x 0)"

lemma i32_wrap_id [i32_arith]: "i32_min \<le> x \<Longrightarrow> x \<le> i32_max \<Longrightarrow> i32_wrap x = x"
  by (simp add: i32_wrap_def i32_min_def i32_max_def)

lemma i32_wrap_range: "i32_min \<le> i32_wrap x \<and> i32_wrap x \<le> i32_max"
  using pos_mod_bound [of "2 ^ 32 :: int" "x + 2 ^ 31"] pos_mod_sign [of "2 ^ 32 :: int" "x + 2 ^ 31"]
  by (simp add: i32_wrap_def i32_min_def i32_max_def)

lemma i32_wrap_mod: "i32_wrap x mod 2 ^ 32 = x mod 2 ^ 32"
  by (simp add: i32_wrap_def mod_diff_left_eq)

lemma i32_wrap_cong: "x mod 2 ^ 32 = y mod 2 ^ 32 \<Longrightarrow> i32_wrap x = i32_wrap y"
  unfolding i32_wrap_def by (metis mod_add_left_eq)

lemma i32_saturating_add_id [i32_arith]:
  "i32_min \<le> x + y \<Longrightarrow> x + y \<le> i32_max \<Longrightarrow> i32_saturating_add x y = x + y"
  by (simp add: i32_saturating_add_def)

lemma u32_as_i32_le: "u32_as_i32 w \<le> int (unat w)"
proof -
  have "take_bit 32 (uint w) = uint w"
    using uint_bounded [of w] by (simp add: take_bit_int_eq_self_iff)
  then have "sint w \<le> uint w"
    by (simp add: sint_uint signed_take_bit_eq_take_bit_minus)
  then show ?thesis by (simp add: u32_as_i32_def)
qed

lemma u32_as_i32_small [i32_arith]: "unat w < 2 ^ 31 \<Longrightarrow> u32_as_i32 w = int (unat w)"
proof -
  assume "unat w < 2 ^ 31"
  then have "uint w < 2 ^ 31"
    by (metis of_nat_less_iff of_nat_numeral of_nat_power uint_nat)
  moreover have "- 2147483648 \<le> uint w"
    by (rule order_trans [OF _ uint_ge_0]) simp
  ultimately have "sint w = uint w"
    by (simp add: sint_uint signed_take_bit_int_eq_self_iff)
  then show ?thesis by (simp add: u32_as_i32_def)
qed

lemma i32_as_u32_small [i32_arith]: "0 \<le> x \<Longrightarrow> x < 2 ^ 32 \<Longrightarrow> unat (i32_as_u32 x) = nat x"
  by (simp add: i32_as_u32_def unat_eq_nat_uint uint_word_of_int)

lemma i32_clamp0_nonneg [simp]: "0 \<le> x \<Longrightarrow> i32_clamp0 x = nat x"
  by (simp add: i32_clamp0_def)

lemma i32_clamp0_neg [simp]: "x \<le> 0 \<Longrightarrow> i32_clamp0 x = 0"
  by (simp add: i32_clamp0_def)

section \<open>Loops that may panic\<close>

text \<open>\<open>fold_opt f xs s\<close> is \<open>for x in xs { s = f(x, s) }\<close> where the body may panic.\<close>

fun fold_opt :: "('a \<Rightarrow> 's \<Rightarrow> 's option) \<Rightarrow> 'a list \<Rightarrow> 's \<Rightarrow> 's option" where
  "fold_opt f [] s = Some s"
| "fold_opt f (x # xs) s = (case f x s of None \<Rightarrow> None | Some s' \<Rightarrow> fold_opt f xs s')"

lemma fold_opt_append:
  "fold_opt f (xs @ ys) s = (case fold_opt f xs s of None \<Rightarrow> None | Some s' \<Rightarrow> fold_opt f ys s')"
  by (induction xs arbitrary: s) (auto split: option.splits)

lemma fold_opt_map: "fold_opt f (map g xs) = fold_opt (\<lambda>x. f (g x)) xs"
proof
  show "fold_opt f (map g xs) s = fold_opt (\<lambda>x. f (g x)) xs s" for s
    by (induction xs arbitrary: s) (auto split: option.splits)
qed

lemma fold_opt_concat:
  "fold_opt f (concat xss) s = fold_opt (\<lambda>xs s. fold_opt f xs s) xss s"
  by (induction xss arbitrary: s) (auto simp: fold_opt_append split: option.splits)

text \<open>
  A loop whose body never panics under an invariant, and keeps the invariant, never panics;
  its result satisfies the invariant.
\<close>

lemma fold_opt_total [option_loop]:
  assumes "\<And>x s. x \<in> set xs \<Longrightarrow> I s \<Longrightarrow> \<exists>s'. f x s = Some s' \<and> I s'" and "I s"
  shows "\<exists>s'. fold_opt f xs s = Some s' \<and> I s'"
  using assms
proof (induction xs arbitrary: s)
  case Nil
  then show ?case by simp
next
  case (Cons x xs)
  from Cons.prems obtain s' where "f x s = Some s'" and "I s'" by force
  with Cons show ?case by force
qed

text \<open>Where the body never panics the loop is a \<^const>\<open>fold\<close>.\<close>

lemma fold_opt_Some [option_loop]:
  assumes "\<And>x s. x \<in> set xs \<Longrightarrow> f x s = Some (g x s)"
  shows "fold_opt f xs s = Some (fold g xs s)"
  using assms by (induction xs arbitrary: s) auto

text \<open>A sequence of steps that cannot panic cannot panic.\<close>

lemma bind_total:
  "\<exists>y. m = Some y \<and> P y \<Longrightarrow> (\<And>y. P y \<Longrightarrow> \<exists>z. f y = Some z \<and> Q z) \<Longrightarrow>
    \<exists>z. Option.bind m f = Some z \<and> Q z"
  by auto

text \<open>
  Code that runs statement after statement on one state: \<open>steps\<close> runs a list of statements,
  \<open>each\<close> a loop, \<open>guarded\<close> an \<open>if\<close> without \<open>else\<close> and \<open>guarded_by\<close> one whose
  condition reads the state. \<open>keeps P f\<close> says that \<open>f\<close> does not panic
  on a state with \<open>P\<close> and leaves one with \<open>P\<close>.
\<close>

definition steps :: "('s \<Rightarrow> 's option) list \<Rightarrow> 's \<Rightarrow> 's option" where
  "steps fs s = fold_opt (\<lambda>f. f) fs s"

definition each :: "'a list \<Rightarrow> ('a \<Rightarrow> 's \<Rightarrow> 's option) \<Rightarrow> 's \<Rightarrow> 's option" where
  "each xs f s = fold_opt f xs s"

definition guarded :: "bool \<Rightarrow> ('s \<Rightarrow> 's option) \<Rightarrow> 's \<Rightarrow> 's option" where
  "guarded b f s = (if b then f s else Some s)"

definition guarded_by :: "('s \<Rightarrow> bool) \<Rightarrow> ('s \<Rightarrow> 's option) \<Rightarrow> 's \<Rightarrow> 's option" where
  "guarded_by b f s = (if b s then f s else Some s)"

definition keeps :: "('s \<Rightarrow> bool) \<Rightarrow> ('s \<Rightarrow> 's option) \<Rightarrow> bool" where
  "keeps P f \<longleftrightarrow> (\<forall>s. P s \<longrightarrow> (\<exists>s'. f s = Some s' \<and> P s'))"

named_theorems keeping \<open>statements that do not panic and keep the invariant of their state\<close>

lemma keepsI: "(\<And>s. P s \<Longrightarrow> \<exists>s'. f s = Some s' \<and> P s') \<Longrightarrow> keeps P f"
  by (simp add: keeps_def)

lemma keepsD: "keeps P f \<Longrightarrow> P s \<Longrightarrow> \<exists>s'. f s = Some s' \<and> P s'"
  by (simp add: keeps_def)

lemma keeps_steps_Nil [keeping]: "keeps P (steps [])"
  by (simp add: keeps_def steps_def)

lemma keeps_steps_Cons [keeping]: "keeps P f \<Longrightarrow> keeps P (steps fs) \<Longrightarrow> keeps P (steps (f # fs))"
  by (fastforce simp: keeps_def steps_def)

lemma keeps_each [keeping]: "(\<And>x. x \<in> set xs \<Longrightarrow> keeps P (f x)) \<Longrightarrow> keeps P (each xs f)"
  unfolding each_def by (intro keepsI fold_opt_total) (auto dest: keepsD)

lemma keeps_guarded [keeping]: "(b \<Longrightarrow> keeps P f) \<Longrightarrow> keeps P (guarded b f)"
  by (auto simp: keeps_def guarded_def)

lemma keeps_guarded_by [keeping]: "keeps P f \<Longrightarrow> keeps P (guarded_by b f)"
  by (simp add: keeps_def guarded_by_def)

lemma keeps_if [keeping]: "(b \<Longrightarrow> keeps P f) \<Longrightarrow> (\<not> b \<Longrightarrow> keeps P g) \<Longrightarrow> keeps P (if b then f else g)"
  by simp

lemma keeps_fun_if [keeping]:
  "(b \<Longrightarrow> keeps P f) \<Longrightarrow> (\<not> b \<Longrightarrow> keeps P g) \<Longrightarrow> keeps P (\<lambda>s. if b then f s else g s)"
  by (simp add: keeps_def)

lemma keeps_pure [keeping]: "keeps P Some"
  by (simp add: keeps_def)

lemma keeps_case_option [keeping]:
  "keeps P f \<Longrightarrow> (\<And>x. keeps P (g x)) \<Longrightarrow> keeps P (case m of None \<Rightarrow> f | Some x \<Rightarrow> g x)"
  by (simp split: option.split)

lemma keeps_case_prod [keeping]: "(\<And>a b. keeps P (f a b)) \<Longrightarrow> keeps P (case p of (a, b) \<Rightarrow> f a b)"
  by (simp split: prod.split)

lemma keeps_Some [keeping]: "(\<And>s. P s \<Longrightarrow> P (g s)) \<Longrightarrow> keeps P (\<lambda>s. Some (g s))"
  by (simp add: keeps_def)

text \<open>What a statement keeps, given that it does not panic, it keeps together with the invariant.\<close>

lemma keeps_and: "keeps P f \<Longrightarrow> (\<And>s s'. f s = Some s' \<Longrightarrow> Q s \<Longrightarrow> Q s') \<Longrightarrow> keeps (\<lambda>s. P s \<and> Q s) f"
  by (fastforce simp: keeps_def)

section \<open>The last n elements of a list\<close>

definition last_n :: "nat \<Rightarrow> 'a list \<Rightarrow> 'a list" where
  "last_n n xs = drop (length xs - n) xs"

lemma length_last_n [simp]: "length (last_n n xs) = min n (length xs)"
  by (simp add: last_n_def)

lemma last_n_short [simp]: "length xs \<le> n \<Longrightarrow> last_n n xs = xs"
  by (simp add: last_n_def)

lemma last_n_snoc: "0 < n \<Longrightarrow> last_n n (last_n n xs @ [x]) = last_n n (xs @ [x])"
  by (cases "length xs < n") (auto simp: last_n_def Suc_diff_le)

lemma last_n_last_n: "last_n n (last_n n xs) = last_n n xs"
  by simp

section \<open>Strings\<close>

text \<open>
  A Rust \<open>String\<close> is a sequence of Unicode scalar values stored as UTF-8. Operations on
  characters (\<open>pop\<close>, \<open>chars\<close>) act on the list; \<open>len\<close> and slicing count bytes, and slicing off
  a character boundary panics.
\<close>

type_synonym rchar = nat
type_synonym rstring = "rchar list"

definition lit :: "string \<Rightarrow> rstring" where
  "lit s = map of_char s"

lemma lit_eq_iff [simp]: "lit s = lit t \<longleftrightarrow> s = t"
  by (auto simp: lit_def inj_map_eq_map inj_def)

definition utf8_len :: "rchar \<Rightarrow> nat" where
  "utf8_len c = (if c < 128 then 1 else if c < 2048 then 2 else if c < 65536 then 3 else 4)"

definition str_len :: "rstring \<Rightarrow> nat" where
  "str_len s = sum_list (map utf8_len s)"

text \<open>\<open>&s[..n]\<close>: the characters of the first \<open>n\<close> bytes, a panic off a boundary.\<close>

fun str_prefix :: "nat \<Rightarrow> rstring \<Rightarrow> rstring option" where
  "str_prefix n [] = (if n = 0 then Some [] else None)"
| "str_prefix n (c # s) =
     (if n = 0 then Some []
      else if n < utf8_len c then None
      else map_option ((#) c) (str_prefix (n - utf8_len c) s))"

text \<open>The decimal form of a number, \<open>format!("{n}")\<close>.\<close>

fun dec :: "nat \<Rightarrow> rstring" where
  "dec n = (if n < 10 then [48 + n] else dec (n div 10) @ [48 + n mod 10])"

declare dec.simps [simp del]

text \<open>\<open>PathBuf::join\<close> on Unix: an absolute second part replaces the first.\<close>

definition path_join :: "rstring \<Rightarrow> rstring \<Rightarrow> rstring" where
  "path_join d p =
     (if p \<noteq> [] \<and> hd p = 47 then p
      else if d = [] \<or> last d = 47 then d @ p
      else d @ 47 # p)"

text \<open>\<open>s.trim()\<close> strips the characters with the Unicode property White_Space.\<close>

definition is_whitespace :: "rchar \<Rightarrow> bool" where
  "is_whitespace c \<longleftrightarrow> 9 \<le> c \<and> c \<le> 13 \<or> c \<in> {32, 0x85, 0xA0, 0x1680} \<or> 0x2000 \<le> c \<and> c \<le> 0x200A \<or>
     c \<in> {0x2028, 0x2029, 0x202F, 0x205F, 0x3000}"

definition str_trim :: "rstring \<Rightarrow> rstring" where
  "str_trim s = rev (dropWhile is_whitespace (rev (dropWhile is_whitespace s)))"

text \<open>\<open>s.pop()\<close>.\<close>

definition str_pop :: "rstring \<Rightarrow> rstring" where
  "str_pop s = butlast s"

lemma utf8_len_pos [simp]: "0 < utf8_len c"
  by (simp add: utf8_len_def)

lemma str_len_Nil [simp]: "str_len [] = 0"
  by (simp add: str_len_def)

lemma str_len_Cons [simp]: "str_len (c # s) = utf8_len c + str_len s"
  by (simp add: str_len_def)

lemma str_len_0 [simp]: "str_len s = 0 \<longleftrightarrow> s = []"
  by (cases s) auto

text \<open>On ASCII text every byte offset within the string is a character boundary.\<close>

section \<open>Event-driven components\<close>

text \<open>
  Every long-running part of the system is a state and a handler called on each event.
  The contract shared by all of them: the handler keeps the component's invariant, so it
  holds after any sequence of events.
\<close>

fun run_events :: "('s \<Rightarrow> 'e \<Rightarrow> 's) \<Rightarrow> 's \<Rightarrow> 'e list \<Rightarrow> 's" where
  "run_events f s [] = s"
| "run_events f s (e # es) = run_events f (f s e) es"

locale event_machine =
  fixes handle :: "'s \<Rightarrow> 'e \<Rightarrow> 's"
    and inv :: "'s \<Rightarrow> bool"
  assumes handle_inv: "inv s \<Longrightarrow> inv (handle s e)"
begin

lemma run_inv: "inv s \<Longrightarrow> inv (run_events handle s es)"
  by (induction es arbitrary: s) (auto simp: handle_inv)

end

text \<open>The same contract for handlers that may panic: under the invariant they do not.\<close>

locale total_machine =
  fixes handle :: "'s \<Rightarrow> 'e \<Rightarrow> 's option"
    and inv :: "'s \<Rightarrow> bool"
    and ok :: "'e \<Rightarrow> bool"
  assumes handle_total: "inv s \<Longrightarrow> ok e \<Longrightarrow> \<exists>s'. handle s e = Some s' \<and> inv s'"
begin

lemma run_total:
  assumes "inv s" and "\<forall>e \<in> set es. ok e"
  shows "\<exists>s'. fold_opt (\<lambda>e s. handle s e) es s = Some s' \<and> inv s'"
  using assms by (intro fold_opt_total) (auto intro: handle_total)

end

end
