(* ===== verification/Smithay.thy ===== *)
theory Smithay
  imports Prelude
begin

text \<open>
  The part of the smithay library that FRAME's own logic calls. None of it is code of the
  repository, so it is a parameter: handles are opaque records compared by identity, and the
  operations of \<open>smithay::desktop::Space<Window>\<close> are the fields of a record that every
  definition using them takes as an argument. \<open>space_laws\<close> states what the code relies on,
  the documented behaviour of mapping, unmapping and raising a window; \<open>list_space\<close> is a
  space that satisfies the laws, used to show that they can hold.
\<close>

section \<open>Handles\<close>

text \<open>
  A \<open>WlSurface\<close> is identified by its client and the protocol id the client's connection gave
  it (protocol ids are per connection). A \<open>Window\<close> is a shared handle; \<open>win_surface\<close> is
  \<open>Window::wl_surface()\<close> and \<open>win_toplevel\<close> says whether \<open>Window::toplevel()\<close> is \<open>Some\<close>.
\<close>

record surface_h =
  surf_client :: nat
  surf_protocol_id :: u32

record window_h =
  win_key :: nat
  win_surface :: "surface_h option"
  win_toplevel :: bool

type_synonym point = "i32 \<times> i32"

record rect =
  rect_loc :: point
  rect_size :: point

text \<open>Pointer positions are \<open>f64\<close>; only their comparison with integers matters here.\<close>

type_synonym fpoint = "rat \<times> rat"

text \<open>An \<open>Output\<close>: the handle and \<open>current_mode()\<close>, the size of the mode when there is one.\<close>

record output_h =
  out_key :: nat
  out_mode :: "point option"

section \<open>\<open>Space\<close>\<close>

record 's space_api =
  sp_default :: 's
  sp_elements :: "'s \<Rightarrow> window_h list"
  sp_location :: "'s \<Rightarrow> window_h \<Rightarrow> point option"
  sp_map :: "'s \<Rightarrow> window_h \<Rightarrow> point \<Rightarrow> bool \<Rightarrow> 's"
  sp_unmap :: "'s \<Rightarrow> window_h \<Rightarrow> 's"
  sp_raise :: "'s \<Rightarrow> window_h \<Rightarrow> bool \<Rightarrow> 's"
  sp_under :: "'s \<Rightarrow> fpoint \<Rightarrow> window_h option"
  sp_output_geometry :: "'s \<Rightarrow> output_h \<Rightarrow> rect option"
  sp_commit :: "'s \<Rightarrow> surface_h \<Rightarrow> 's"
  sp_map_output :: "'s \<Rightarrow> output_h \<Rightarrow> point \<Rightarrow> 's"

text \<open>An output's geometry has a size that is not negative and edges that are \<open>i32\<close> values.\<close>

definition rect_ok :: "rect \<Rightarrow> bool" where
  "rect_ok r \<longleftrightarrow> 0 \<le> fst (rect_size r) \<and> 0 \<le> snd (rect_size r) \<and>
     i32_min \<le> fst (rect_loc r) \<and> i32_min \<le> snd (rect_loc r) \<and>
     fst (rect_loc r) + fst (rect_size r) \<le> i32_max \<and>
     snd (rect_loc r) + snd (rect_size r) \<le> i32_max"

definition space_laws :: "('s, 'x) space_api_scheme \<Rightarrow> bool" where
  "space_laws A \<longleftrightarrow>
     sp_elements A (sp_default A) = [] \<and>
     (\<forall>s w l a. set (sp_elements A (sp_map A s w l a)) = insert w (set (sp_elements A s))) \<and>
     (\<forall>s w. set (sp_elements A (sp_unmap A s w)) = set (sp_elements A s) - {w}) \<and>
     (\<forall>s w a. set (sp_elements A (sp_raise A s w a)) = set (sp_elements A s)) \<and>
     (\<forall>s w l a. sp_location A (sp_map A s w l a) w = Some l) \<and>
     (\<forall>s p w. sp_under A s p = Some w \<longrightarrow> w \<in> set (sp_elements A s)) \<and>
     (\<forall>s x. set (sp_elements A (sp_commit A s x)) = set (sp_elements A s)) \<and>
     (\<forall>s out l. set (sp_elements A (sp_map_output A s out l)) = set (sp_elements A s)) \<and>
     (\<forall>s out r. sp_output_geometry A s out = Some r \<longrightarrow> rect_ok r)"

lemma space_lawsD:
  assumes "space_laws A"
  shows "sp_elements A (sp_default A) = []"
    and "set (sp_elements A (sp_map A s w l a)) = insert w (set (sp_elements A s))"
    and "set (sp_elements A (sp_unmap A s w)) = set (sp_elements A s) - {w}"
    and "set (sp_elements A (sp_raise A s w a)) = set (sp_elements A s)"
    and "sp_location A (sp_map A s w l a) w = Some l"
    and "sp_under A s p = Some w \<Longrightarrow> w \<in> set (sp_elements A s)"
    and "set (sp_elements A (sp_commit A s x)) = set (sp_elements A s)"
    and "set (sp_elements A (sp_map_output A s out l)) = set (sp_elements A s)"
    and "sp_output_geometry A s out = Some r \<Longrightarrow> rect_ok r"
  using assms unfolding space_laws_def by (simp_all del: split_paired_All split_paired_Ex)

section \<open>A space that satisfies the laws\<close>

type_synonym list_space = "(window_h \<times> point) list"

definition ls_drop :: "list_space \<Rightarrow> window_h \<Rightarrow> list_space" where
  "ls_drop s w = filter (\<lambda>e. fst e \<noteq> w) s"

text \<open>Every window of the example is 100 by 100; the topmost one wins.\<close>

definition ls_under :: "list_space \<Rightarrow> fpoint \<Rightarrow> window_h option" where
  "ls_under s p = map_option fst (find (\<lambda>(w, x, y).
     of_int x \<le> fst p \<and> fst p < of_int x + 100 \<and> of_int y \<le> snd p \<and> snd p < of_int y + 100) (rev s))"

definition list_space :: "list_space space_api" where
  "list_space = \<lparr>
     sp_default = [],
     sp_elements = map fst,
     sp_location = map_of,
     sp_map = (\<lambda>s w l a. ls_drop s w @ [(w, l)]),
     sp_unmap = ls_drop,
     sp_raise = (\<lambda>s w a. case map_of s w of None \<Rightarrow> s | Some l \<Rightarrow> ls_drop s w @ [(w, l)]),
     sp_under = ls_under,
     sp_output_geometry = (\<lambda>s out. None),
     sp_commit = (\<lambda>s x. s),
     sp_map_output = (\<lambda>s out l. s)\<rparr>"

lemma ls_drop_elements: "fst ` set (ls_drop s w) = fst ` set s - {w}"
  by (force simp: ls_drop_def)

lemma map_of_ls_drop: "map_of (ls_drop s w) w = None"
  by (induction s) (auto simp: ls_drop_def)

lemma ls_reinsert: "map_of s w = Some l \<Longrightarrow> insert w (fst ` set s) = fst ` set s"
  by (force dest: map_of_SomeD)

lemma find_in_set: "find P xs = Some x \<Longrightarrow> x \<in> set xs"
  by (induction xs) (auto split: if_splits)

lemma ls_under_mem: "ls_under s p = Some w \<Longrightarrow> w \<in> fst ` set s"
proof -
  assume "ls_under s p = Some w"
  then obtain e where "e \<in> set (rev s)" "w = fst e"
    by (auto simp: ls_under_def dest!: find_in_set)
  then show ?thesis by simp
qed

lemma list_space_laws: "space_laws list_space"
  unfolding space_laws_def
proof (intro conjI allI impI)
  fix s :: list_space and w :: window_h and a :: bool
  show "set (sp_elements list_space (sp_raise list_space s w a)) = set (sp_elements list_space s)"
    by (simp add: list_space_def ls_drop_elements ls_reinsert split: option.splits)
qed (simp_all add: list_space_def ls_drop_elements map_add_def map_of_ls_drop ls_under_mem)

section \<open>Layer maps and surfaces\<close>

text \<open>
  \<open>LayerSurface\<close> handles, the \<open>LayerMap\<close> of an output (of type \<open>'l\<close>), and the two
  \<open>surface_under\<close> hit tests, again as fields of a record the definitions take as an argument.
\<close>

datatype layer_kind = Background | Bottom | Top | Overlay

record layer_h =
  lay_key :: nat
  lay_surface :: surface_h

record ('s, 'l) smithay_api = "'s space_api" +
  lm_map :: "'l \<Rightarrow> layer_h \<Rightarrow> 'l option"
  lm_layers :: "'l \<Rightarrow> layer_h list"
  lm_unmap :: "'l \<Rightarrow> layer_h \<Rightarrow> 'l"
  lm_under :: "'l \<Rightarrow> layer_kind \<Rightarrow> fpoint \<Rightarrow> layer_h option"
  lm_geometry :: "'l \<Rightarrow> layer_h \<Rightarrow> rect option"
  layer_surface_under :: "layer_h \<Rightarrow> fpoint \<Rightarrow> (surface_h \<times> point) option"
  window_surface_under :: "window_h \<Rightarrow> fpoint \<Rightarrow> (surface_h \<times> point) option"
  sp_point_under :: "'s \<Rightarrow> fpoint \<Rightarrow> point"

definition list_smithay :: "(list_space, layer_h list) smithay_api" where
  "list_smithay = space_api.extend list_space
     \<lparr>lm_map = (\<lambda>m l. if l \<in> set m then None else Some (m @ [l])),
      lm_layers = (\<lambda>m. m),
      lm_unmap = (\<lambda>m l. filter (\<lambda>k. k \<noteq> l) m),
      lm_under = (\<lambda>m k p. None),
      lm_geometry = (\<lambda>m l. None),
      layer_surface_under = (\<lambda>l p. None),
      window_surface_under = (\<lambda>w p. None),
      sp_point_under = (\<lambda>s p. (0, 0))\<rparr>"

lemma list_smithay_laws: "space_laws list_smithay"
  using list_space_laws
  by (simp add: space_laws_def list_smithay_def space_api.defs smithay_api.defs list_space_def)

end
