(* ===== verification/Workspace.thy ===== *)
theory Workspace
  imports Smithay
begin

text \<open>
  \<open>crates/frame/src/workspace.rs\<close>. \<open>Workspaces\<close> holds one space per workspace;
  \<open>WorkspaceManager\<close> holds the index state: how many workspaces there are, which one is
  active, and the focused window id of each. Both are built with the same clamp of the
  configured count, and the two stay in step because no operation changes either length.
\<close>

section \<open>\<open>Workspaces\<close>\<close>

type_synonym window_id = u64

type_synonym 's workspaces = "'s list"

text \<open>\<open>count.clamp(1, 9) as usize\<close>.\<close>

definition clamp_count :: "u8 \<Rightarrow> nat" where
  "clamp_count c = unat (max 1 (min 9 c))"

definition workspaces_new :: "('s, 'x) space_api_scheme \<Rightarrow> u8 \<Rightarrow> 's workspaces" where
  "workspaces_new A c = replicate (clamp_count c) (sp_default A)"

definition workspaces_count :: "'s workspaces \<Rightarrow> nat" where
  "workspaces_count ws = length ws"

text \<open>\<open>self.spaces.get(idx).unwrap_or(&self.spaces[0])\<close>: the fallback is evaluated first.\<close>

definition workspaces_active :: "'s workspaces \<Rightarrow> nat \<Rightarrow> 's option" where
  "workspaces_active ws idx =
     (case ws of [] \<Rightarrow> None
      | s0 # _ \<Rightarrow> Some (if idx < length ws then ws ! idx else s0))"

text \<open>\<open>active_mut\<close> hands out one space for update: \<open>f\<close> is what the caller does with it.\<close>

definition workspaces_active_mut :: "'s workspaces \<Rightarrow> nat \<Rightarrow> ('s \<Rightarrow> 's) \<Rightarrow> 's workspaces option" where
  "workspaces_active_mut ws idx f =
     (let i = min idx (length ws - 1) in
      if i < length ws then Some (ws[i := f (ws ! i)]) else None)"

definition workspaces_get :: "'s workspaces \<Rightarrow> nat \<Rightarrow> 's option" where
  "workspaces_get ws idx = (if idx < length ws then Some (ws ! idx) else None)"

text \<open>\<open>if let Some(space) = get_mut(idx) { f(space) }\<close>.\<close>

definition workspaces_get_mut :: "'s workspaces \<Rightarrow> nat \<Rightarrow> ('s \<Rightarrow> 's) \<Rightarrow> 's workspaces" where
  "workspaces_get_mut ws idx f = (if idx < length ws then ws[idx := f (ws ! idx)] else ws)"

definition workspaces_occupied :: "('s, 'x) space_api_scheme \<Rightarrow> 's workspaces \<Rightarrow> nat list" where
  "workspaces_occupied A ws = filter (\<lambda>i. sp_elements A (ws ! i) \<noteq> []) [0..<length ws]"

section \<open>\<open>WorkspaceManager\<close>\<close>

record workspace_manager =
  mgr_count :: nat
  mgr_active :: nat
  mgr_focused :: "window_id option list"

definition mgr_new :: "u8 \<Rightarrow> workspace_manager" where
  "mgr_new c = \<lparr>mgr_count = clamp_count c, mgr_active = 0,
                mgr_focused = replicate (clamp_count c) None\<rparr>"

definition switch_to :: "workspace_manager \<Rightarrow> nat \<Rightarrow> bool \<times> workspace_manager" where
  "switch_to m idx =
     (if mgr_count m \<le> idx \<or> idx = mgr_active m then (False, m)
      else (True, m\<lparr>mgr_active := idx\<rparr>))"

definition switch_next :: "workspace_manager \<Rightarrow> bool \<Rightarrow> bool \<times> workspace_manager" where
  "switch_next m wrap =
     (let next_idx = mgr_active m + 1 in
      if next_idx < mgr_count m then switch_to m next_idx
      else if wrap then switch_to m 0
      else (False, m))"

definition switch_prev :: "workspace_manager \<Rightarrow> bool \<Rightarrow> bool \<times> workspace_manager" where
  "switch_prev m wrap =
     (if 0 < mgr_active m then switch_to m (mgr_active m - 1)
      else if wrap then switch_to m (mgr_count m - 1)
      else (False, m))"

text \<open>\<open>self.focused.get(self.active).copied().flatten()\<close>.\<close>

definition focused :: "workspace_manager \<Rightarrow> window_id option" where
  "focused m = (if mgr_active m < length (mgr_focused m) then mgr_focused m ! mgr_active m else None)"

definition set_focus :: "workspace_manager \<Rightarrow> window_id option \<Rightarrow> workspace_manager" where
  "set_focus m idopt =
     (if mgr_active m < length (mgr_focused m)
      then m\<lparr>mgr_focused := (mgr_focused m)[mgr_active m := idopt]\<rparr> else m)"

text \<open>
  The result is \<^const>\<open>None\<close> when \<open>self.focused[src]\<close> or \<open>self.focused[target]\<close> panics,
  otherwise the new manager and the move that was planned, if any.
\<close>

definition plan_move_focused ::
  "workspace_manager \<Rightarrow> nat \<Rightarrow> (workspace_manager \<times> (nat \<times> nat \<times> window_id) option) option" where
  "plan_move_focused m target =
     (if mgr_count m \<le> target \<or> target = mgr_active m then Some (m, None)
      else case focused m of
        None \<Rightarrow> Some (m, None)
      | Some wid \<Rightarrow>
          (let src = mgr_active m in
           if src < length (mgr_focused m) \<and> target < length (mgr_focused m)
           then Some (m\<lparr>mgr_focused := ((mgr_focused m)[src := None])[target := Some wid]\<rparr>,
                      Some (src, target, wid))
           else None))"

section \<open>The invariant and its preservation\<close>

definition mgr_ok :: "workspace_manager \<Rightarrow> bool" where
  "mgr_ok m \<longleftrightarrow> 1 \<le> mgr_count m \<and> mgr_count m \<le> 9 \<and> mgr_active m < mgr_count m \<and>
     length (mgr_focused m) = mgr_count m"

lemma clamp_count_range: "1 \<le> clamp_count c \<and> clamp_count c \<le> 9"
proof -
  have "1 \<le> max 1 (min 9 c)" and "max 1 (min 9 c) \<le> (9 :: u8)" by (simp_all add: max_def)
  then show ?thesis by (simp add: clamp_count_def word_le_nat_alt)
qed

lemma mgr_ok_new [step_inv]: "mgr_ok (mgr_new c)"
  using clamp_count_range [of c] by (simp add: mgr_ok_def mgr_new_def)

lemma mgr_ok_switch_to [step_inv]: "mgr_ok m \<Longrightarrow> mgr_ok (snd (switch_to m idx))"
  by (simp add: mgr_ok_def switch_to_def)

lemma mgr_ok_switch_next [step_inv]: "mgr_ok m \<Longrightarrow> mgr_ok (snd (switch_next m wrap))"
  by (simp add: switch_next_def Let_def mgr_ok_switch_to)

lemma mgr_ok_switch_prev [step_inv]: "mgr_ok m \<Longrightarrow> mgr_ok (snd (switch_prev m wrap))"
  by (simp add: switch_prev_def mgr_ok_switch_to)

lemma mgr_ok_set_focus [step_inv]: "mgr_ok m \<Longrightarrow> mgr_ok (set_focus m i)"
  by (simp add: mgr_ok_def set_focus_def)

lemma plan_move_total:
  "mgr_ok m \<Longrightarrow> \<exists>m' r. plan_move_focused m t = Some (m', r) \<and> mgr_ok m'"
  by (auto simp: plan_move_focused_def mgr_ok_def Let_def split: option.splits)

lemma mgr_ok_plan_move [step_inv]:
  "mgr_ok m \<Longrightarrow> plan_move_focused m t = Some (m', r) \<Longrightarrow> mgr_ok m'"
  using plan_move_total [of m t] by auto

lemma count_switch_to [simp]: "mgr_count (snd (switch_to m idx)) = mgr_count m"
  by (simp add: switch_to_def)

lemma count_switch_next [simp]: "mgr_count (snd (switch_next m w)) = mgr_count m"
  by (simp add: switch_next_def Let_def)

lemma count_switch_prev [simp]: "mgr_count (snd (switch_prev m w)) = mgr_count m"
  by (simp add: switch_prev_def)

lemma count_set_focus [simp]: "mgr_count (set_focus m i) = mgr_count m"
  by (simp add: set_focus_def)

lemma count_plan_move: "plan_move_focused m t = Some (m', r) \<Longrightarrow> mgr_count m' = mgr_count m"
  by (auto simp: plan_move_focused_def Let_def split: if_splits option.splits)

lemma plan_move_Some:
  assumes "mgr_ok m"
  shows "plan_move_focused m t = Some (m', Some (s, t', wid)) \<longleftrightarrow>
    t < mgr_count m \<and> t \<noteq> mgr_active m \<and> focused m = Some wid \<and> s = mgr_active m \<and> t' = t \<and>
    m' = m\<lparr>mgr_focused := ((mgr_focused m)[s := None])[t := Some wid]\<rparr>"
  using assms by (auto simp: plan_move_focused_def mgr_ok_def Let_def split: option.splits)

text \<open>The operations as the events of a machine that must not panic.\<close>

datatype mgr_op =
    SwitchTo nat
  | SwitchNext bool
  | SwitchPrev bool
  | SetFocus "window_id option"
  | PlanMove nat

fun mgr_step :: "workspace_manager \<Rightarrow> mgr_op \<Rightarrow> workspace_manager option" where
  "mgr_step m (SwitchTo i) = Some (snd (switch_to m i))"
| "mgr_step m (SwitchNext w) = Some (snd (switch_next m w))"
| "mgr_step m (SwitchPrev w) = Some (snd (switch_prev m w))"
| "mgr_step m (SetFocus i) = Some (set_focus m i)"
| "mgr_step m (PlanMove t) = map_option fst (plan_move_focused m t)"

interpretation mgr_machine: total_machine mgr_step mgr_ok "\<lambda>_. True"
proof
  fix m e
  assume ok: "mgr_ok m"
  show "\<exists>m'. mgr_step m e = Some m' \<and> mgr_ok m'"
  proof (cases e)
    case (PlanMove t)
    then show ?thesis using plan_move_total [OF ok, of t] by force
  qed (simp_all add: ok step_inv)
qed

section \<open>Properties\<close>

text \<open>
  Whatever sequence of switches, focus changes and window moves is applied to a freshly
  created workspace manager, no operation panics; the number of workspaces stays between 1
  and 9, the active index stays below it and there is exactly one focus slot per workspace.
\<close>

lemma workspace_manager_never_panics:
  "\<exists>m. fold_opt (\<lambda>e m. mgr_step m e) es (mgr_new c) = Some m \<and> mgr_ok m"
  by (rule mgr_machine.run_total) (simp_all add: mgr_ok_new)

text \<open>
  The abstract view of navigation. With wrapping, next and previous move the active
  index by plus and minus one modulo the number of workspaces; without wrapping they stop at
  the last and at the first workspace.
\<close>

lemma navigation_refines_modular:
  assumes "mgr_ok m"
  shows "mgr_active (snd (switch_next m True)) = (mgr_active m + 1) mod mgr_count m \<and>
    mgr_active (snd (switch_prev m True)) = (mgr_active m + mgr_count m - 1) mod mgr_count m \<and>
    mgr_active (snd (switch_next m False)) = min (mgr_active m + 1) (mgr_count m - 1) \<and>
    mgr_active (snd (switch_prev m False)) = mgr_active m - 1"
proof -
  have "(mgr_active m + mgr_count m - 1) mod mgr_count m = mgr_active m - 1" if "0 < mgr_active m"
  proof -
    from that have "mgr_active m + mgr_count m - 1 = (mgr_active m - 1) + mgr_count m" by simp
    then show ?thesis using assms that by (simp only: mod_add_self2) (auto simp: mgr_ok_def)
  qed
  moreover have "Suc (mgr_active m) = mgr_count m" if "\<not> Suc (mgr_active m) < mgr_count m"
    using that assms by (simp add: mgr_ok_def)
  moreover have "Suc (mgr_active m) mod mgr_count m = 0" if "\<not> Suc (mgr_active m) < mgr_count m"
    using calculation(2) [OF that] by simp
  ultimately show ?thesis
    using assms by (auto simp: switch_next_def switch_prev_def switch_to_def mgr_ok_def Let_def)
qed

text \<open>
  A planned move is exactly the bookkeeping of one window: it happens if and only if the
  target exists, is not the active workspace and the active workspace has a focused window;
  then the source slot is cleared, the target slot holds the moved id and every other slot
  and the active index are unchanged. In every other case the manager is unchanged.
\<close>

lemma plan_move_focused_spec:
  assumes "mgr_ok m"
  shows "(t < mgr_count m \<and> t \<noteq> mgr_active m \<and> focused m = Some wid \<longrightarrow>
      (\<exists>m'. plan_move_focused m t = Some (m', Some (mgr_active m, t, wid)) \<and>
        mgr_active m' = mgr_active m \<and> mgr_count m' = mgr_count m \<and>
        (\<forall>i < mgr_count m. mgr_focused m' ! i =
           (if i = mgr_active m then None else if i = t then Some wid else mgr_focused m ! i)))) \<and>
    (mgr_count m \<le> t \<or> t = mgr_active m \<or> focused m = None \<longrightarrow>
      plan_move_focused m t = Some (m, None))"
  using assms
  by (auto simp: plan_move_focused_def mgr_ok_def Let_def nth_list_update split: option.splits)

lemma workspaces_active_nth:
  "ws \<noteq> [] \<Longrightarrow> workspaces_active ws i = Some (if i < length ws then ws ! i else ws ! 0)"
  by (cases ws) (simp_all add: workspaces_active_def)

text \<open>
  The two accessors of the active space agree on every index in range, and disagree on
  every index out of range as soon as there is more than one workspace: \<open>active\<close> reads the
  first space, \<open>active_mut\<close> writes the last one, so an update made through the second is not
  seen through the first.
\<close>

lemma active_accessors_agree_iff:
  assumes "ws \<noteq> []" and "\<And>s. f s \<noteq> s"
  shows "(\<exists>ws'. workspaces_active_mut ws idx f = Some ws' \<and>
      workspaces_active ws' idx = map_option f (workspaces_active ws idx)) \<longleftrightarrow>
    idx < length ws \<or> length ws = 1"
proof -
  let ?i = "min idx (length ws - 1)"
  have upd: "workspaces_active_mut ws idx f = Some (ws[?i := f (ws ! ?i)])"
    using assms(1) by (cases ws) (auto simp: workspaces_active_mut_def Let_def min_def)
  have "length ws \<noteq> 0" using assms(1) by simp
  then have ix: "idx \<le> length ws - Suc 0 \<longleftrightarrow> idx < length ws"
    and one: "length ws \<le> Suc 0 \<longleftrightarrow> length ws = Suc 0" by linarith+
  show ?thesis
    unfolding upd
    using assms by (auto simp: workspaces_active_nth nth_list_update min_def ix one
        assms(2) [symmetric])
qed

end
