(* ===== verification/Frame_Config.thy ===== *)
theory Frame_Config
  imports Prelude
begin

text \<open>
  \<open>crates/frame/src/config.rs\<close>: the configuration records with their defaults and the search
  for the configuration file. The TOML parser (the \<open>toml\<close> crate), the file system and the
  environment are parameters: \<open>env\<close> is the value of \<open>NULLXES_FRAME_CONFIG\<close>, \<open>dir\<close> the result of
  \<open>dirs_next::config_dir()\<close>, \<open>read\<close> is \<open>std::fs::read_to_string\<close> and \<open>parse\<close> is
  \<open>toml::from_str\<close>, each with \<^const>\<open>None\<close> for an error.
\<close>

record compositor_config =
  cc_xwayland :: bool
  cc_target_fps :: u32
  cc_vrr :: bool
  cc_lock_on_suspend :: bool

record input_config =
  ic_natural_scroll :: bool
  ic_tap_to_click :: bool
  ic_pointer_accel :: rat
  ic_repeat_delay :: i32
  ic_repeat_rate :: i32
  ic_xkb_layout :: rstring
  ic_xkb_variant :: rstring
  ic_xkb_options :: rstring

record workspace_config =
  wc_count :: u8
  wc_wrap :: bool

record idle_config =
  dim_ms :: u64
  lock_ms :: u64
  suspend_ms :: u64

record keybinding_config =
  kc_launcher_binary :: rstring
  kc_lock_binary :: rstring

record frame_config =
  fc_compositor :: compositor_config
  fc_input :: input_config
  fc_workspace :: workspace_config
  fc_idle :: idle_config
  fc_keybindings :: keybinding_config

definition compositor_config_default :: compositor_config where
  "compositor_config_default = \<lparr>cc_xwayland = True, cc_target_fps = 0, cc_vrr = True,
     cc_lock_on_suspend = True\<rparr>"

definition input_config_default :: input_config where
  "input_config_default = \<lparr>ic_natural_scroll = True, ic_tap_to_click = True,
     ic_pointer_accel = 0, ic_repeat_delay = 400, ic_repeat_rate = 30,
     ic_xkb_layout = [], ic_xkb_variant = [], ic_xkb_options = []\<rparr>"

definition workspace_config_default :: workspace_config where
  "workspace_config_default = \<lparr>wc_count = 9, wc_wrap = False\<rparr>"

definition idle_config_default :: idle_config where
  "idle_config_default = \<lparr>dim_ms = 5 * 60 * 1000, lock_ms = 10 * 60 * 1000,
     suspend_ms = 30 * 60 * 1000\<rparr>"

definition keybinding_config_default :: keybinding_config where
  "keybinding_config_default = \<lparr>kc_launcher_binary = lit ''nullxes-launcher'',
     kc_lock_binary = lit ''nullxes-lock''\<rparr>"

definition frame_config_default :: frame_config where
  "frame_config_default = \<lparr>fc_compositor = compositor_config_default,
     fc_input = input_config_default, fc_workspace = workspace_config_default,
     fc_idle = idle_config_default, fc_keybindings = keybinding_config_default\<rparr>"

section \<open>\<open>FrameConfig::load\<close>\<close>

definition config_paths :: "rstring option \<Rightarrow> rstring option \<Rightarrow> rstring list" where
  "config_paths env dir =
     (case env of Some p \<Rightarrow> [p] | None \<Rightarrow> []) @
     (case dir of Some d \<Rightarrow> [path_join (path_join d (lit ''nullxes'')) (lit ''frame.toml'')]
        | None \<Rightarrow> []) @
     [lit ''/etc/nullxes/frame.toml'']"

fun load_loop ::
  "(rstring \<Rightarrow> rstring option) \<Rightarrow> (rstring \<Rightarrow> frame_config option) \<Rightarrow> rstring list \<Rightarrow> frame_config" where
  "load_loop read parse [] = frame_config_default"
| "load_loop read parse (p # ps) =
     (case read p of
        Some txt \<Rightarrow> (case parse txt of Some cfg \<Rightarrow> cfg | None \<Rightarrow> load_loop read parse ps)
      | None \<Rightarrow> load_loop read parse ps)"

definition config_load where
  "config_load env dir read parse = load_loop read parse (config_paths env dir)"

lemma load_loop_find:
  "load_loop read parse ps =
     (case find (\<lambda>p. Option.bind (read p) parse \<noteq> None) ps of
        None \<Rightarrow> frame_config_default
      | Some p \<Rightarrow> the (Option.bind (read p) parse))"
  by (induction ps) (auto split: option.splits)

section \<open>Properties\<close>

text \<open>
  The search order of the configuration. The result is the parse of the first of the
  override path, the user's path and the system path that can be read and parsed; a file that
  is unreadable or malformed hides nothing, and the defaults are used exactly when no file of
  the list is usable.
\<close>

lemma config_load_priority:
  "config_load env dir read parse =
     (let usable = (\<lambda>p. Option.bind (read p) parse) in
      case Option.bind env usable of Some cfg \<Rightarrow> cfg
      | None \<Rightarrow>
        (case Option.bind dir (\<lambda>d. usable (path_join (path_join d (lit ''nullxes'')) (lit ''frame.toml'')))
         of Some cfg \<Rightarrow> cfg
         | None \<Rightarrow>
           (case usable (lit ''/etc/nullxes/frame.toml'') of Some cfg \<Rightarrow> cfg
            | None \<Rightarrow> frame_config_default)))"
  by (cases env; cases dir)
    (auto simp: config_load_def config_paths_def load_loop_find Let_def split: option.splits)

end
