(* ===== verification/Idle.thy ===== *)
theory Idle
  imports Frame_Config
begin

text \<open>
  \<open>crates/frame/src/idle.rs\<close>: the tracker behind the idle pipeline. The clock is a parameter:
  every operation that reads \<open>Instant::now()\<close> takes the time, in nanoseconds, as an argument.
  The mutex around the state is held for the whole of each operation, so operations are atomic.
\<close>

record idle_inner =
  idle_last :: nat
  idle_cfg :: idle_config
  idle_dimmed :: bool
  idle_locked_pending :: bool

record idle_actions =
  act_dim :: bool
  act_lock :: bool
  act_suspend :: bool

definition idle_new :: "nat \<Rightarrow> idle_config \<Rightarrow> idle_inner" where
  "idle_new now c = \<lparr>idle_last = now, idle_cfg = c, idle_dimmed = False,
                     idle_locked_pending = False\<rparr>"

definition touch :: "nat \<Rightarrow> idle_inner \<Rightarrow> idle_inner" where
  "touch now g = g\<lparr>idle_last := now, idle_dimmed := False, idle_locked_pending := False\<rparr>"

definition update_config :: "idle_config \<Rightarrow> idle_inner \<Rightarrow> idle_inner" where
  "update_config c g = g\<lparr>idle_cfg := c\<rparr>"

text \<open>\<open>Duration::from_millis\<close> in nanoseconds, and a threshold that is set and reached.\<close>

definition from_millis :: "u64 \<Rightarrow> nat" where
  "from_millis ms = unat ms * 1000000"

definition due :: "u64 \<Rightarrow> nat \<Rightarrow> bool" where
  "due ms elapsed \<longleftrightarrow> 0 < ms \<and> from_millis ms \<le> elapsed"

definition tick :: "nat \<Rightarrow> idle_inner \<Rightarrow> idle_actions \<times> idle_inner" where
  "tick now g =
     (let elapsed = now - idle_last g;
          dim = (due (dim_ms (idle_cfg g)) elapsed \<and> \<not> idle_dimmed g);
          lock = (due (lock_ms (idle_cfg g)) elapsed \<and> \<not> idle_locked_pending g);
          suspend = due (suspend_ms (idle_cfg g)) elapsed
      in (\<lparr>act_dim = dim, act_lock = lock, act_suspend = suspend\<rparr>,
          g\<lparr>idle_dimmed := idle_dimmed g \<or> dim,
            idle_locked_pending := idle_locked_pending g \<or> lock\<rparr>))"

section \<open>Runs\<close>

datatype idle_event = Touch nat | Tick nat | UpdateConfig idle_config

fun idle_step :: "idle_inner \<Rightarrow> idle_event \<Rightarrow> idle_inner \<times> idle_actions list" where
  "idle_step g (Touch now) = (touch now g, [])"
| "idle_step g (Tick now) = (snd (tick now g), [fst (tick now g)])"
| "idle_step g (UpdateConfig c) = (update_config c g, [])"

fun idle_run :: "idle_inner \<Rightarrow> idle_event list \<Rightarrow> idle_actions list" where
  "idle_run g [] = []"
| "idle_run g (e # es) = snd (idle_step g e) @ idle_run (fst (idle_step g e)) es"

fun is_touch :: "idle_event \<Rightarrow> bool" where
  "is_touch (Touch t) = True"
| "is_touch e = False"

text \<open>\<open>first_only bs\<close> keeps the first \<^const>\<open>True\<close> of a list of flags.\<close>

fun first_only :: "bool list \<Rightarrow> bool list" where
  "first_only [] = []"
| "first_only (b # bs) = (if b then True # map (\<lambda>_. False) bs else False # first_only bs)"

lemma tick_fields [simp]:
  "idle_last (snd (tick t g)) = idle_last g"
  "idle_cfg (snd (tick t g)) = idle_cfg g"
  "act_suspend (fst (tick t g)) = due (suspend_ms (idle_cfg g)) (t - idle_last g)"
  "act_lock (fst (tick t g)) =
     (due (lock_ms (idle_cfg g)) (t - idle_last g) \<and> \<not> idle_locked_pending g)"
  "act_dim (fst (tick t g)) =
     (due (dim_ms (idle_cfg g)) (t - idle_last g) \<and> \<not> idle_dimmed g)"
  "idle_locked_pending (snd (tick t g)) =
     (idle_locked_pending g \<or> due (lock_ms (idle_cfg g)) (t - idle_last g))"
  "idle_dimmed (snd (tick t g)) = (idle_dimmed g \<or> due (dim_ms (idle_cfg g)) (t - idle_last g))"
  by (auto simp: tick_def Let_def)

lemma no_fire_after:
  assumes "\<forall>e \<in> set es. \<not> is_touch e"
  shows "idle_locked_pending g \<Longrightarrow> filter act_lock (idle_run g es) = []"
    and "idle_dimmed g \<Longrightarrow> filter act_dim (idle_run g es) = []"
  using assms
proof (induction es arbitrary: g)
  case (Cons e es)
  {
    case 1
    with Cons(1) show ?case by (cases e) (auto simp: update_config_def)
  next
    case 2
    with Cons(2) show ?case by (cases e) (auto simp: update_config_def)
  }
qed simp_all

lemma fires_at_most_once:
  assumes "\<forall>e \<in> set es. \<not> is_touch e"
  shows "length (filter act_lock (idle_run g es)) \<le> 1"
    and "length (filter act_dim (idle_run g es)) \<le> 1"
  using assms
proof (induction es arbitrary: g)
  case (Cons e es)
  {
    case 1
    with Cons(1) no_fire_after(1) [of es] show ?case
      by (cases e) (auto simp: update_config_def)
  next
    case 2
    with Cons(2) no_fire_after(2) [of es] show ?case
      by (cases e) (auto simp: update_config_def)
  }
qed simp_all

lemma idle_run_ticks_flags:
  "map act_lock (idle_run g (map Tick ts)) =
     (if idle_locked_pending g then map (\<lambda>_. False) ts
      else first_only (map (\<lambda>t. due (lock_ms (idle_cfg g)) (t - idle_last g)) ts))"
  "map act_dim (idle_run g (map Tick ts)) =
     (if idle_dimmed g then map (\<lambda>_. False) ts
      else first_only (map (\<lambda>t. due (dim_ms (idle_cfg g)) (t - idle_last g)) ts))"
  "map act_suspend (idle_run g (map Tick ts)) =
     map (\<lambda>t. due (suspend_ms (idle_cfg g)) (t - idle_last g)) ts"
  by (induction ts arbitrary: g) auto

section \<open>Properties\<close>

text \<open>
  Between two inputs the tracker asks for a dim at most once and for a lock at most once,
  whatever ticks and configuration changes happen in between.
\<close>

lemma idle_actions_at_most_once:
  assumes "\<forall>e \<in> set es. \<not> is_touch e"
  shows "length (filter act_lock (idle_run g es)) \<le> 1 \<and>
    length (filter act_dim (idle_run g es)) \<le> 1"
  using fires_at_most_once [OF assms] by blast

text \<open>
  Which tick fires what. After an input at time \<open>t0\<close>, lock and dim are requested exactly at
  the first tick whose elapsed time reaches a threshold that is not zero, while suspend is
  requested at every tick that reaches its threshold.
\<close>

lemma idle_ticks_after_touch:
  "let run = idle_run (touch t0 g) (map Tick ts); c = idle_cfg g in
   map act_lock run = first_only (map (\<lambda>t. due (lock_ms c) (t - t0)) ts) \<and>
   map act_dim run = first_only (map (\<lambda>t. due (dim_ms c) (t - t0)) ts) \<and>
   map act_suspend run = map (\<lambda>t. due (suspend_ms c) (t - t0)) ts"
  by (simp add: Let_def idle_run_ticks_flags touch_def)

end
