(* ===== verification/Xwm.thy ===== *)
theory Xwm
  imports Prelude
begin

text \<open>
  \<open>crates/frame/src/xwm.rs\<close>: starting Xwayland, and the bounded respawn when it exits. The
  handles (\<open>XWaylandShellState\<close>, \<open>XWayland\<close>, \<open>X11Wm\<close>) are smithay objects of which the code
  only asks whether they are there; each optional handle is a flag. A \<open>thread::sleep\<close> is an
  effect: the operations that can sleep return the list of sleeps, in seconds.
\<close>

record xwm_state =
  xwayland_shell :: bool
  xwayland :: bool
  xwm_wm :: bool
  respawn_count :: u32
  xwm_disabled :: bool

definition RESPAWN_DELAYS :: "nat list" where
  "RESPAWN_DELAYS = [1, 2, 5]"

definition xwm_new :: xwm_state where
  "xwm_new = \<lparr>xwayland_shell = False, xwayland = False, xwm_wm = False, respawn_count = 0,
     xwm_disabled = False\<rparr>"

definition ensure_shell :: "xwm_state \<Rightarrow> xwm_state" where
  "ensure_shell s = (if \<not> xwayland_shell s then s\<lparr>xwayland_shell := True\<rparr> else s)"

text \<open>
  \<open>start\<close> returns \<open>Ok(())\<close> on every path. The second component counts the Xwayland processes
  created (\<open>XWayland::new\<close>).
\<close>

definition xwm_start :: "xwm_state \<Rightarrow> xwm_state \<times> nat" where
  "xwm_start s =
     (if xwm_disabled s then (s, 0)
      else ((ensure_shell s)\<lparr>xwayland := True\<rparr>, 1))"

record xwm_effects =
  eff_sleeps :: "nat list"
  eff_spawned :: nat

definition no_effect :: xwm_effects where
  "no_effect = \<lparr>eff_sleeps = [], eff_spawned = 0\<rparr>"

definition schedule_respawn :: "xwm_state \<Rightarrow> xwm_state \<times> xwm_effects" where
  "schedule_respawn s =
     (if length RESPAWN_DELAYS \<le> unat (respawn_count s)
      then (s\<lparr>xwm_disabled := True\<rparr>, no_effect)
      else (let delay = RESPAWN_DELAYS ! unat (respawn_count s);
                s1 = s\<lparr>respawn_count := respawn_count s + 1\<rparr>;
                (s2, n) = xwm_start s1
            in (s2, \<lparr>eff_sleeps = [delay], eff_spawned = n\<rparr>)))"

text \<open>\<open>Ready ok\<close>: \<open>ok\<close> says whether \<open>X11Wm::start_wm\<close> succeeded on the new connection.\<close>

datatype xwayland_event = Ready bool | Exited

fun xwm_handle_event :: "xwm_state \<Rightarrow> xwayland_event \<Rightarrow> xwm_state \<times> xwm_effects" where
  "xwm_handle_event s (Ready ok) =
     (if ok then (s\<lparr>xwm_wm := True, respawn_count := 0\<rparr>, no_effect) else schedule_respawn s)"
| "xwm_handle_event s Exited = schedule_respawn (s\<lparr>xwm_wm := False\<rparr>)"

text \<open>
  \<open>XwmHandler::xwm_state\<close>: without a window manager the process exits (\<^const>\<open>None\<close>).
\<close>

definition xwm_get :: "xwm_state \<Rightarrow> unit option" where
  "xwm_get s = (if xwm_wm s then Some () else None)"

text \<open>\<open>xwayland_shell_state\<close> installs the shell state when it is missing.\<close>

definition xwayland_shell_get :: "xwm_state \<Rightarrow> xwm_state" where
  "xwayland_shell_get s = (if xwayland_shell s then s else ensure_shell s)"

text \<open>\<open>configure_request\<close>: the geometry the window is configured with.\<close>

definition configure_geometry ::
  "(i32 \<times> i32) \<times> (i32 \<times> i32) \<Rightarrow> i32 option \<Rightarrow> i32 option \<Rightarrow> u32 option \<Rightarrow> u32 option \<Rightarrow>
   (i32 \<times> i32) \<times> (i32 \<times> i32)" where
  "configure_geometry geo x y w h =
     (case geo of ((gx, gy), (gw, gh)) \<Rightarrow>
        ((case x of Some x' \<Rightarrow> x' | None \<Rightarrow> gx, case y of Some y' \<Rightarrow> y' | None \<Rightarrow> gy),
         (case w of Some w' \<Rightarrow> u32_as_i32 w' | None \<Rightarrow> gw,
          case h of Some h' \<Rightarrow> u32_as_i32 h' | None \<Rightarrow> gh)))"

section \<open>Requests of X11 windows\<close>

text \<open>
  \<open>XwmHandler\<close>: an X11 window is granted whatever it asks for; the other callbacks (new, unmapped,
  destroyed and override-redirect windows, notifications, moving, resizing, minimising and
  selections) have empty bodies. What the code sets on the window is the record.
\<close>

record x11_window =
  x11_mapped :: bool
  x11_fullscreen :: bool
  x11_maximized :: bool
  x11_geometry :: "(i32 \<times> i32) \<times> (i32 \<times> i32)"

datatype x11_request =
    MapWindowRequest
  | ConfigureRequest "i32 option" "i32 option" "u32 option" "u32 option"
  | FullscreenRequest | UnfullscreenRequest | MaximizeRequest | UnmaximizeRequest
  | EmptyCallback

fun x11_handle :: "x11_request \<Rightarrow> x11_window \<Rightarrow> x11_window" where
  "x11_handle MapWindowRequest w = w\<lparr>x11_mapped := True\<rparr>"
| "x11_handle (ConfigureRequest x y wd ht) w =
     w\<lparr>x11_geometry := configure_geometry (x11_geometry w) x y wd ht\<rparr>"
| "x11_handle FullscreenRequest w = w\<lparr>x11_fullscreen := True\<rparr>"
| "x11_handle UnfullscreenRequest w = w\<lparr>x11_fullscreen := False\<rparr>"
| "x11_handle MaximizeRequest w = w\<lparr>x11_maximized := True\<rparr>"
| "x11_handle UnmaximizeRequest w = w\<lparr>x11_maximized := False\<rparr>"
| "x11_handle EmptyCallback w = w"

text \<open>A full configure request is granted exactly; a window once mapped stays mapped.\<close>

lemma x11_configure_exact:
  "x11_geometry (x11_handle (ConfigureRequest (Some x) (Some y) (Some wd) (Some ht)) w) =
     ((x, y), (u32_as_i32 wd, u32_as_i32 ht))"
  by (simp add: configure_geometry_def split: prod.split)

lemma x11_stays_mapped: "x11_mapped w \<Longrightarrow> x11_mapped (fold x11_handle rs w)"
proof (induction rs arbitrary: w)
  case (Cons r rs)
  have "x11_mapped (x11_handle r w)" using Cons.prems by (cases r) simp_all
  with Cons.IH show ?case by simp
qed simp

section \<open>The respawn bound\<close>

definition xwm_ok :: "xwm_state \<Rightarrow> bool" where
  "xwm_ok s \<longleftrightarrow> unat (respawn_count s) \<le> 3"

text \<open>The sleeps and the processes of a run.\<close>

fun xwm_run :: "xwm_state \<Rightarrow> xwayland_event list \<Rightarrow> xwm_state \<times> nat list \<times> nat" where
  "xwm_run s [] = (s, [], 0)"
| "xwm_run s (e # es) =
     (let (s1, f) = xwm_handle_event s e; (s2, ds, n) = xwm_run s1 es
      in (s2, eff_sleeps f @ ds, eff_spawned f + n))"

lemma unat_respawn_Suc: "unat (c :: u32) < 3 \<Longrightarrow> unat (c + 1) = Suc (unat c)"
  by (simp add: unat_word_ariths)

lemma schedule_respawn_ok [step_inv]: "xwm_ok s \<Longrightarrow> xwm_ok (fst (schedule_respawn s))"
  by (auto simp: schedule_respawn_def xwm_ok_def RESPAWN_DELAYS_def xwm_start_def ensure_shell_def
      Let_def unat_respawn_Suc)

lemma handle_event_ok [step_inv]: "xwm_ok s \<Longrightarrow> xwm_ok (fst (xwm_handle_event s e))"
proof (cases e)
  case Exited
  assume "xwm_ok s"
  then have "xwm_ok (s\<lparr>xwm_wm := False\<rparr>)" by (simp add: xwm_ok_def)
  then show ?thesis using Exited schedule_respawn_ok by simp
qed (auto simp: xwm_ok_def intro: schedule_respawn_ok [unfolded xwm_ok_def])

lemma disabled_schedule:
  "xwm_disabled s \<Longrightarrow> xwm_disabled (fst (schedule_respawn s)) \<and>
     xwayland (fst (schedule_respawn s)) = xwayland s \<and> eff_spawned (snd (schedule_respawn s)) = 0"
  by (auto simp: schedule_respawn_def xwm_start_def no_effect_def Let_def)

lemma disabled_event:
  "xwm_disabled s \<Longrightarrow> xwm_disabled (fst (xwm_handle_event s e)) \<and>
     eff_spawned (snd (xwm_handle_event s e)) = 0"
  using disabled_schedule [of "s\<lparr>xwm_wm := False\<rparr>"] disabled_schedule [of s]
  by (cases e) (auto simp: no_effect_def)

interpretation xwm_machine: event_machine "\<lambda>s e. fst (xwm_handle_event s e)" xwm_ok
  by unfold_locales (rule handle_event_ok)

text \<open>An event is a failure when Xwayland exited or its window manager did not start.\<close>

definition is_failure :: "xwayland_event \<Rightarrow> bool" where
  "is_failure e \<longleftrightarrow> e \<noteq> Ready True"

lemma failure_step:
  assumes "is_failure e" and "\<not> xwm_disabled s"
  shows "unat (respawn_count s) < 3 \<Longrightarrow> \<exists>s'. xwm_handle_event s e =
      (s', \<lparr>eff_sleeps = [RESPAWN_DELAYS ! unat (respawn_count s)], eff_spawned = 1\<rparr>) \<and>
      \<not> xwm_disabled s' \<and> unat (respawn_count s') = Suc (unat (respawn_count s))"
    and "3 \<le> unat (respawn_count s) \<Longrightarrow> \<exists>s'. xwm_handle_event s e = (s', no_effect) \<and>
      xwm_disabled s' \<and> respawn_count s' = respawn_count s"
  using assms
  by (cases e; auto simp: is_failure_def schedule_respawn_def RESPAWN_DELAYS_def xwm_start_def
      ensure_shell_def Let_def unat_respawn_Suc)+

lemma failures_when_disabled:
  assumes "xwm_disabled s" and "3 \<le> unat (respawn_count s)" and "\<forall>e \<in> set es. is_failure e"
  shows "\<exists>s'. xwm_run s es = (s', [], 0) \<and> xwm_disabled s'"
  using assms
proof (induction es arbitrary: s)
  case (Cons e es)
  have "\<exists>s'. xwm_handle_event s e = (s', no_effect) \<and> xwm_disabled s' \<and>
      respawn_count s' = respawn_count s"
    using Cons.prems by (cases e) (auto simp: is_failure_def schedule_respawn_def RESPAWN_DELAYS_def)
  with Cons show ?case by (force simp: no_effect_def)
qed simp

lemma failures_run:
  assumes "\<not> xwm_disabled s" and "unat (respawn_count s) \<le> 3" and "\<forall>e \<in> set es. is_failure e"
  shows "\<exists>s'. xwm_run s es = (s', take (length es) (drop (unat (respawn_count s)) RESPAWN_DELAYS),
      min (length es) (3 - unat (respawn_count s))) \<and>
      xwm_disabled s' = (3 - unat (respawn_count s) < length es)"
  using assms
proof (induction es arbitrary: s)
  case (Cons e es)
  let ?n = "unat (respawn_count s)"
  show ?case
  proof (cases "?n < 3")
    case True
    with Cons.prems obtain s' where s': "xwm_handle_event s e =
        (s', \<lparr>eff_sleeps = [RESPAWN_DELAYS ! ?n], eff_spawned = 1\<rparr>)"
        "\<not> xwm_disabled s'" "unat (respawn_count s') = Suc ?n"
      using failure_step(1) [of e s] by auto
    have "RESPAWN_DELAYS ! ?n # drop (Suc ?n) RESPAWN_DELAYS = drop ?n RESPAWN_DELAYS"
      using True by (intro Cons_nth_drop_Suc) (simp add: RESPAWN_DELAYS_def)
    then have d: "take (Suc k) (drop ?n RESPAWN_DELAYS) =
        RESPAWN_DELAYS ! ?n # take k (drop (Suc ?n) RESPAWN_DELAYS)" for k
      by (metis take_Suc_Cons)
    show ?thesis using Cons.IH [OF s'(2)] Cons.prems s' True d [of "length es"] by force
  next
    case False
    with Cons.prems obtain s' where s': "xwm_handle_event s e = (s', no_effect)"
        "xwm_disabled s'" "respawn_count s' = respawn_count s"
      using failure_step(2) [of e s] by auto
    with False Cons.prems obtain s'' where "xwm_run s' es = (s'', [], 0)" "xwm_disabled s''"
      using failures_when_disabled [of s' es] by auto
    with s' False show ?thesis by (simp add: no_effect_def RESPAWN_DELAYS_def)
  qed
qed simp

section \<open>Properties\<close>

text \<open>
  C35: the backoff plan. From a state that has just been ready (or a fresh one), a run of
  consecutive failures sleeps 1, 2 and 5 seconds, in this order, and starts one process after
  each sleep; from the fourth failure on X11 is disabled and nothing more is started. Whatever the
  events, the counter never leaves the table of the delays.
\<close>

theorem xwayland_respawn_plan:
  assumes "\<not> xwm_disabled s" and "respawn_count s = 0" and "\<forall>e \<in> set es. is_failure e"
  shows "(\<exists>s'. xwm_run s es = (s', take (length es) [1, 2, 5], min (length es) 3) \<and>
      xwm_disabled s' = (3 < length es)) \<and>
    (\<forall>any. unat (respawn_count (run_events (\<lambda>s e. fst (xwm_handle_event s e)) xwm_new any)) \<le> length RESPAWN_DELAYS)"
  using failures_run [OF assms(1) _ assms(3)] assms(2) xwm_machine.run_inv [of xwm_new]
  by (simp add: RESPAWN_DELAYS_def xwm_ok_def xwm_new_def numeral_3_eq_3)

theorem xwayland_respawn_plan_witness:
  "\<exists>s'. xwm_run xwm_new [Exited, Ready False, Exited, Exited, Exited] = (s', [1, 2, 5], 3) \<and>
    xwm_disabled s'"
  using xwayland_respawn_plan [of xwm_new "[Exited, Ready False, Exited, Exited, Exited]"]
  by (simp add: xwm_new_def is_failure_def eval_nat_numeral del: xwm_run.simps)

text \<open>
  Disabling is final. Once X11 is disabled it stays disabled and no event, not even a
  later successful start of a window manager, creates another Xwayland process.
\<close>

lemma xwayland_disabled_is_final:
  assumes "xwm_disabled s"
  shows "xwm_disabled (fst (xwm_run s es)) \<and> snd (snd (xwm_run s es)) = 0"
  using assms
proof (induction es arbitrary: s)
  case (Cons e es)
  from disabled_event [OF Cons.prems, of e] Cons.IH [of "fst (xwm_handle_event s e)"]
  show ?case by (auto simp: Let_def split: prod.splits)
qed simp

end
