(* ===== verification/Floats.thy ===== *)
theory Floats
  imports Prelude
begin

text \<open>
  IEEE floating point as the Rust sources use it (\<open>f32\<close> colour channels and text metrics,
  \<open>f64\<close> pointer positions): a finite value is a rational, and each operation is the exact
  rational operation followed by \<open>fl p\<close>, rounding to nearest with ties to even at a precision of
  \<open>p\<close> bits (24 for \<open>f32\<close>, 53 for \<open>f64\<close>). The values of these programs stay far from overflow
  and from the subnormal range, which \<open>fl\<close> does not model; neither does it model NaN.
\<close>

function bitlen :: "int \<Rightarrow> nat" where
  "bitlen n = (if n \<le> 0 then 0 else Suc (bitlen (n div 2)))"
  by auto

termination by (relation "measure nat") auto

declare bitlen.simps [simp del]

definition pow2 :: "int \<Rightarrow> rat" where
  "pow2 e = (if 0 \<le> e then 2 ^ nat e else 1 / 2 ^ nat (- e))"

text \<open>The exponent \<open>e\<close> with \<open>pow2 e \<le> x < pow2 (e + 1)\<close>, for a positive \<open>x\<close>.\<close>

definition expo :: "rat \<Rightarrow> int" where
  "expo x =
     (case quotient_of x of (n, d) \<Rightarrow>
        let e0 = int (bitlen n) - int (bitlen d)
        in if x < pow2 e0 then e0 - 1 else e0)"

definition round_even :: "rat \<Rightarrow> int" where
  "round_even q =
     (let f = \<lfloor>q\<rfloor>; r = q - of_int f in
      if r < 1 / 2 then f else if 1 / 2 < r then f + 1 else if even f then f else f + 1)"

definition fl :: "nat \<Rightarrow> rat \<Rightarrow> rat" where
  "fl p x =
     (if x = 0 then 0
      else let ulp = pow2 (expo \<bar>x\<bar> + 1 - int p)
           in sgn x * of_int (round_even (\<bar>x\<bar> / ulp)) * ulp)"

text \<open>\<open>round()\<close>: to the nearest integer, ties away from zero.\<close>

definition round_away :: "rat \<Rightarrow> int" where
  "round_away x = (if 0 \<le> x then \<lfloor>x + 1 / 2\<rfloor> else - \<lfloor>- x + 1 / 2\<rfloor>)"

text \<open>The saturating cast \<open>as i32\<close> of an integral float.\<close>

definition sat_i32 :: "int \<Rightarrow> i32" where
  "sat_i32 x = max i32_min (min i32_max x)"

section \<open>The rounding error\<close>

lemma pow2_pos [simp]: "0 < pow2 e"
  by (simp add: pow2_def)

lemma pow2_neq_0 [simp]: "pow2 e \<noteq> 0"
  using pow2_pos [of e] by linarith

lemma pow2_add: "pow2 (a + b) = pow2 a * pow2 b"
proof -
  have pi: "pow2 e = power_int 2 e" for e
    by (simp add: pow2_def power_int_def inverse_eq_divide power_one_over)
  show ?thesis by (simp add: pi power_int_add)
qed

lemma pow2_1 [simp]: "pow2 1 = 2" and pow2_0 [simp]: "pow2 0 = 1"
  by (simp_all add: pow2_def)

lemma pow2_nat: "pow2 (int n) = 2 ^ n"
  by (simp add: pow2_def)

lemma pow2_mono: "a \<le> b \<Longrightarrow> pow2 a \<le> pow2 b"
proof -
  assume "a \<le> b"
  then have "b = a + int (nat (b - a))" by simp
  then have "pow2 b = pow2 a * 2 ^ nat (b - a)" by (metis pow2_add pow2_nat)
  then show ?thesis by (simp add: one_le_power)
qed

lemma bitlen_bounds: "0 < n \<Longrightarrow> 2 ^ (bitlen n - 1) \<le> n \<and> n < 2 ^ bitlen n \<and> 0 < bitlen n"
proof (induction n rule: bitlen.induct)
  case (1 n)
  show ?case
  proof (cases "n = 1")
    case True
    then show ?thesis by (simp add: bitlen.simps)
  next
    case False
    with "1.prems" have h: "0 < n div 2" by linarith
    with "1.IH" "1.prems" obtain k where k: "bitlen (n div 2) = Suc k"
      "2 ^ k \<le> n div 2" "n div 2 < 2 ^ Suc k"
      by (metis Suc_pred diff_Suc_1 not_le)
    have dm: "n = 2 * (n div 2) + n mod 2" "0 \<le> n mod 2" "n mod 2 < 2" by simp_all
    from k(1) "1.prems" have b: "bitlen n = Suc (Suc k)" by (simp add: bitlen.simps [of n])
    from k(2,3) dm have "2 ^ Suc k \<le> n" and "n < 2 ^ Suc (Suc k)"
      unfolding power_Suc by linarith+
    with b show ?thesis by simp
  qed
qed

lemma expo_bounds:
  assumes "0 < x"
  shows "pow2 (expo x) \<le> x \<and> x < pow2 (expo x + 1)"
proof -
  obtain n d where q: "quotient_of x = (n, d)" by (cases "quotient_of x")
  then have d: "0 < d" and xe: "x = of_int n / of_int d"
    using quotient_of_denom_pos quotient_of_div by blast+
  with assms have n: "0 < n" by (simp add: zero_less_divide_iff)
  let ?a = "bitlen n" and ?b = "bitlen d"
  have a: "2 ^ (?a - 1) \<le> n" "n < 2 ^ ?a" "0 < ?a"
    and b: "2 ^ (?b - 1) \<le> d" "d < 2 ^ ?b" "0 < ?b"
    using bitlen_bounds [of n] bitlen_bounds [of d] n d by auto
  have ra: "(2 :: rat) ^ (?a - 1) \<le> of_int n" "of_int n < (2 :: rat) ^ ?a"
    and rb: "(2 :: rat) ^ (?b - 1) \<le> of_int d" "of_int d < (2 :: rat) ^ ?b"
    using a b by (metis of_int_numeral of_int_power of_int_le_iff of_int_less_iff)+
  let ?e = "int ?a - int ?b"
  have pa: "(2 :: rat) ^ ?a = 2 * 2 ^ (?a - 1)" and pb: "(2 :: rat) ^ ?b = 2 * 2 ^ (?b - 1)"
    using a(3) b(3) by (simp_all flip: power_Suc)
  have pe: "pow2 ?e * 2 ^ ?b = 2 ^ ?a"
    by (metis diff_add_cancel pow2_add pow2_nat)
  have dpos: "(0 :: rat) < of_int d" using d by simp
  have up: "x < pow2 (?e + 1)"
  proof -
    have "of_int n < pow2 ?e * 2 ^ ?b" using ra(2) pe by simp
    also have "\<dots> \<le> pow2 ?e * (2 * of_int d)"
      using rb(1) pb by (intro mult_left_mono) (simp_all add: less_imp_le)
    finally show ?thesis using dpos by (simp add: xe pow2_add divide_less_eq ac_simps)
  qed
  have lo: "pow2 (?e - 1) \<le> x"
  proof -
    have "pow2 (?e - 1) * 2 = pow2 ?e" using pow2_add [of "?e - 1" 1] by simp
    then have "pow2 (?e - 1) * of_int d * 2 \<le> pow2 ?e * 2 ^ ?b"
      using rb(2) by (simp add: mult_left_mono less_imp_le ac_simps)
    also have "\<dots> \<le> 2 * of_int n" using ra(1) pa pe by simp
    finally show ?thesis using dpos by (simp add: xe le_divide_eq)
  qed
  show ?thesis
    using up lo by (simp add: expo_def q Let_def)
qed

section \<open>Evaluating one operation\<close>

lemma expo_unique:
  assumes "pow2 e \<le> x" and "x < pow2 (e + 1)"
  shows "expo x = e"
proof -
  have "0 < x" using assms(1) pow2_pos [of e] by linarith
  note b = expo_bounds [OF this]
  show ?thesis
  proof (rule ccontr)
    assume "expo x \<noteq> e"
    then consider "expo x + 1 \<le> e" | "e + 1 \<le> expo x" by linarith
    then show False
      using b assms pow2_mono [of "expo x + 1" e] pow2_mono [of "e + 1" "expo x"] by cases linarith+
  qed
qed

lemma round_even_near: "\<bar>q - of_int m\<bar> < 1 / 2 \<Longrightarrow> round_even q = m"
proof -
  assume a: "\<bar>q - of_int m\<bar> < 1 / 2"
  show ?thesis
  proof (cases "of_int m \<le> q")
    case True
    with a have "\<lfloor>q\<rfloor> = m" by (intro floor_unique) auto
    with True a show ?thesis by (simp add: round_even_def)
  next
    case False
    with a have "\<lfloor>q\<rfloor> = m - 1" by (intro floor_unique) (auto simp: abs_if)
    with False a show ?thesis by (simp add: round_even_def)
  qed
qed

text \<open>
  A positive fraction \<open>n / d\<close> scaled by \<open>2 ^ s\<close> into the range of \<open>p\<close>-bit mantissas and closer to
  \<open>m\<close> than to any other integer rounds to \<open>m / 2 ^ s\<close>.
\<close>

lemma fl_fraction:
  fixes n d m :: int
  assumes d: "0 < d" and p: "0 < p"
    and lo: "d * 2 ^ (p - 1) \<le> n * 2 ^ s" and hi: "n * 2 ^ s < d * 2 ^ p"
    and near: "2 * \<bar>n * 2 ^ s - d * m\<bar> < d"
  shows "fl p (of_int n / of_int d) = of_int m / 2 ^ s"
proof -
  let ?x = "of_int n / of_int d :: rat" and ?e = "int p - 1 - int s"
  have dd: "(0 :: rat) < of_int d" using d by simp
  have "(of_int (d * 2 ^ (p - 1)) :: rat) \<le> of_int (n * 2 ^ s)"
    using lo by (rule of_int_le_iff [THEN iffD2])
  then have rlo: "(of_int d :: rat) * 2 ^ (p - 1) \<le> of_int n * 2 ^ s"
    by (simp only: of_int_mult of_int_power of_int_numeral)
  have "(of_int (n * 2 ^ s) :: rat) < of_int (d * 2 ^ p)"
    using hi by (rule of_int_less_iff [THEN iffD2])
  then have rhi: "(of_int n :: rat) * 2 ^ s < of_int d * 2 ^ p"
    by (simp only: of_int_mult of_int_power of_int_numeral)
  have "(of_int (2 * \<bar>n * 2 ^ s - d * m\<bar>) :: rat) < of_int d"
    using near by (rule of_int_less_iff [THEN iffD2])
  then have rnear: "2 * \<bar>of_int n * 2 ^ s - of_int d * of_int m\<bar> < (of_int d :: rat)"
    by (simp only: of_int_mult of_int_power of_int_numeral of_int_abs of_int_diff)
  have e1: "pow2 ?e * 2 ^ s = 2 ^ (p - 1)"
    using p by (metis diff_add_cancel of_nat_1 of_nat_diff One_nat_def Suc_leI pow2_add pow2_nat)
  have e2: "pow2 (?e + 1) * 2 ^ s = 2 ^ p"
    by (metis diff_add_cancel add_diff_eq diff_add_eq pow2_add pow2_nat)
  have "pow2 ?e * of_int d * 2 ^ s = of_int d * 2 ^ (p - 1)"
    by (simp only: e1 [symmetric] ac_simps)
  with rlo have "pow2 ?e * of_int d * 2 ^ s \<le> of_int n * 2 ^ s" by (simp only:)
  then have 1: "pow2 ?e \<le> ?x" using dd by (simp add: le_divide_eq)
  have "pow2 (?e + 1) * of_int d * 2 ^ s = of_int d * 2 ^ p"
    by (simp only: e2 [symmetric] ac_simps)
  with rhi have "of_int n * 2 ^ s < pow2 (?e + 1) * of_int d * 2 ^ s" by (simp only:)
  then have 2: "?x < pow2 (?e + 1)" using dd by (simp add: divide_less_eq)
  have pos: "0 < ?x" using 1 pow2_pos [of ?e] by linarith
  have ulp: "pow2 (- int s) = 1 / 2 ^ s" by (simp add: pow2_def)
  have "\<bar>?x * 2 ^ s - of_int m\<bar> * (2 * of_int d) = 2 * \<bar>(?x * 2 ^ s - of_int m) * of_int d\<bar>"
    using dd by (simp add: abs_mult)
  also have "\<dots> < of_int d" using rnear dd by (simp add: right_diff_distrib ac_simps)
  finally have "\<bar>?x * 2 ^ s - of_int m\<bar> < 1 / 2" using dd by (simp add: less_divide_eq)
  then have "round_even (?x / pow2 (- int s)) = m"
    by (intro round_even_near) (simp add: ulp)
  moreover have "\<bar>?x\<bar> = ?x" and "?x \<noteq> 0" and "sgn ?x = 1" using pos by (simp_all only: abs_of_pos sgn_pos)
  moreover have "expo ?x + 1 - int p = - int s" by (simp add: expo_unique [OF 1 2])
  ultimately show ?thesis by (simp only: fl_def Let_def if_False ulp) simp
qed

end
