(* ===== verification/Compositor.thy ===== *)
theory Compositor
  imports Workspace Idle Xwm Floats
begin

text \<open>
  The compositor's state (\<open>crates/frame/src/state.rs\<close>) and the handlers that change it: input
  dispatch (\<open>input/mod.rs\<close>), key bindings (\<open>input/keybind.rs\<close>), the interactive move
  (\<open>input/move_grab.rs\<close>), xdg toplevels (\<open>handlers/xdg_shell.rs\<close>), the session lock
  (\<open>handlers/session_lock.rs\<close>), layer surfaces (\<open>handlers/layer_shell.rs\<close>), commits
  (\<open>handlers/compositor.rs\<close>), signals (\<open>signals.rs\<close>) and the boot path of the winit backend.
  A handler that could panic returns an option. What a handler sends to clients or to the
  system is appended to the state's list of effects.

  The seat belongs to smithay. Of it the model keeps the keyboard (whether there is one, and
  its focus) and the pointer (its location, its focus, the focus of the last motion
  and the active grab).
\<close>

section \<open>State\<close>

datatype frame_signal = SIGTERM | SIGINT | SIGHUP

record move_grab =
  grab_start_location :: fpoint
  grab_window :: window_h
  grab_initial_location :: point

record pointer_st =
  ptr_location :: fpoint
  ptr_focus :: "(surface_h \<times> point) option"
  ptr_pending :: "(surface_h \<times> point) option"
  ptr_grab :: "move_grab option"

record axis_frame =
  af_vertical :: "rat option"
  af_vertical_v120 :: "i32 option"
  af_horizontal :: "rat option"
  af_stop_vertical :: bool
  af_stop_horizontal :: bool

datatype effect =
    KeyForwarded "surface_h option" u32
  | SpawnDetached rstring
  | SendClose window_h
  | LayerClosed surface_h
  | LockConfigure surface_h point
  | PointerButtonSent "(surface_h \<times> point) option" u32 bool
  | PointerAxisSent "(surface_h \<times> point) option" axis_frame
  | BufferCommitted surface_h
  | FrameSent window_h output_h
  | PopupTracked surface_h
  | PopupRepositioned surface_h u32 rect

record ('s, 'l) nullxes_state =
  nx_workspaces :: "'s workspaces"
  nx_mgr :: workspace_manager
  nx_primary :: "output_h option"
  nx_lock :: "surface_h list option"
  nx_xwm :: xwm_state
  nx_config :: frame_config
  nx_shutdown_reason :: "frame_signal option"
  nx_stopped :: bool
  nx_layer_maps :: "nat \<Rightarrow> 'l"
  nx_kbd :: "surface_h option option"
  nx_ptr :: "pointer_st option"
  nx_effects :: "effect list"

definition nx_new ::
  "('s, 'l, 'x) smithay_api_scheme \<Rightarrow> frame_config \<Rightarrow> (nat \<Rightarrow> 'l) \<Rightarrow> ('s, 'l) nullxes_state" where
  "nx_new A cfg maps = \<lparr>nx_workspaces = workspaces_new A (wc_count (fc_workspace cfg)),
     nx_mgr = mgr_new (wc_count (fc_workspace cfg)), nx_primary = None, nx_lock = None,
     nx_xwm = xwm_new, nx_config = cfg, nx_shutdown_reason = None, nx_stopped = False,
     nx_layer_maps = maps, nx_kbd = None, nx_ptr = None, nx_effects = []\<rparr>"

definition nx_log :: "effect \<Rightarrow> ('s, 'l) nullxes_state \<Rightarrow> ('s, 'l) nullxes_state" where
  "nx_log e st = st\<lparr>nx_effects := nx_effects st @ [e]\<rparr>"

definition active_space :: "('s, 'l) nullxes_state \<Rightarrow> 's option" where
  "active_space st = workspaces_active (nx_workspaces st) (mgr_active (nx_mgr st))"

definition active_space_mut ::
  "('s, 'l) nullxes_state \<Rightarrow> ('s \<Rightarrow> 's) \<Rightarrow> ('s, 'l) nullxes_state option" where
  "active_space_mut st f =
     map_option (\<lambda>ws. st\<lparr>nx_workspaces := ws\<rparr>)
       (workspaces_active_mut (nx_workspaces st) (mgr_active (nx_mgr st)) f)"

text \<open>\<open>if let Some(kbd) = seat.get_keyboard() { kbd.set_focus(..) }\<close>.\<close>

definition kbd_set_focus ::
  "surface_h option \<Rightarrow> ('s, 'l) nullxes_state \<Rightarrow> ('s, 'l) nullxes_state" where
  "kbd_set_focus f st = (case nx_kbd st of None \<Rightarrow> st | Some _ \<Rightarrow> st\<lparr>nx_kbd := Some f\<rparr>)"

text \<open>\<open>send_frames_after_render\<close>.\<close>

definition send_frames_after_render ::
  "('s, 'l, 'x) smithay_api_scheme \<Rightarrow> ('s, 'l) nullxes_state \<Rightarrow> ('s, 'l) nullxes_state option" where
  "send_frames_after_render A st =
     (case active_space st of
        None \<Rightarrow> None
      | Some space \<Rightarrow>
          (case nx_primary st of
             None \<Rightarrow> Some st
           | Some out \<Rightarrow> Some (fold (\<lambda>w. nx_log (FrameSent w out)) (sp_elements A space) st)))"

section \<open>Boot of the winit backend\<close>

text \<open>
  \<open>out\<close> is the output created for the window, \<open>kbd_ok\<close> the result of \<open>seat.add_keyboard\<close>.
\<close>

definition winit_boot ::
  "('s, 'l, 'x) smithay_api_scheme \<Rightarrow> frame_config \<Rightarrow> (nat \<Rightarrow> 'l) \<Rightarrow> output_h \<Rightarrow> bool \<Rightarrow>
   ('s, 'l) nullxes_state" where
  "winit_boot A cfg maps out kbd_ok =
     (let st = nx_new A cfg maps;
          ws = fold (\<lambda>i ws. workspaces_get_mut ws i (\<lambda>s. sp_map_output A s out (0, 0)))
                 [0..<workspaces_count (nx_workspaces st)] (nx_workspaces st)
      in st\<lparr>nx_workspaces := ws, nx_primary := Some out,
            nx_kbd := (if kbd_ok then Some None else None),
            nx_ptr := Some \<lparr>ptr_location = (0, 0), ptr_focus = None, ptr_pending = None,
              ptr_grab = None\<rparr>,
            nx_xwm := (if cc_xwayland (fc_compositor cfg) then fst (xwm_start (nx_xwm st))
                       else nx_xwm st)\<rparr>)"

definition winit_resized :: "point \<Rightarrow> ('s, 'l) nullxes_state \<Rightarrow> ('s, 'l) nullxes_state" where
  "winit_resized sz st =
     st\<lparr>nx_primary := map_option (\<lambda>p. p\<lparr>out_mode := Some sz\<rparr>) (nx_primary st)\<rparr>"

definition winit_close_requested :: "('s, 'l) nullxes_state \<Rightarrow> ('s, 'l) nullxes_state" where
  "winit_close_requested st = st\<lparr>nx_stopped := True\<rparr>"

definition handle_signal :: "frame_signal \<Rightarrow> ('s, 'l) nullxes_state \<Rightarrow> ('s, 'l) nullxes_state" where
  "handle_signal s st = st\<lparr>nx_shutdown_reason := Some s, nx_stopped := True\<rparr>"

section \<open>xdg toplevels\<close>

definition window_id :: "window_h \<Rightarrow> window_id" where
  "window_id w = (case win_surface w of Some s \<Rightarrow> ucast (surf_protocol_id s) | None \<Rightarrow> 0)"

definition default_geometry :: rect where
  "default_geometry = \<lparr>rect_loc = (0, 0), rect_size = (1920, 1080)\<rparr>"

definition toplevel_location ::
  "('s, 'x) space_api_scheme \<Rightarrow> output_h option \<Rightarrow> 's \<Rightarrow> point" where
  "toplevel_location A primary space =
     (let geo = (case Option.bind primary (sp_output_geometry A space) of
                   Some g \<Rightarrow> g | None \<Rightarrow> default_geometry)
      in (i32_wrap (fst (rect_loc geo) + i32_quot (fst (rect_size geo)) 4),
          i32_wrap (snd (rect_loc geo) + i32_quot (snd (rect_size geo)) 4)))"

definition new_toplevel ::
  "('s, 'x) space_api_scheme \<Rightarrow> window_h \<Rightarrow> ('s, 'l) nullxes_state \<Rightarrow> ('s, 'l) nullxes_state option" where
  "new_toplevel A window st =
     map_option (\<lambda>st'. st'\<lparr>nx_mgr := set_focus (nx_mgr st') (Some (window_id window))\<rparr>)
       (active_space_mut st
          (\<lambda>space. sp_map A space window (toplevel_location A (nx_primary st) space) True))"

definition window_of ::
  "('s, 'x) space_api_scheme \<Rightarrow> surface_h \<Rightarrow> 's \<Rightarrow> window_h option" where
  "window_of A wl space = find (\<lambda>w. win_surface w = Some wl) (sp_elements A space)"

text \<open>
  \<open>move_request\<close>. The pointer's answers are arguments: \<open>has_grab\<close> is \<open>ptr.has_grab(serial)\<close>,
  \<open>start\<close> is \<open>ptr.grab_start_data()\<close>, a location and the focused surface.
\<close>

definition move_request ::
  "('s, 'x) space_api_scheme \<Rightarrow> surface_h \<Rightarrow> bool \<Rightarrow> (fpoint \<times> surface_h option) option \<Rightarrow>
   ('s, 'l) nullxes_state \<Rightarrow> ('s, 'l) nullxes_state option" where
  "move_request A wl has_grab start st =
     (case nx_ptr st of
        None \<Rightarrow> Some st
      | Some ptr \<Rightarrow>
          if \<not> has_grab then Some st
          else (case start of
            None \<Rightarrow> Some st
          | Some (loc, focus) \<Rightarrow>
              if (case focus of None \<Rightarrow> True | Some f \<Rightarrow> surf_client f \<noteq> surf_client wl)
              then Some st
              else (let ws = nx_workspaces st; i = min (mgr_active (nx_mgr st)) (length ws - 1) in
                if i < length ws
                then (case window_of A wl (ws ! i) of
                        None \<Rightarrow> Some st
                      | Some window \<Rightarrow>
                          Some (st\<lparr>nx_ptr := Some (ptr\<lparr>ptr_focus := None,
                            ptr_grab := Some \<lparr>grab_start_location = loc, grab_window = window,
                              grab_initial_location =
                                (case sp_location A (ws ! i) window of Some l \<Rightarrow> l | None \<Rightarrow> (0, 0))\<rparr>\<rparr>)\<rparr>))
                else None)))"

text \<open>The loop of \<open>toplevel_destroyed\<close>, which stops at the first workspace with the window.\<close>

fun destroy_scan ::
  "('s, 'x) space_api_scheme \<Rightarrow> surface_h \<Rightarrow> nat list \<Rightarrow> 's workspaces \<Rightarrow> 's workspaces \<times> window_id option" where
  "destroy_scan A wl [] ws = (ws, None)"
| "destroy_scan A wl (i # is) ws =
     (case workspaces_get ws i of
        None \<Rightarrow> destroy_scan A wl is ws
      | Some space \<Rightarrow>
          (case window_of A wl space of
             None \<Rightarrow> destroy_scan A wl is ws
           | Some w \<Rightarrow> (workspaces_get_mut ws i (\<lambda>s. sp_unmap A s w), Some (window_id w))))"

definition toplevel_destroyed ::
  "('s, 'x) space_api_scheme \<Rightarrow> surface_h \<Rightarrow> ('s, 'l) nullxes_state \<Rightarrow> ('s, 'l) nullxes_state" where
  "toplevel_destroyed A wl st =
     (let (ws, found) = destroy_scan A wl [0..<workspaces_count (nx_workspaces st)] (nx_workspaces st);
          st1 = st\<lparr>nx_workspaces := ws\<rparr>
      in case found of
           None \<Rightarrow> st1
         | Some wid \<Rightarrow>
             if focused (nx_mgr st1) = Some wid
             then st1\<lparr>nx_mgr := set_focus (nx_mgr st1) None\<rparr> else st1)"

section \<open>xdg popups\<close>

text \<open>
  \<open>tracked\<close> is the answer of \<open>PopupManager::track_popup\<close>, whose failure is logged; \<open>geo\<close> is
  \<open>positioner.get_geometry()\<close>, sent back with the token of the request.
\<close>

definition new_popup :: "surface_h \<Rightarrow> bool \<Rightarrow> ('s, 'l) nullxes_state \<Rightarrow> ('s, 'l) nullxes_state" where
  "new_popup surface tracked st = (if tracked then nx_log (PopupTracked surface) st else st)"

definition reposition_request :: "surface_h \<Rightarrow> rect \<Rightarrow> u32 \<Rightarrow> ('s, 'l) nullxes_state \<Rightarrow> ('s, 'l) nullxes_state" where
  "reposition_request surface geo token st = nx_log (PopupRepositioned surface token geo) st"

text \<open>\<open>resize_request\<close> and \<open>grab\<close> have empty bodies.\<close>

definition ignored_request :: "surface_h \<Rightarrow> ('s, 'l) nullxes_state \<Rightarrow> ('s, 'l) nullxes_state" where
  "ignored_request surface st = st"

lemmas popup_defs = new_popup_def reposition_request_def ignored_request_def nx_log_def

section \<open>Session lock\<close>

definition session_lock :: "('s, 'l) nullxes_state \<Rightarrow> ('s, 'l) nullxes_state" where
  "session_lock st =
     (if nx_lock st \<noteq> None then st
      else kbd_set_focus None (st\<lparr>nx_lock := Some []\<rparr>))"

definition session_unlock ::
  "('s, 'x) space_api_scheme \<Rightarrow> ('s, 'l) nullxes_state \<Rightarrow> ('s, 'l) nullxes_state option" where
  "session_unlock A st0 =
     (let st = st0\<lparr>nx_lock := None\<rparr> in
      case active_space st of
        None \<Rightarrow> None
      | Some space \<Rightarrow>
          (case (case sp_elements A space of [] \<Rightarrow> None | es \<Rightarrow> win_surface (last es)) of
             None \<Rightarrow> Some st
           | Some topw \<Rightarrow> Some (kbd_set_focus (Some topw) st)))"

text \<open>\<open>out\<close> is \<open>Output::from_resource\<close> of the requested output.\<close>

definition new_lock_surface ::
  "surface_h \<Rightarrow> output_h option \<Rightarrow> ('s, 'l) nullxes_state \<Rightarrow> ('s, 'l) nullxes_state" where
  "new_lock_surface surface out st =
     (case nx_lock st of
        None \<Rightarrow> st
      | Some surfaces \<Rightarrow>
          (let st1 = (case Option.bind out out_mode of
                        Some sz \<Rightarrow> nx_log (LockConfigure surface sz) st
                      | None \<Rightarrow> st)
           in st1\<lparr>nx_lock := Some (surfaces @ [surface])\<rparr>))"

section \<open>Layer surfaces and commits\<close>

text \<open>\<open>wl_output\<close> is the optional requested output, itself an optional live output.\<close>

definition new_layer_surface ::
  "('s, 'l, 'x) smithay_api_scheme \<Rightarrow> layer_h \<Rightarrow> output_h option option \<Rightarrow>
   ('s, 'l) nullxes_state \<Rightarrow> ('s, 'l) nullxes_state" where
  "new_layer_surface A layer wl_output st =
     (case (case wl_output of Some o' \<Rightarrow> o' | None \<Rightarrow> nx_primary st) of
        None \<Rightarrow> nx_log (LayerClosed (lay_surface layer)) st
      | Some out \<Rightarrow>
          (case lm_map A (nx_layer_maps st (out_key out)) layer of
             None \<Rightarrow> st
           | Some m \<Rightarrow> st\<lparr>nx_layer_maps := (nx_layer_maps st)(out_key out := m)\<rparr>))"

definition layer_destroyed ::
  "('s, 'l, 'x) smithay_api_scheme \<Rightarrow> surface_h \<Rightarrow> ('s, 'l) nullxes_state \<Rightarrow> ('s, 'l) nullxes_state" where
  "layer_destroyed A surface st =
     (case nx_primary st of
        None \<Rightarrow> st
      | Some out \<Rightarrow>
          (let m = nx_layer_maps st (out_key out) in
           case find (\<lambda>l. lay_surface l = surface) (lm_layers A m) of
             None \<Rightarrow> st
           | Some l \<Rightarrow> st\<lparr>nx_layer_maps := (nx_layer_maps st)(out_key out := lm_unmap A m l)\<rparr>))"

text \<open>
  \<open>commit\<close>; \<open>sync\<close> is \<open>is_sync_subsurface(surface)\<close>. The walk to the root surface computes a
  value that is not used, and the popup manager is not part of the model.
\<close>

definition compositor_commit ::
  "('s, 'x) space_api_scheme \<Rightarrow> surface_h \<Rightarrow> bool \<Rightarrow> ('s, 'l) nullxes_state \<Rightarrow> ('s, 'l) nullxes_state" where
  "compositor_commit A surface sync st =
     (let st1 = (if sync then st else nx_log (BufferCommitted surface) st);
          ws = fold (\<lambda>i ws. workspaces_get_mut ws i (\<lambda>s. sp_commit A s surface))
                 [0..<workspaces_count (nx_workspaces st1)] (nx_workspaces st1)
      in st1\<lparr>nx_workspaces := ws\<rparr>)"

end
