(* ===== verification/Input.thy ===== *)
theory Input
  imports Compositor
begin

text \<open>
  \<open>crates/frame/src/input\<close>: \<open>mod.rs\<close> (dispatch of input events), \<open>keybind.rs\<close> (the
  compositor's shortcuts) and \<open>move_grab.rs\<close> (interactive move). The keyboard layer gives the
  modifiers and the keysym of an event; the pointer layer gives the buttons still pressed.
\<close>

section \<open>Key bindings\<close>

definition KEY_1 :: u32 where "KEY_1 = 0x31"
definition KEY_9 :: u32 where "KEY_9 = 0x39"
definition KEY_Right :: u32 where "KEY_Right = 0xff53"
definition KEY_Left :: u32 where "KEY_Left = 0xff51"
definition KEY_q :: u32 where "KEY_q = 0x71"
definition KEY_Q :: u32 where "KEY_Q = 0x51"
definition KEY_l :: u32 where "KEY_l = 0x6c"
definition KEY_L :: u32 where "KEY_L = 0x4c"
definition KEY_Return :: u32 where "KEY_Return = 0xff0d"
definition KEY_KP_Enter :: u32 where "KEY_KP_Enter = 0xff8d"
definition KEY_Super_L :: u32 where "KEY_Super_L = 0xffeb"
definition KEY_Super_R :: u32 where "KEY_Super_R = 0xffec"

lemmas keysym_defs = KEY_1_def KEY_9_def KEY_Right_def KEY_Left_def KEY_q_def KEY_Q_def
  KEY_l_def KEY_L_def KEY_Return_def KEY_KP_Enter_def KEY_Super_L_def KEY_Super_R_def

definition find_by_id :: "window_id \<Rightarrow> window_h list \<Rightarrow> window_h option" where
  "find_by_id wid ws =
     find (\<lambda>w. case win_surface w of Some s \<Rightarrow> ucast (surf_protocol_id s) = wid | None \<Rightarrow> False) ws"

definition move_window_between_workspaces ::
  "('s, 'x) space_api_scheme \<Rightarrow> nat \<Rightarrow> nat \<Rightarrow> window_id \<Rightarrow> ('s, 'l) nullxes_state \<Rightarrow> ('s, 'l) nullxes_state" where
  "move_window_between_workspaces A src target wid st =
     (case workspaces_get (nx_workspaces st) src of
        None \<Rightarrow> st
      | Some src_space \<Rightarrow>
          (case find_by_id wid (sp_elements A src_space) of
             None \<Rightarrow> st
           | Some window \<Rightarrow>
               (let loc = (case sp_location A src_space window of Some l \<Rightarrow> l | None \<Rightarrow> (0, 0));
                    ws1 = workspaces_get_mut (nx_workspaces st) src (\<lambda>s. sp_unmap A s window);
                    ws2 = workspaces_get_mut ws1 target (\<lambda>s. sp_map A s window loc True)
                in st\<lparr>nx_workspaces := ws2\<rparr>)))"

text \<open>\<open>close_focused_window\<close> compares with \<open>unwrap_or(0)\<close>.\<close>

definition close_focused_window ::
  "('s, 'x) space_api_scheme \<Rightarrow> ('s, 'l) nullxes_state \<Rightarrow> ('s, 'l) nullxes_state" where
  "close_focused_window A st =
     (case focused (nx_mgr st) of
        None \<Rightarrow> st
      | Some focused_id \<Rightarrow>
          (case workspaces_get (nx_workspaces st) (mgr_active (nx_mgr st)) of
             None \<Rightarrow> st
           | Some space \<Rightarrow>
               (case find (\<lambda>w. window_id w = focused_id) (sp_elements A space) of
                  None \<Rightarrow> st
                | Some w \<Rightarrow> if win_toplevel w then nx_log (SendClose w) st else st)))"

definition spawn_detached :: "rstring \<Rightarrow> ('s, 'l) nullxes_state \<Rightarrow> ('s, 'l) nullxes_state" where
  "spawn_detached bin st = nx_log (SpawnDetached bin) st"

text \<open>The result says whether the key is forwarded to the client.\<close>

definition handle_keybind ::
  "('s, 'x) space_api_scheme \<Rightarrow> bool \<Rightarrow> bool \<Rightarrow> u32 \<Rightarrow> ('s, 'l) nullxes_state \<Rightarrow>
   (('s, 'l) nullxes_state \<times> bool) option" where
  "handle_keybind A logo shift k st =
     (let m = nx_mgr st; wrap = wc_wrap (fc_workspace (nx_config st)) in
      if \<not> logo then Some (st, True)
      else if KEY_1 \<le> k \<and> k \<le> KEY_9 then
        (let idx = unat (k - KEY_1) in
         if shift
         then (case plan_move_focused m idx of
                 None \<Rightarrow> None
               | Some (m', None) \<Rightarrow> Some (st\<lparr>nx_mgr := m'\<rparr>, False)
               | Some (m', Some (src, target, wid)) \<Rightarrow>
                   Some (move_window_between_workspaces A src target wid (st\<lparr>nx_mgr := m'\<rparr>), False))
         else Some (st\<lparr>nx_mgr := snd (switch_to m idx)\<rparr>, False))
      else if k = KEY_Right then Some (st\<lparr>nx_mgr := snd (switch_next m wrap)\<rparr>, False)
      else if k = KEY_Left then Some (st\<lparr>nx_mgr := snd (switch_prev m wrap)\<rparr>, False)
      else if k = KEY_q \<or> k = KEY_Q then Some (close_focused_window A st, False)
      else if k = KEY_l \<or> k = KEY_L
        then Some (spawn_detached (kc_lock_binary (fc_keybindings (nx_config st))) st, False)
      else if k = KEY_Return \<or> k = KEY_KP_Enter
        then Some (spawn_detached (lit ''nullxes-slate'') st, False)
      else if k = KEY_Super_L \<or> k = KEY_Super_R
        then Some (spawn_detached (kc_launcher_binary (fc_keybindings (nx_config st))) st, False)
      else Some (st, True))"

section \<open>The pointer\<close>

text \<open>\<open>MoveSurfaceGrab::motion\<close>: the pointer loses its focus, the window follows.\<close>

definition move_grab_motion ::
  "('s, 'x) space_api_scheme \<Rightarrow> pointer_st \<Rightarrow> move_grab \<Rightarrow> fpoint \<Rightarrow> ('s, 'l) nullxes_state \<Rightarrow>
   ('s, 'l) nullxes_state option" where
  "move_grab_motion A ptr g loc st =
     (let st1 = st\<lparr>nx_ptr := Some (ptr\<lparr>ptr_location := loc, ptr_focus := None\<rparr>)\<rparr>;
          dx = fl 53 (fst loc - fst (grab_start_location g));
          dy = fl 53 (snd loc - snd (grab_start_location g));
          new_loc = (i32_wrap (fst (grab_initial_location g) + sat_i32 (round_away dx)),
                     i32_wrap (snd (grab_initial_location g) + sat_i32 (round_away dy)))
      in active_space_mut st1 (\<lambda>space. sp_map A space (grab_window g) new_loc True))"

definition pointer_motion ::
  "('s, 'x) space_api_scheme \<Rightarrow> pointer_st \<Rightarrow> (surface_h \<times> point) option \<Rightarrow> fpoint \<Rightarrow>
   ('s, 'l) nullxes_state \<Rightarrow> ('s, 'l) nullxes_state option" where
  "pointer_motion A ptr pf loc st =
     (let ptr' = ptr\<lparr>ptr_pending := pf\<rparr> in
      case ptr_grab ptr of
        Some g \<Rightarrow> move_grab_motion A ptr' g loc st
      | None \<Rightarrow> Some (st\<lparr>nx_ptr := Some (ptr'\<lparr>ptr_location := loc, ptr_focus := pf\<rparr>)\<rparr>))"

text \<open>
  The button event through the active grab; \<open>MoveSurfaceGrab::button\<close> ends the grab when the
  button was released and is no longer among the pressed ones; the pointer then gets the focus
  of the last motion back.
\<close>

definition pointer_button ::
  "pointer_st \<Rightarrow> u32 \<Rightarrow> bool \<Rightarrow> bool \<Rightarrow> ('s, 'l) nullxes_state \<Rightarrow> ('s, 'l) nullxes_state" where
  "pointer_button ptr button pressed still_pressed st =
     (let st1 = nx_log (PointerButtonSent (ptr_focus ptr) button pressed) st in
      if ptr_grab ptr \<noteq> None \<and> \<not> pressed \<and> \<not> still_pressed
      then st1\<lparr>nx_ptr := Some (ptr\<lparr>ptr_grab := None, ptr_focus := ptr_pending ptr\<rparr>)\<rparr> else st1)"

definition layer_under_point ::
  "('s, 'l, 'x) smithay_api_scheme \<Rightarrow> ('s, 'l) nullxes_state \<Rightarrow> fpoint \<Rightarrow> (surface_h \<times> point) option" where
  "layer_under_point A st loc =
     (case nx_primary st of
        None \<Rightarrow> None
      | Some out \<Rightarrow>
          (let m = nx_layer_maps st (out_key out) in
           case (case lm_under A m Overlay loc of Some l \<Rightarrow> Some l | None \<Rightarrow> lm_under A m Top loc) of
             None \<Rightarrow> None
           | Some layer \<Rightarrow>
               (let layer_loc = (case lm_geometry A m layer of Some g \<Rightarrow> rect_loc g | None \<Rightarrow> (0, 0));
                    p = (fl 53 (fst loc - of_int (fst layer_loc)), fl 53 (snd loc - of_int (snd layer_loc)))
                in case layer_surface_under A layer p of
                     None \<Rightarrow> None
                   | Some (s, sp) \<Rightarrow>
                       Some (s, (i32_wrap (fst sp + fst layer_loc), i32_wrap (snd sp + snd layer_loc))))))"

text \<open>The outer option is the panic of \<open>active_space\<close>.\<close>

definition surface_under ::
  "('s, 'l, 'x) smithay_api_scheme \<Rightarrow> ('s, 'l) nullxes_state \<Rightarrow> fpoint \<Rightarrow>
   (surface_h \<times> point) option option" where
  "surface_under A st loc =
     (case layer_under_point A st loc of
        Some r \<Rightarrow> Some (Some r)
      | None \<Rightarrow>
          (case active_space st of
             None \<Rightarrow> None
           | Some space \<Rightarrow>
               Some (case sp_under A space loc of
                       None \<Rightarrow> None
                     | Some window \<Rightarrow>
                         (case sp_point_under A space loc of (px, py) \<Rightarrow>
                            window_surface_under A window (of_int px, of_int py)))))"

text \<open>\<open>f64::clamp\<close> panics when the bounds are the wrong way round.\<close>

definition f64_clamp :: "rat \<Rightarrow> rat \<Rightarrow> rat \<Rightarrow> rat option" where
  "f64_clamp x lo hi = (if lo \<le> hi then Some (max lo (min hi x)) else None)"

definition clamp_pointer ::
  "('s, 'x) space_api_scheme \<Rightarrow> ('s, 'l) nullxes_state \<Rightarrow> fpoint \<Rightarrow> fpoint option" where
  "clamp_pointer A st loc =
     (case active_space st of
        None \<Rightarrow> None
      | Some space \<Rightarrow>
          (case Option.bind (nx_primary st) (sp_output_geometry A space) of
             None \<Rightarrow> Some loc
           | Some geo \<Rightarrow>
               (case rect_loc geo of (gx, gy) \<Rightarrow> case rect_size geo of (gw, gh) \<Rightarrow>
                  Option.bind (f64_clamp (fst loc) (of_int gx) (of_int (i32_wrap (gx + gw))))
                    (\<lambda>x. Option.bind (f64_clamp (snd loc) (of_int gy) (of_int (i32_wrap (gy + gh))))
                      (\<lambda>y. Some (x, y))))))"

definition handle_pointer_motion ::
  "('s, 'l, 'x) smithay_api_scheme \<Rightarrow> fpoint \<Rightarrow> ('s, 'l) nullxes_state \<Rightarrow> ('s, 'l) nullxes_state option" where
  "handle_pointer_motion A delta st =
     (case nx_ptr st of
        None \<Rightarrow> Some st
      | Some ptr \<Rightarrow>
          Option.bind (clamp_pointer A st (fl 53 (fst (ptr_location ptr) + fst delta),
                                           fl 53 (snd (ptr_location ptr) + snd delta)))
            (\<lambda>loc. Option.bind (surface_under A st loc)
              (\<lambda>pf. pointer_motion A ptr pf loc st)))"

text \<open>\<open>fx\<close> and \<open>fy\<close> are \<open>x_transformed\<close> and \<open>y_transformed\<close> of the event.\<close>

definition handle_pointer_motion_absolute ::
  "('s, 'l, 'x) smithay_api_scheme \<Rightarrow> (i32 \<Rightarrow> rat) \<Rightarrow> (i32 \<Rightarrow> rat) \<Rightarrow> ('s, 'l) nullxes_state \<Rightarrow>
   ('s, 'l) nullxes_state option" where
  "handle_pointer_motion_absolute A fx fy st =
     (case (case nx_primary st of
              None \<Rightarrow> Some default_geometry
            | Some out \<Rightarrow>
                (case active_space st of
                   None \<Rightarrow> None
                 | Some space \<Rightarrow>
                     Some (case sp_output_geometry A space out of Some g \<Rightarrow> g | None \<Rightarrow> default_geometry))) of
        None \<Rightarrow> None
      | Some geo \<Rightarrow>
          (let loc = (fl 53 (fx (fst (rect_size geo)) + of_int (fst (rect_loc geo))),
                      fl 53 (fy (snd (rect_size geo)) + of_int (snd (rect_loc geo))))
           in case surface_under A st loc of
                None \<Rightarrow> None
              | Some pf \<Rightarrow>
                  (case nx_ptr st of
                     None \<Rightarrow> Some st
                   | Some ptr \<Rightarrow> pointer_motion A ptr pf loc st)))"

definition handle_pointer_button ::
  "('s, 'x) space_api_scheme \<Rightarrow> u32 \<Rightarrow> bool \<Rightarrow> bool \<Rightarrow> ('s, 'l) nullxes_state \<Rightarrow>
   ('s, 'l) nullxes_state option" where
  "handle_pointer_button A button pressed still_pressed st =
     (case nx_ptr st of
        None \<Rightarrow> Some st
      | Some ptr \<Rightarrow>
          (if pressed
           then (let ws = nx_workspaces st; i = min (mgr_active (nx_mgr st)) (length ws - 1) in
                 if i < length ws
                 then (case sp_under A (ws ! i) (ptr_location ptr) of
                         Some window \<Rightarrow>
                           map_option (kbd_set_focus (win_surface window))
                             (active_space_mut st (\<lambda>space. sp_raise A space window True))
                       | None \<Rightarrow> Some (kbd_set_focus None st))
                 else None)
           else Some st) \<bind>
          (\<lambda>st1. Some (pointer_button ptr button pressed still_pressed st1)))"

text \<open>
  The amounts of an axis event: the vertical and horizontal value and the vertical \<open>v120\<close>
  value (already truncated by \<open>as i32\<close>), each optional; \<open>finger\<close> is the finger source.
\<close>

definition handle_pointer_axis ::
  "bool \<Rightarrow> rat option \<Rightarrow> i32 option \<Rightarrow> rat option \<Rightarrow> ('s, 'l) nullxes_state \<Rightarrow> ('s, 'l) nullxes_state" where
  "handle_pointer_axis finger v v120 h st =
     (case nx_ptr st of
        None \<Rightarrow> st
      | Some ptr \<Rightarrow>
          nx_log (PointerAxisSent (ptr_focus ptr)
            \<lparr>af_vertical = v, af_vertical_v120 = v120, af_horizontal = h,
             af_stop_vertical = (finger \<and> v = Some 0),
             af_stop_horizontal = (finger \<and> h = Some 0)\<rparr>) st)"

section \<open>Dispatch\<close>

datatype input_event =
    Keyboard bool bool u32 bool
  | PointerMotion fpoint
  | PointerMotionAbsolute "i32 \<Rightarrow> rat" "i32 \<Rightarrow> rat"
  | PointerButton u32 bool bool
  | PointerAxis bool "rat option" "i32 option" "rat option"
  | OtherInput

text \<open>
  \<open>handle_keyboard\<close>. The key state (pressed or released) is handed to the seat, which tracks it;
  the filter does not look at it. A key that is not intercepted goes to the keyboard focus.
\<close>

definition handle_keyboard ::
  "('s, 'x) space_api_scheme \<Rightarrow> bool \<Rightarrow> bool \<Rightarrow> bool \<Rightarrow> u32 \<Rightarrow> bool \<Rightarrow> ('s, 'l) nullxes_state \<Rightarrow>
   ('s, 'l) nullxes_state option" where
  "handle_keyboard A locked logo shift k key_pressed st =
     (let forward = (\<lambda>st. case nx_kbd st of
                       None \<Rightarrow> st | Some f \<Rightarrow> nx_log (KeyForwarded f k) st) in
      case nx_kbd st of
        None \<Rightarrow> Some st
      | Some _ \<Rightarrow>
          if locked \<or> nx_shutdown_reason st \<noteq> None \<or> nx_lock st \<noteq> None then Some (forward st)
          else (case handle_keybind A logo shift k st of
                  None \<Rightarrow> None
                | Some (st', fwd) \<Rightarrow> Some (if fwd then forward st' else st')))"

definition process_input_event ::
  "('s, 'l, 'x) smithay_api_scheme \<Rightarrow> input_event \<Rightarrow> ('s, 'l) nullxes_state \<Rightarrow>
   ('s, 'l) nullxes_state option" where
  "process_input_event A ev st =
     (let locked = (nx_lock st \<noteq> None) in
      case ev of
        Keyboard logo shift k pressed \<Rightarrow> handle_keyboard A locked logo shift k pressed st
      | PointerMotion delta \<Rightarrow> if \<not> locked then handle_pointer_motion A delta st else Some st
      | PointerMotionAbsolute fx fy \<Rightarrow>
          if \<not> locked then handle_pointer_motion_absolute A fx fy st else Some st
      | PointerButton b pressed still \<Rightarrow>
          if \<not> locked then handle_pointer_button A b pressed still st else Some st
      | PointerAxis finger v v120 h \<Rightarrow>
          if \<not> locked then Some (handle_pointer_axis finger v v120 h st) else Some st
      | OtherInput \<Rightarrow> Some st)"

end
