(* ===== verification/Ipc_Wire.thy ===== *)
theory Ipc_Wire
  imports Prelude
begin

text \<open>
  \<open>crates/ipc\<close>: the messages of the Control IPC (\<open>envelope.rs\<close>, \<open>request.rs\<close>, \<open>response.rs\<close>)
  with the JSON form their serde attributes define, the socket paths (\<open>path.rs\<close>) and the client
  (\<open>client.rs\<close>). The text form of JSON is \<open>serde_json\<close>'s; the model starts at the parsed value.
  \<open>usize\<close> fields are 64-bit words. Serde also reads a struct from an array of its fields; the
  model reads objects only.
\<close>

section \<open>JSON values\<close>

datatype json =
    JNull
  | JBool bool
  | JNum int
  | JStr rstring
  | JArr "json list"
  | JObj "(rstring \<times> json) list"

fun json_uint :: "nat \<Rightarrow> json \<Rightarrow> int option" where
  "json_uint w (JNum n) = (if 0 \<le> n \<and> n < 2 ^ w then Some n else None)"
| "json_uint w _ = None"

definition json_u8 :: "json \<Rightarrow> u8 option" where
  "json_u8 j = map_option word_of_int (json_uint 8 j)"

definition json_u64 :: "json \<Rightarrow> u64 option" where
  "json_u64 j = map_option word_of_int (json_uint 64 j)"

fun json_bool :: "json \<Rightarrow> bool option" where
  "json_bool (JBool b) = Some b"
| "json_bool _ = None"

fun json_str :: "json \<Rightarrow> rstring option" where
  "json_str (JStr s) = Some s"
| "json_str _ = None"

fun json_obj :: "json \<Rightarrow> (rstring \<times> json) list option" where
  "json_obj (JObj m) = Some m"
| "json_obj _ = None"

fun all_some :: "'a option list \<Rightarrow> 'a list option" where
  "all_some [] = Some []"
| "all_some (x # xs) = (case x of None \<Rightarrow> None | Some y \<Rightarrow> map_option ((#) y) (all_some xs))"

fun json_list :: "(json \<Rightarrow> 'a option) \<Rightarrow> json \<Rightarrow> 'a list option" where
  "json_list f (JArr js) = all_some (map f js)"
| "json_list f _ = None"

definition jfield :: "string \<Rightarrow> (rstring \<times> json) list \<Rightarrow> json option" where
  "jfield k m = map_of m (lit k)"

definition of_word :: "'a :: len word \<Rightarrow> json" where
  "of_word w = JNum (uint w)"

lemma json_u8_of_word [simp]: "json_u8 (of_word w) = Some w"
  using uint_bounded [of w] by (simp add: json_u8_def of_word_def)

lemma json_u64_of_word [simp]: "json_u64 (of_word w) = Some w"
  using uint_bounded [of w] by (simp add: json_u64_def of_word_def)

lemma all_some_map_Some [simp]: "(\<And>x. f (g x) = Some x) \<Longrightarrow> all_some (map (f \<circ> g) xs) = Some xs"
  by (induction xs) auto

lemma jfield_Nil [simp]: "jfield k [] = None"
  by (simp add: jfield_def)

lemma jfield_Cons [simp]: "jfield k ((lit k', v) # m) = (if k = k' then Some v else jfield k m)"
  by (simp add: jfield_def)

text \<open>
  A derived deserializer refuses an object that has one of its own fields twice; a field it does not know
  may be repeated.
\<close>

definition jonce :: "string list \<Rightarrow> (rstring \<times> json) list \<Rightarrow> unit option" where
  "jonce ks m = (if \<forall>k \<in> set ks. length (filter (\<lambda>(k', _). k' = lit k) m) \<le> 1 then Some () else None)"

text \<open>\<open>jobj ks j\<close>: the fields of the object \<open>j\<close>, none of \<open>ks\<close> twice.\<close>

definition jobj :: "string list \<Rightarrow> json \<Rightarrow> (rstring \<times> json) list option" where
  "jobj ks j = do { m \<leftarrow> json_obj j; _ \<leftarrow> jonce ks m; Some m }"

lemma jonce_distinct [simp]:
  assumes "distinct (map fst m)"
  shows "jonce ks m = Some ()"
proof -
  have "length (filter (\<lambda>(k', _). k' = k) m) \<le> 1" for k
    using assms by (induction m) (force simp: filter_empty_conv)+
  then show ?thesis by (simp add: jonce_def)
qed

lemma jobj_distinct [simp]: "distinct (map fst m) \<Longrightarrow> jobj ks (JObj m) = Some m"
  by (simp add: jobj_def)

section \<open>Messages\<close>

datatype request =
    SwitchWorkspace u64
  | MoveFocused u64
  | ReloadConfig
  | GetState
  | SpawnLauncher
  | SessionLock
  | Quit

record state_snapshot =
  snap_workspace_count :: u64
  snap_active_workspace :: u64
  snap_occupied :: "u64 list"
  snap_xwayland_ready :: bool

datatype ipc_error =
    VersionMismatch "u8 list"
  | Busy
  | InvalidRequest rstring
  | UnknownKind
  | Internal rstring
  | NotImplemented

datatype response_data = StateData state_snapshot

datatype response = RespOk "response_data option" | RespErr ipc_error

definition response_ok :: response where "response_ok = RespOk None"
definition response_ok_with :: "response_data \<Rightarrow> response" where "response_ok_with d = RespOk (Some d)"
definition response_err :: "ipc_error \<Rightarrow> response" where "response_err e = RespErr e"

datatype direction = DirRequest request | DirResponse response

record envelope =
  env_v :: u8
  env_id :: u64
  env_direction :: direction

definition PROTOCOL_VERSION :: u8 where "PROTOCOL_VERSION = 1"

definition envelope_request :: "u64 \<Rightarrow> request \<Rightarrow> envelope" where
  "envelope_request i r = \<lparr>env_v = PROTOCOL_VERSION, env_id = i, env_direction = DirRequest r\<rparr>"

definition envelope_response :: "u64 \<Rightarrow> response \<Rightarrow> envelope" where
  "envelope_response i r = \<lparr>env_v = PROTOCOL_VERSION, env_id = i, env_direction = DirResponse r\<rparr>"

section \<open>Encoding\<close>

definition tagged :: "string \<Rightarrow> (rstring \<times> json) list" where
  "tagged k = [(lit ''kind'', JStr (lit k))]"

fun request_to_json :: "request \<Rightarrow> (rstring \<times> json) list" where
  "request_to_json (SwitchWorkspace i) =
     tagged ''Switch.Workspace'' @ [(lit ''payload'', JObj [(lit ''idx'', of_word i)])]"
| "request_to_json (MoveFocused t) =
     tagged ''Move.Focused'' @ [(lit ''payload'', JObj [(lit ''target'', of_word t)])]"
| "request_to_json ReloadConfig = tagged ''Reload.Config''"
| "request_to_json GetState = tagged ''Get.State''"
| "request_to_json SpawnLauncher = tagged ''Spawn.Launcher''"
| "request_to_json SessionLock = tagged ''Session.Lock''"
| "request_to_json Quit = tagged ''Compositor.Quit''"

definition snapshot_to_json :: "state_snapshot \<Rightarrow> json" where
  "snapshot_to_json s = JObj [(lit ''workspace_count'', of_word (snap_workspace_count s)),
     (lit ''active_workspace'', of_word (snap_active_workspace s)),
     (lit ''occupied'', JArr (map of_word (snap_occupied s))),
     (lit ''xwayland_ready'', JBool (snap_xwayland_ready s))]"

fun response_data_to_json :: "response_data \<Rightarrow> json" where
  "response_data_to_json (StateData s) =
     JObj [(lit ''kind'', JStr (lit ''State'')), (lit ''value'', snapshot_to_json s)]"

fun error_to_json :: "ipc_error \<Rightarrow> json" where
  "error_to_json (VersionMismatch vs) = JObj [(lit ''code'', JStr (lit ''version_mismatch'')),
     (lit ''message'', JObj [(lit ''supported'', JArr (map of_word vs))])]"
| "error_to_json Busy = JObj [(lit ''code'', JStr (lit ''busy''))]"
| "error_to_json (InvalidRequest s) =
     JObj [(lit ''code'', JStr (lit ''invalid_request'')), (lit ''message'', JStr s)]"
| "error_to_json UnknownKind = JObj [(lit ''code'', JStr (lit ''unknown_kind''))]"
| "error_to_json (Internal s) =
     JObj [(lit ''code'', JStr (lit ''internal'')), (lit ''message'', JStr s)]"
| "error_to_json NotImplemented = JObj [(lit ''code'', JStr (lit ''not_implemented''))]"

fun response_to_json :: "response \<Rightarrow> (rstring \<times> json) list" where
  "response_to_json (RespOk d) = [(lit ''result'', JStr (lit ''ok'')),
     (lit ''data'', case d of None \<Rightarrow> JNull | Some x \<Rightarrow> response_data_to_json x)]"
| "response_to_json (RespErr e) =
     [(lit ''result'', JStr (lit ''err'')), (lit ''error'', error_to_json e)]"

text \<open>The direction is flattened into the envelope's own fields.\<close>

definition envelope_to_json :: "envelope \<Rightarrow> json" where
  "envelope_to_json e = JObj ([(lit ''v'', of_word (env_v e)), (lit ''id'', of_word (env_id e))] @
     (case env_direction e of DirRequest r \<Rightarrow> request_to_json r | DirResponse r \<Rightarrow> response_to_json r))"

section \<open>Decoding\<close>

definition payload_word :: "string \<Rightarrow> (rstring \<times> json) list \<Rightarrow> u64 option" where
  "payload_word k m = Option.bind (Option.bind (jfield ''payload'' m) (jobj [k]))
     (\<lambda>p. Option.bind (jfield k p) json_u64)"

definition request_from_json :: "(rstring \<times> json) list \<Rightarrow> request option" where
  "request_from_json m =
     (case do { _ \<leftarrow> jonce [''kind'', ''payload''] m; Option.bind (jfield ''kind'' m) json_str } of
        None \<Rightarrow> None
      | Some k \<Rightarrow>
          if k = lit ''Switch.Workspace'' then map_option SwitchWorkspace (payload_word ''idx'' m)
          else if k = lit ''Move.Focused'' then map_option MoveFocused (payload_word ''target'' m)
          else if jfield ''payload'' m \<notin> {None, Some JNull} then None
          else if k = lit ''Reload.Config'' then Some ReloadConfig
          else if k = lit ''Get.State'' then Some GetState
          else if k = lit ''Spawn.Launcher'' then Some SpawnLauncher
          else if k = lit ''Session.Lock'' then Some SessionLock
          else if k = lit ''Compositor.Quit'' then Some Quit
          else None)"

definition snapshot_from_json :: "json \<Rightarrow> state_snapshot option" where
  "snapshot_from_json j =
     do { m \<leftarrow> jobj [''workspace_count'', ''active_workspace'', ''occupied'', ''xwayland_ready''] j;
          c \<leftarrow> Option.bind (jfield ''workspace_count'' m) json_u64;
          a \<leftarrow> Option.bind (jfield ''active_workspace'' m) json_u64;
          oc \<leftarrow> Option.bind (jfield ''occupied'' m) (json_list json_u64);
          x \<leftarrow> Option.bind (jfield ''xwayland_ready'' m) json_bool;
          Some \<lparr>snap_workspace_count = c, snap_active_workspace = a, snap_occupied = oc,
                snap_xwayland_ready = x\<rparr> }"

definition response_data_from_json :: "json \<Rightarrow> response_data option" where
  "response_data_from_json j =
     do { m \<leftarrow> jobj [''kind'', ''value''] j;
          k \<leftarrow> Option.bind (jfield ''kind'' m) json_str;
          if k = lit ''State''
          then map_option StateData (Option.bind (jfield ''value'' m) snapshot_from_json)
          else None }"

definition error_from_json :: "json \<Rightarrow> ipc_error option" where
  "error_from_json j =
     do { m \<leftarrow> jobj [''code'', ''message''] j;
          c \<leftarrow> Option.bind (jfield ''code'' m) json_str;
          let msg = jfield ''message'' m in
          if c = lit ''version_mismatch''
          then map_option VersionMismatch (Option.bind (Option.bind msg (jobj [''supported'']))
                 (\<lambda>p. Option.bind (jfield ''supported'' p) (json_list json_u8)))
          else if c = lit ''invalid_request'' then map_option InvalidRequest (Option.bind msg json_str)
          else if c = lit ''internal'' then map_option Internal (Option.bind msg json_str)
          else if msg \<notin> {None, Some JNull} then None
          else if c = lit ''busy'' then Some Busy
          else if c = lit ''unknown_kind'' then Some UnknownKind
          else if c = lit ''not_implemented'' then Some NotImplemented
          else None }"

text \<open>An absent or null \<open>data\<close> is \<open>None\<close>.\<close>

definition response_from_json :: "(rstring \<times> json) list \<Rightarrow> response option" where
  "response_from_json m =
     (case do { _ \<leftarrow> jonce [''result''] m; Option.bind (jfield ''result'' m) json_str } of
        None \<Rightarrow> None
      | Some r \<Rightarrow>
          if r = lit ''ok''
          then Option.bind (jonce [''data''] m) (\<lambda>_. case jfield ''data'' m of
                  None \<Rightarrow> Some (RespOk None)
                | Some JNull \<Rightarrow> Some (RespOk None)
                | Some d \<Rightarrow> map_option (\<lambda>x. RespOk (Some x)) (response_data_from_json d))
          else if r = lit ''err''
          then Option.bind (jonce [''error''] m)
            (\<lambda>_. map_option RespErr (Option.bind (jfield ''error'' m) error_from_json))
          else None)"

text \<open>\<open>#[serde(untagged)]\<close>: the first variant that decodes.\<close>

definition direction_from_json :: "(rstring \<times> json) list \<Rightarrow> direction option" where
  "direction_from_json m =
     (case request_from_json m of
        Some r \<Rightarrow> Some (DirRequest r)
      | None \<Rightarrow> map_option DirResponse (response_from_json m))"

definition envelope_from_json :: "json \<Rightarrow> envelope option" where
  "envelope_from_json j =
     do { m \<leftarrow> jobj [''v'', ''id''] j;
          v \<leftarrow> Option.bind (jfield ''v'' m) json_u8;
          i \<leftarrow> Option.bind (jfield ''id'' m) json_u64;
          d \<leftarrow> direction_from_json
                (filter (\<lambda>(k, _). k \<noteq> lit ''v'' \<and> k \<noteq> lit ''id'') m);
          Some \<lparr>env_v = v, env_id = i, env_direction = d\<rparr> }"

section \<open>Round trips\<close>

lemma request_roundtrip: "request_from_json (request_to_json r) = Some r"
  by (cases r) (simp_all add: request_from_json_def tagged_def payload_word_def)

lemma snapshot_roundtrip [simp]: "snapshot_from_json (snapshot_to_json s) = Some s"
  by (simp add: snapshot_from_json_def snapshot_to_json_def)

lemma response_data_roundtrip [simp]: "response_data_from_json (response_data_to_json d) = Some d"
  by (cases d) (simp add: response_data_from_json_def)

lemma error_roundtrip [simp]: "error_from_json (error_to_json e) = Some e"
  by (cases e) (simp_all add: error_from_json_def Let_def)

lemma response_roundtrip: "response_from_json (response_to_json r) = Some r"
proof (cases r)
  case (RespOk d)
  show ?thesis
  proof (cases d)
    case (Some x)
    obtain m where "response_data_to_json x = JObj m" by (cases x) simp
    with RespOk Some show ?thesis
      using response_data_roundtrip [of x] by (simp add: response_from_json_def)
  qed (simp add: RespOk response_from_json_def)
qed (simp add: response_from_json_def)

lemma response_not_request: "request_from_json (response_to_json r) = None"
  by (cases r) (simp_all add: request_from_json_def)

lemma message_fields:
  "filter (\<lambda>(k, _). k \<noteq> lit ''v'' \<and> k \<noteq> lit ''id'') (request_to_json q) = request_to_json q"
  "filter (\<lambda>(k, _). k \<noteq> lit ''v'' \<and> k \<noteq> lit ''id'') (response_to_json r) = response_to_json r"
  by (cases q; simp add: tagged_def) (cases r; simp)

section \<open>Paths\<close>

text \<open>\<open>rt\<close> is \<open>XDG_RUNTIME_DIR\<close>, \<open>uid\<close> the decimal user id.\<close>

definition runtime_path :: "string \<Rightarrow> rstring option \<Rightarrow> rstring \<Rightarrow> rstring" where
  "runtime_path name rt uid =
     (case rt of
        Some d \<Rightarrow> path_join (path_join d (lit ''nullxes'')) (lit name)
      | None \<Rightarrow> path_join (lit ''/tmp/nullxes-'' @ uid) (lit name))"

definition socket_path :: "rstring option \<Rightarrow> rstring \<Rightarrow> rstring" where
  "socket_path = runtime_path ''frame.sock''"

definition wayland_display_path :: "rstring option \<Rightarrow> rstring \<Rightarrow> rstring" where
  "wayland_display_path = runtime_path ''wayland-display''"

definition launcher_lock_path :: "rstring option \<Rightarrow> rstring \<Rightarrow> rstring" where
  "launcher_lock_path = runtime_path ''launcher.lock''"

section \<open>The client\<close>

definition RECONNECT_INITIAL_MS :: nat where "RECONNECT_INITIAL_MS = 100"
definition RECONNECT_CAP_MS :: nat where "RECONNECT_CAP_MS = 5000"
definition RECONNECT_MAX_TRIES :: nat where "RECONNECT_MAX_TRIES = 32"

text \<open>
  \<open>Client::connect\<close>: \<open>up n\<close> says whether attempt \<open>n\<close> reaches the server. The result is the
  attempt that did, if any, and the sleeps in milliseconds.
\<close>

fun connect_loop :: "(nat \<Rightarrow> bool) \<Rightarrow> nat list \<Rightarrow> nat \<Rightarrow> nat option \<times> nat list" where
  "connect_loop up [] delay = (None, [])"
| "connect_loop up (n # ns) delay =
     (if up n then (Some n, [])
      else (let (r, ds) = connect_loop up ns (min (delay * 2) RECONNECT_CAP_MS)
            in (r, delay # ds)))"

definition client_connect :: "(nat \<Rightarrow> bool) \<Rightarrow> nat option \<times> nat list" where
  "client_connect up = connect_loop up [1..<RECONNECT_MAX_TRIES + 1] RECONNECT_INITIAL_MS"

datatype client_error = Hangup | Misframed | Decode

text \<open>
  \<open>Client::request\<close>: the envelope sent and the next id; then the reading of the reply, where
  \<^const>\<open>None\<close> is the end of the stream and \<open>Some None\<close> a line that is not a JSON value.
\<close>

definition client_send :: "u64 \<Rightarrow> request \<Rightarrow> envelope \<times> u64" where
  "client_send next_id r =
     (\<lparr>env_v = PROTOCOL_VERSION, env_id = next_id, env_direction = DirRequest r\<rparr>, next_id + 1)"

fun client_receive :: "json option option \<Rightarrow> client_error + response" where
  "client_receive None = Inl Hangup"
| "client_receive (Some None) = Inl Decode"
| "client_receive (Some (Some j)) =
     (case envelope_from_json j of
        None \<Rightarrow> Inl Decode
      | Some e \<Rightarrow> (case env_direction e of DirResponse r \<Rightarrow> Inr r | DirRequest _ \<Rightarrow> Inl Misframed))"

lemma connect_loop_delays:
  assumes "\<forall>n \<in> set ns. \<not> up n" and "d \<le> RECONNECT_CAP_MS"
  shows "connect_loop up ns d = (None, map (\<lambda>k. min (d * 2 ^ k) RECONNECT_CAP_MS) [0..<length ns])"
  using assms
proof (induction ns arbitrary: d)
  case (Cons n ns)
  have "min (min (d * 2) RECONNECT_CAP_MS * 2 ^ k) RECONNECT_CAP_MS =
      min (d * 2 ^ Suc k) RECONNECT_CAP_MS" for k
  proof (cases "d * 2 \<le> RECONNECT_CAP_MS")
    case False
    have "d * 2 * 1 \<le> d * 2 * 2 ^ k" and "RECONNECT_CAP_MS * 1 \<le> RECONNECT_CAP_MS * 2 ^ k"
      by (intro mult_left_mono; simp)+
    moreover have "d * 2 ^ Suc k = d * 2 * 2 ^ k" by simp
    ultimately have "RECONNECT_CAP_MS \<le> d * 2 ^ Suc k"
      and "RECONNECT_CAP_MS \<le> RECONNECT_CAP_MS * 2 ^ k" using False by linarith+
    with False show ?thesis by (simp only: min_absorb2 linear)
  qed (simp add: ac_simps)
  moreover have "[0..<Suc (length ns)] = 0 # map Suc [0..<length ns]"
    by (simp only: upt_conv_Cons map_Suc_upt zero_less_Suc)
  ultimately show ?case using Cons by (simp del: upt_Suc)
qed simp

lemma connect_loop_first:
  assumes "up n" and "\<forall>k \<in> set ns1. \<not> up k" and "d \<le> RECONNECT_CAP_MS"
  shows "connect_loop up (ns1 @ n # ns2) d =
    (Some n, map (\<lambda>k. min (d * 2 ^ k) RECONNECT_CAP_MS) [0..<length ns1])"
proof -
  have "connect_loop up (ns1 @ n # ns2) d = (Some n, snd (connect_loop up ns1 d))" for d
    using assms(1,2) by (induction ns1 arbitrary: d) (auto simp: Let_def split: prod.splits)
  then show ?thesis using connect_loop_delays [OF assms(2,3)] by simp
qed

section \<open>Properties\<close>

text \<open>
  Every message survives the wire. Decoding the JSON form of an envelope gives back the
  same version, id and request or response; in particular no response is read as a request by
  the untagged direction.
\<close>

lemma envelope_roundtrip: "envelope_from_json (envelope_to_json e) = Some e"
proof -
  let ?d = "case env_direction e of DirRequest r \<Rightarrow> request_to_json r
      | DirResponse r \<Rightarrow> response_to_json r"
  have "direction_from_json ?d = Some (env_direction e)"
    by (cases "env_direction e")
      (simp_all add: direction_from_json_def request_roundtrip response_not_request response_roundtrip)
  moreover have "filter (\<lambda>(k, _). k \<noteq> lit ''v'' \<and> k \<noteq> lit ''id'') ?d = ?d"
    by (cases "env_direction e") (simp_all add: message_fields)
  moreover from calculation(2) have "lit ''v'' \<notin> fst ` set ?d" "lit ''id'' \<notin> fst ` set ?d"
    unfolding filter_id_conv by force+
  then have "jobj [''v'', ''id''] (JObj ((lit ''v'', of_word (env_v e)) # (lit ''id'', of_word (env_id e)) # ?d)) =
      Some ((lit ''v'', of_word (env_v e)) # (lit ''id'', of_word (env_id e)) # ?d)"
    by (force simp: jobj_def jonce_def filter_empty_conv)
  ultimately show ?thesis
    by (simp add: envelope_from_json_def envelope_to_json_def)
qed

text \<open>
  C37: the reconnection policy. While the server is down the client sleeps 100, 200, 400 and so
  on milliseconds, capped at 5000, after each of 32 attempts and then gives up; as soon as an
  attempt succeeds it stops, having slept once per earlier attempt.
\<close>

theorem client_connect_backoff:
  "client_connect up =
    (case find up [1..<33] of
       None \<Rightarrow> (None, map (\<lambda>k. min (100 * 2 ^ k) 5000) [0..<32])
     | Some n \<Rightarrow> (Some n, map (\<lambda>k. min (100 * 2 ^ k) 5000) [0..<n - 1]))"
proof (cases "find up [1..<33]")
  case None
  then have "\<forall>n \<in> set [1..<33]. \<not> up n" by (simp add: find_None_iff)
  with None show ?thesis
    using connect_loop_delays [of "[1..<33]" up 100]
    by (simp add: client_connect_def RECONNECT_MAX_TRIES_def RECONNECT_INITIAL_MS_def
        RECONNECT_CAP_MS_def del: upt_rec_numeral)
next
  case (Some n)
  then obtain i where i: "i < 32" "up (1 + i)" "n = 1 + i" "\<forall>j < i. \<not> up (1 + j)"
    by (auto simp: find_Some_iff simp del: upt_rec_numeral)
  then have "[1..<33] = [1..<n] @ n # [Suc n..<33]"
    using upt_add_eq_append [of 1 n "33 - n"] upt_conv_Cons [of n 33] by (simp del: upt_rec_numeral)
  moreover have "\<forall>k \<in> set [1..<n]. \<not> up k"
  proof
    fix k assume "k \<in> set [1..<n]"
    then have "k - 1 < i" "k = 1 + (k - 1)" using i(3) by auto
    then show "\<not> up k" using i(4) by metis
  qed
  then have "connect_loop up ([1..<n] @ n # [Suc n..<33]) 100 =
      (Some n, map (\<lambda>k. min (100 * 2 ^ k) RECONNECT_CAP_MS) [0..<length [1..<n]])"
    using i by (intro connect_loop_first) (simp_all add: RECONNECT_CAP_MS_def)
  ultimately show ?thesis
    unfolding Some client_connect_def RECONNECT_MAX_TRIES_def RECONNECT_INITIAL_MS_def
    by (simp add: RECONNECT_CAP_MS_def del: upt_rec_numeral upt_Suc)
qed

end
