(* ===== verification/Ipc_Server.thy ===== *)
theory Ipc_Server
  imports Input Ipc_Wire
begin

text \<open>
  \<open>crates/frame/src/ipc_server.rs\<close>: what a control request does to the compositor, and the loop
  that reads one connection. A line is given as the JSON value it parses to (\<^const>\<open>None\<close> when
  it is not JSON); \<open>derr\<close> is serde's message for a line that does not decode. Connections are
  tasks that reach the state only through the channel to the main loop, so requests are handled
  one at a time.
\<close>

text \<open>\<open>reload\<close> is what \<open>FrameConfig::load()\<close> returns at the time of the request.\<close>

fun handle_request_on_main ::
  "('s, 'x) space_api_scheme \<Rightarrow> frame_config \<Rightarrow> request \<Rightarrow> ('s, 'l) nullxes_state \<Rightarrow>
   (('s, 'l) nullxes_state \<times> response) option" where
  "handle_request_on_main A reload (SwitchWorkspace idx) st =
     (case switch_to (nx_mgr st) (unat idx) of
        (True, m) \<Rightarrow> Some (st\<lparr>nx_mgr := m\<rparr>, response_ok)
      | (False, m) \<Rightarrow> Some (st\<lparr>nx_mgr := m\<rparr>, response_err (InvalidRequest
           (lit ''workspace '' @ dec (unat idx) @ lit '' out of range or inactive''))))"
| "handle_request_on_main A reload (MoveFocused target) st =
     (case plan_move_focused (nx_mgr st) (unat target) of
        None \<Rightarrow> None
      | Some (m, Some (src, tgt, wid)) \<Rightarrow>
          Some (move_window_between_workspaces A src tgt wid (st\<lparr>nx_mgr := m\<rparr>), response_ok)
      | Some (m, None) \<Rightarrow>
          Some (st\<lparr>nx_mgr := m\<rparr>,
            response_err (InvalidRequest (lit ''no focused window or invalid target''))))"
| "handle_request_on_main A reload ReloadConfig st = Some (st\<lparr>nx_config := reload\<rparr>, response_ok)"
| "handle_request_on_main A reload GetState st =
     Some (st, response_ok_with (StateData
       \<lparr>snap_workspace_count = of_nat (mgr_count (nx_mgr st)),
        snap_active_workspace = of_nat (mgr_active (nx_mgr st)),
        snap_occupied = map of_nat (workspaces_occupied A (nx_workspaces st)),
        snap_xwayland_ready = xwm_wm (nx_xwm st)\<rparr>))"
| "handle_request_on_main A reload SpawnLauncher st =
     Some (spawn_detached (kc_launcher_binary (fc_keybindings (nx_config st))) st, response_ok)"
| "handle_request_on_main A reload SessionLock st =
     Some (spawn_detached (kc_lock_binary (fc_keybindings (nx_config st))) st, response_ok)"
| "handle_request_on_main A reload Quit st = Some (st\<lparr>nx_stopped := True\<rparr>, response_ok)"

section \<open>One connection\<close>

text \<open>
  The channel to the main loop: it answers, it is gone when the request is sent, or it drops
  the reply.
\<close>

datatype main_loop = Serving | NotListening | DropsReply

definition ipc_dispatch where
  "ipc_dispatch A reload ml req st =
     (case ml of
        NotListening \<Rightarrow> Some (st, response_err (Internal (lit ''compositor not listening'')))
      | DropsReply \<Rightarrow> Some (st, response_err (Internal (lit ''compositor dropped reply channel'')))
      | Serving \<Rightarrow> handle_request_on_main A reload req st)"

definition ipc_respond ::
  "('s, 'x) space_api_scheme \<Rightarrow> frame_config \<Rightarrow> (json option \<Rightarrow> rstring) \<Rightarrow> main_loop \<Rightarrow> json option \<Rightarrow>
   ('s, 'l) nullxes_state \<Rightarrow> (('s, 'l) nullxes_state \<times> envelope) option" where
  "ipc_respond A reload derr ml line st =
     (let env = Option.bind line envelope_from_json;
          wire_id = (case env of Some e \<Rightarrow> env_id e | None \<Rightarrow> 0)
      in map_option (\<lambda>(st', resp). (st', envelope_response wire_id resp))
        (case env of
           None \<Rightarrow> Some (st, response_err (InvalidRequest (lit ''decode: '' @ derr line)))
         | Some e \<Rightarrow>
             if env_v e \<noteq> PROTOCOL_VERSION
             then Some (st, response_err (VersionMismatch [PROTOCOL_VERSION]))
             else (case env_direction e of
                     DirRequest req \<Rightarrow> ipc_dispatch A reload ml req st
                   | DirResponse _ \<Rightarrow>
                       Some (st, response_err (InvalidRequest (lit ''response on request socket''))))))"

datatype ipc_read = ReadLine "json option" | ReadError | ReadEof

text \<open>
  \<open>client_loop\<close>: the reads of the connection, each with the outcome of writing the reply. The
  result is the state and the envelopes written.
\<close>

fun client_loop ::
  "('s, 'x) space_api_scheme \<Rightarrow> frame_config \<Rightarrow> (json option \<Rightarrow> rstring) \<Rightarrow> main_loop \<Rightarrow>
   (ipc_read \<times> bool) list \<Rightarrow> ('s, 'l) nullxes_state \<Rightarrow>
   (('s, 'l) nullxes_state \<times> envelope list) option" where
  "client_loop A reload derr ml [] st = Some (st, [])"
| "client_loop A reload derr ml ((r, write_ok) # rs) st =
     (case r of
        ReadError \<Rightarrow> Some (st, [])
      | ReadEof \<Rightarrow> Some (st, [])
      | ReadLine line \<Rightarrow>
          (case ipc_respond A reload derr ml line st of
             None \<Rightarrow> None
           | Some (st1, out) \<Rightarrow>
               if \<not> write_ok then Some (st1, [])
               else map_option (\<lambda>(st2, outs). (st2, out # outs))
                      (client_loop A reload derr ml rs st1)))"

end
