(* ===== verification/Session.thy ===== *)
theory Session
  imports Ipc_Server
begin

text \<open>
  The compositor as a machine: the events that reach its handlers, the step each one makes, the
  states it can reach from boot, and what holds in all of them. Of a frame, \<open>FrameDone\<close> is the part that acts on
  this state, the frame callbacks; the whole frame with the panel, and the callbacks of the X11 window manager, are
  events of the loop in \<open>Frame_Loop\<close>, which contains this machine.
\<close>

section \<open>Events and steps\<close>

datatype frame_event =
    InputEv input_event
  | NewToplevel window_h
  | MoveRequest surface_h bool "(fpoint \<times> surface_h option) option"
  | ToplevelDestroyed surface_h
  | LockRequest
  | UnlockRequest
  | NewLockSurface surface_h "output_h option"
  | NewLayer layer_h "output_h option option"
  | LayerDestroyed surface_h
  | CommitSurface surface_h bool
  | SignalEv frame_signal
  | WindowResized point
  | CloseRequested
  | FrameDone
  | XwaylandEv xwayland_event
  | IpcRequest frame_config request
  | NewPopup surface_h bool
  | RepositionRequest surface_h rect u32
  | IgnoredRequest surface_h

fun frame_step ::
  "('s, 'l, 'x) smithay_api_scheme \<Rightarrow> ('s, 'l) nullxes_state \<Rightarrow> frame_event \<Rightarrow>
   ('s, 'l) nullxes_state option" where
  "frame_step A st (InputEv ev) = process_input_event A ev st"
| "frame_step A st (NewToplevel w) = new_toplevel A w st"
| "frame_step A st (MoveRequest wl has_grab start) = move_request A wl has_grab start st"
| "frame_step A st (ToplevelDestroyed wl) = Some (toplevel_destroyed A wl st)"
| "frame_step A st LockRequest = Some (session_lock st)"
| "frame_step A st UnlockRequest = session_unlock A st"
| "frame_step A st (NewLockSurface s out) = Some (new_lock_surface s out st)"
| "frame_step A st (NewLayer l out) = Some (new_layer_surface A l out st)"
| "frame_step A st (LayerDestroyed s) = Some (layer_destroyed A s st)"
| "frame_step A st (CommitSurface s sync) = Some (compositor_commit A s sync st)"
| "frame_step A st (SignalEv s) = Some (handle_signal s st)"
| "frame_step A st (WindowResized sz) = Some (winit_resized sz st)"
| "frame_step A st CloseRequested = Some (winit_close_requested st)"
| "frame_step A st FrameDone = send_frames_after_render A st"
| "frame_step A st (XwaylandEv e) = Some (st\<lparr>nx_xwm := fst (xwm_handle_event (nx_xwm st) e)\<rparr>)"
| "frame_step A st (IpcRequest reload req) =
     map_option fst (handle_request_on_main A reload req st)"
| "frame_step A st (NewPopup s tracked) = Some (new_popup s tracked st)"
| "frame_step A st (RepositionRequest s geo token) = Some (reposition_request s geo token st)"
| "frame_step A st (IgnoredRequest s) = Some (ignored_request s st)"

text \<open>The states reachable from boot.\<close>

inductive frame_reach ::
  "('s, 'l, 'x) smithay_api_scheme \<Rightarrow> ('s, 'l) nullxes_state \<Rightarrow> ('s, 'l) nullxes_state \<Rightarrow> bool"
  for A s0 where
  reach_boot: "frame_reach A s0 s0"
| reach_step: "frame_reach A s0 s \<Longrightarrow> frame_step A s e = Some s' \<Longrightarrow> frame_reach A s0 s'"

section \<open>The invariant\<close>

text \<open>
  One space and one focus slot per workspace, the active index in range, the respawn counter in
  range, and no keyboard focus while the session is locked.
\<close>

definition frame_ok :: "('s, 'l) nullxes_state \<Rightarrow> bool" where
  "frame_ok st \<longleftrightarrow> mgr_ok (nx_mgr st) \<and> length (nx_workspaces st) = mgr_count (nx_mgr st) \<and>
     xwm_ok (nx_xwm st) \<and> (nx_lock st \<noteq> None \<longrightarrow> nx_kbd st \<in> {None, Some None})"

lemma frame_okD:
  assumes "frame_ok st"
  shows "mgr_ok (nx_mgr st)" and "length (nx_workspaces st) = mgr_count (nx_mgr st)"
    and "xwm_ok (nx_xwm st)" and "mgr_active (nx_mgr st) < length (nx_workspaces st)"
    and "nx_lock st \<noteq> None \<Longrightarrow> nx_kbd st \<in> {None, Some None}"
  using assms by (simp_all add: frame_ok_def mgr_ok_def)

lemma nx_log_ok [simp]: "frame_ok (nx_log e st) = frame_ok st"
  by (simp add: frame_ok_def nx_log_def)

lemma frame_ok_other [simp]:
  "frame_ok (st\<lparr>nx_ptr := p\<rparr>) = frame_ok st"
  "frame_ok (st\<lparr>nx_config := c\<rparr>) = frame_ok st"
  "frame_ok (st\<lparr>nx_stopped := b\<rparr>) = frame_ok st"
  by (simp_all add: frame_ok_def)

lemma frame_ok_mgr [step_inv]:
  "frame_ok st \<Longrightarrow> mgr_ok m \<Longrightarrow> mgr_count m = mgr_count (nx_mgr st) \<Longrightarrow> frame_ok (st\<lparr>nx_mgr := m\<rparr>)"
  by (simp add: frame_ok_def)

lemma frame_ok_workspaces [step_inv]:
  "frame_ok st \<Longrightarrow> length ws = length (nx_workspaces st) \<Longrightarrow> frame_ok (st\<lparr>nx_workspaces := ws\<rparr>)"
  by (simp add: frame_ok_def)

lemma length_get_mut [simp]: "length (workspaces_get_mut ws i f) = length ws"
  by (simp add: workspaces_get_mut_def)

lemma length_fold_get_mut [simp]:
  "length (fold (\<lambda>i ws. workspaces_get_mut ws i f) is ws) = length ws"
  by (induction "is" arbitrary: ws) auto

lemma active_space_ok: "frame_ok st \<Longrightarrow> \<exists>s. active_space st = Some s"
  by (auto simp: active_space_def workspaces_active_def dest: frame_okD(4) split: list.splits)

lemma active_space_mut_ok:
  "frame_ok st \<Longrightarrow> \<exists>ws. active_space_mut st f = Some (st\<lparr>nx_workspaces := ws\<rparr>) \<and>
     length ws = length (nx_workspaces st)"
  using frame_okD(4) [of st]
  by (auto simp: active_space_mut_def workspaces_active_mut_def Let_def min_def)

lemma kbd_set_focus_ok:
  "frame_ok st \<Longrightarrow> nx_lock st = None \<or> f = None \<Longrightarrow> frame_ok (kbd_set_focus f st)"
  by (auto simp: frame_ok_def kbd_set_focus_def split: option.splits)

lemma move_window_ok [step_inv]:
  "frame_ok st \<Longrightarrow> frame_ok (move_window_between_workspaces A src target wid st)"
  by (auto simp: move_window_between_workspaces_def Let_def frame_ok_workspaces split: option.splits)

section \<open>No handler panics\<close>

lemma close_focused_fields [simp]:
  "frame_ok (close_focused_window A st) = frame_ok st"
  "nx_kbd (close_focused_window A st) = nx_kbd st"
  by (simp_all add: close_focused_window_def nx_log_def frame_ok_def split: option.splits)

lemma spawn_fields [simp]:
  "frame_ok (spawn_detached b st) = frame_ok st" "nx_kbd (spawn_detached b st) = nx_kbd st"
  by (simp_all add: spawn_detached_def nx_log_def frame_ok_def)

lemma move_window_kbd [simp]: "nx_kbd (move_window_between_workspaces A s t w st) = nx_kbd st"
  by (simp add: move_window_between_workspaces_def Let_def split: option.splits)

lemma switch_ok:
  assumes "frame_ok st"
  shows "frame_ok (st\<lparr>nx_mgr := snd (switch_to (nx_mgr st) i)\<rparr>)"
    and "frame_ok (st\<lparr>nx_mgr := snd (switch_next (nx_mgr st) wrap)\<rparr>)"
    and "frame_ok (st\<lparr>nx_mgr := snd (switch_prev (nx_mgr st) wrap)\<rparr>)"
  using assms frame_okD(1) [OF assms] by (simp_all add: step_inv)

lemma plan_and_move_ok:
  assumes "frame_ok st"
  obtains m' r where "plan_move_focused (nx_mgr st) i = Some (m', r)"
    and "frame_ok (st\<lparr>nx_mgr := m'\<rparr>)"
proof -
  obtain m' r where p: "plan_move_focused (nx_mgr st) i = Some (m', r)" and "mgr_ok m'"
    using plan_move_total [OF frame_okD(1) [OF assms]] by blast
  have "frame_ok (st\<lparr>nx_mgr := m'\<rparr>)"
    by (rule frame_ok_mgr [OF assms \<open>mgr_ok m'\<close> count_plan_move [OF p]])
  with p show ?thesis by (rule that)
qed

lemma handle_keybind_ok:
  assumes "frame_ok st"
  shows "\<exists>st' fwd. handle_keybind A logo shift k st = Some (st', fwd) \<and> frame_ok st' \<and>
    nx_kbd st' = nx_kbd st"
proof -
  obtain m' r where p: "plan_move_focused (nx_mgr st) (unat (k - KEY_1)) = Some (m', r)"
    and "frame_ok (st\<lparr>nx_mgr := m'\<rparr>)" using plan_and_move_ok [OF assms] by blast
  then have "case handle_keybind A logo shift k st of None \<Rightarrow> False
      | Some (st', fwd) \<Rightarrow> frame_ok st' \<and> nx_kbd st' = nx_kbd st"
    unfolding handle_keybind_def Let_def p
    using assms by (cases r) (simp_all add: switch_ok move_window_ok split: prod.splits)
  then show ?thesis by (auto split: option.splits)
qed

definition opt_ok :: "('s, 'l) nullxes_state option \<Rightarrow> bool" where
  "opt_ok r \<longleftrightarrow> (case r of None \<Rightarrow> False | Some st \<Rightarrow> frame_ok st)"

lemma opt_ok_simps [simp]: "opt_ok (Some st) = frame_ok st" "\<not> opt_ok None"
  by (simp_all add: opt_ok_def)

lemma opt_okD: "opt_ok r \<Longrightarrow> \<exists>st. r = Some st \<and> frame_ok st"
  by (cases r) auto

lemma opt_ok_active_mut: "frame_ok st \<Longrightarrow> opt_ok (active_space_mut st f)"
  using active_space_mut_ok [of st f] by (auto simp: frame_ok_workspaces)

lemma handle_keyboard_ok [step_inv]:
  "frame_ok st \<Longrightarrow> opt_ok (handle_keyboard A locked logo shift k pressed st)"
  using handle_keybind_ok [of st A logo shift k]
  by (auto simp: handle_keyboard_def Let_def split: option.splits)

lemma handle_pointer_axis_ok [step_inv]: "frame_ok st \<Longrightarrow> frame_ok (handle_pointer_axis a b c d st)"
  by (simp add: handle_pointer_axis_def split: option.splits)

lemma surface_under_ok: "frame_ok st \<Longrightarrow> \<exists>u. surface_under A st loc = Some u"
  using active_space_ok [of st] by (auto simp: surface_under_def split: option.splits)

lemma pointer_motion_ok: "frame_ok st \<Longrightarrow> opt_ok (pointer_motion A ptr u loc st)"
  by (simp add: pointer_motion_def Let_def move_grab_motion_def opt_ok_active_mut split: option.splits)

lemma pointer_button_ok: "frame_ok st \<Longrightarrow> frame_ok (pointer_button ptr b p sp st)"
  by (simp add: pointer_button_def Let_def)

lemma handle_pointer_motion_absolute_ok [step_inv]:
  assumes "frame_ok st"
  shows "opt_ok (handle_pointer_motion_absolute A fx fy st)"
proof -
  obtain s where s: "active_space st = Some s" using active_space_ok [OF assms] by blast
  obtain u where u: "surface_under A st l = Some (u l)" for l
    using choice [of "\<lambda>l u. surface_under A st l = Some u"] surface_under_ok [OF assms] by blast
  then show ?thesis
    using assms
    by (auto simp: handle_pointer_motion_absolute_def s Let_def pointer_motion_ok split: option.splits)
qed

lemma handle_pointer_button_ok [step_inv]:
  assumes "frame_ok st" and "nx_lock st = None"
  shows "opt_ok (handle_pointer_button A b pressed still st)"
proof (cases "nx_ptr st")
  case (Some ptr)
  let ?i = "min (mgr_active (nx_mgr st)) (length (nx_workspaces st) - 1)"
  have i: "?i < length (nx_workspaces st)" using frame_okD(4) [OF assms(1)] by linarith
  have focus: "frame_ok (kbd_set_focus f st')" if "frame_ok st'" "nx_lock st' = None" for f st'
    using that by (intro kbd_set_focus_ok) simp_all
  obtain ws where ws: "active_space_mut st f = Some (st\<lparr>nx_workspaces := ws f\<rparr>)"
      "length (ws f) = length (nx_workspaces st)" for f
    using active_space_mut_ok [OF assms(1)] by metis
  show ?thesis
    using assms i
    by (auto simp: handle_pointer_button_def Some Let_def ws pointer_button_ok focus
        frame_ok_workspaces split: option.splits)
qed (simp add: handle_pointer_button_def assms)

lemma session_lock_ok [step_inv]: "frame_ok st \<Longrightarrow> frame_ok (session_lock st)"
  by (auto simp: session_lock_def kbd_set_focus_def frame_ok_def split: option.splits)

lemma session_unlock_ok [step_inv]: "frame_ok st \<Longrightarrow> opt_ok (session_unlock A st)"
proof -
  assume "frame_ok st"
  then have ok: "frame_ok (st\<lparr>nx_lock := None\<rparr>)" by (simp add: frame_ok_def)
  with active_space_ok [OF ok] show ?thesis
    by (auto simp: session_unlock_def Let_def kbd_set_focus_ok split: option.splits)
qed

lemma new_lock_surface_ok [step_inv]: "frame_ok st \<Longrightarrow> frame_ok (new_lock_surface s out st)"
  by (auto simp: new_lock_surface_def Let_def frame_ok_def nx_log_def split: option.splits)

lemma new_toplevel_ok [step_inv]: "frame_ok st \<Longrightarrow> opt_ok (new_toplevel A w st)"
proof -
  assume ok: "frame_ok st"
  let ?f = "\<lambda>space. sp_map A space w (toplevel_location A (nx_primary st) space) True"
  obtain ws where "active_space_mut st ?f = Some (st\<lparr>nx_workspaces := ws\<rparr>)"
      "length ws = length (nx_workspaces st)"
    using active_space_mut_ok [OF ok] by blast
  with ok frame_okD(1) [OF ok] show ?thesis
    by (simp add: new_toplevel_def frame_ok_def mgr_ok_set_focus)
qed

lemma move_request_ok [step_inv]: "frame_ok st \<Longrightarrow> opt_ok (move_request A wl g start st)"
proof -
  assume ok: "frame_ok st"
  then have "min (mgr_active (nx_mgr st)) (length (nx_workspaces st) - 1) < length (nx_workspaces st)"
    using frame_okD(4) [OF ok] by linarith
  with ok show ?thesis by (simp add: move_request_def Let_def split: option.splits)
qed

lemma length_destroy_scan: "length (fst (destroy_scan A wl is ws)) = length ws"
  by (induction "is") (auto split: option.splits)

lemma toplevel_destroyed_ok [step_inv]: "frame_ok st \<Longrightarrow> frame_ok (toplevel_destroyed A wl st)"
  using length_destroy_scan [of A wl "[0..<workspaces_count (nx_workspaces st)]" "nx_workspaces st"]
  by (auto simp: toplevel_destroyed_def Let_def frame_ok_def mgr_ok_set_focus split: prod.splits option.splits)

lemma compositor_commit_ok [step_inv]: "frame_ok st \<Longrightarrow> frame_ok (compositor_commit A s sync st)"
  by (simp add: compositor_commit_def Let_def frame_ok_workspaces nx_log_def)
     (simp add: frame_ok_def)

lemma layer_handlers_ok [step_inv]:
  "frame_ok st \<Longrightarrow> frame_ok (new_layer_surface A l out st)"
  "frame_ok st \<Longrightarrow> frame_ok (layer_destroyed A s st)"
  by (simp_all add: new_layer_surface_def layer_destroyed_def frame_ok_def nx_log_def Let_def
      split: option.splits)

lemma small_handlers_ok [step_inv]:
  "frame_ok st \<Longrightarrow> frame_ok (handle_signal s st)"
  "frame_ok st \<Longrightarrow> frame_ok (winit_resized sz st)"
  "frame_ok st \<Longrightarrow> frame_ok (winit_close_requested st)"
  "frame_ok st \<Longrightarrow> frame_ok (new_popup s' tracked st)"
  "frame_ok st \<Longrightarrow> frame_ok (reposition_request s' geo token st)"
  "frame_ok st \<Longrightarrow> frame_ok (ignored_request s' st)"
  "frame_ok st \<Longrightarrow> frame_ok (st\<lparr>nx_xwm := fst (xwm_handle_event (nx_xwm st) e)\<rparr>)"
  by (simp_all add: handle_signal_def winit_resized_def winit_close_requested_def popup_defs frame_ok_def
      handle_event_ok)

lemma fold_log_ok: "frame_ok (fold (\<lambda>w. nx_log (f w)) ws st) = frame_ok st"
  by (induction ws arbitrary: st) auto

lemma send_frames_ok [step_inv]: "frame_ok st \<Longrightarrow> opt_ok (send_frames_after_render A st)"
  using active_space_ok [of st]
  by (auto simp: send_frames_after_render_def fold_log_ok split: option.splits)

lemma handle_request_ok [step_inv]:
  assumes "frame_ok st"
  shows "opt_ok (map_option fst (handle_request_on_main A reload req st))"
proof (cases req)
  case (MoveFocused t)
  obtain m' r where "plan_move_focused (nx_mgr st) (unat t) = Some (m', r)"
    and "frame_ok (st\<lparr>nx_mgr := m'\<rparr>)" using plan_and_move_ok [OF assms] by blast
  then show ?thesis by (cases r) (auto simp: MoveFocused move_window_ok)
next
  case (SwitchWorkspace i)
  show ?thesis
    using switch_ok(1) [OF assms, of "unat i"]
    by (cases "switch_to (nx_mgr st) (unat i)") (auto simp: SwitchWorkspace split: bool.splits)
qed (use assms in simp_all)

section \<open>The machine\<close>

text \<open>
  The contract the compositor relies on is \<open>space_laws\<close>; under it the step function is a machine
  that never panics.
\<close>

locale frame_machine =
  fixes A :: "('s, 'l, 'x) smithay_api_scheme"
  assumes laws: "space_laws A"
begin

lemma clamp_pointer_total:
  assumes "frame_ok st"
  shows "\<exists>l. clamp_pointer A st loc = Some l"
proof -
  obtain s where s: "active_space st = Some s" using active_space_ok [OF assms] by blast
  have bound: "\<exists>v. f64_clamp z (of_int lo) (of_int (i32_wrap (lo + d))) = Some v"
    if "0 \<le> d" "i32_min \<le> lo" "lo + d \<le> i32_max" for z lo d
    using that by (simp add: f64_clamp_def i32_wrap_id)
  have "\<exists>v. (case rect_loc g of (gx, gy) \<Rightarrow> case rect_size g of (gw, gh) \<Rightarrow>
      Option.bind (f64_clamp (fst loc) (of_int gx) (of_int (i32_wrap (gx + gw))))
        (\<lambda>x. Option.bind (f64_clamp (snd loc) (of_int gy) (of_int (i32_wrap (gy + gh))))
          (\<lambda>y. Some (x, y)))) = Some v" if "rect_ok g" for g
  proof -
    obtain gx gy gw gh where g: "rect_loc g = (gx, gy)" "rect_size g = (gw, gh)"
      by (cases "rect_loc g"; cases "rect_size g")
    with that bound [of gw gx "fst loc"] bound [of gh gy "snd loc"] show ?thesis
      by (auto simp: rect_ok_def)
  qed
  then show ?thesis
    using space_lawsD(9) [OF laws]
    by (cases "nx_primary st") (auto simp: clamp_pointer_def s split: option.splits)
qed

lemma process_input_ok:
  assumes "frame_ok st"
  shows "opt_ok (process_input_event A ev st)"
proof -
  have "opt_ok (handle_pointer_motion A d st)" for d
  proof (cases "nx_ptr st")
    case (Some ptr)
    obtain l where l: "clamp_pointer A st (fl 53 (fst (ptr_location ptr) + fst d),
        fl 53 (snd (ptr_location ptr) + snd d)) = Some l"
      using clamp_pointer_total [OF assms] by blast
    obtain u where "surface_under A st l = Some u" using surface_under_ok [OF assms] by blast
    with l Some show ?thesis by (simp add: handle_pointer_motion_def pointer_motion_ok assms)
  qed (simp add: handle_pointer_motion_def assms)
  then show ?thesis
    using assms by (cases ev) (simp_all add: process_input_event_def step_inv)
qed

lemma step_ok: "frame_ok st \<Longrightarrow> opt_ok (frame_step A st e)"
  by (cases e) (simp_all add: process_input_ok step_inv)

end

sublocale frame_machine \<subseteq> total_machine "frame_step A" frame_ok "\<lambda>_. True"
  using step_ok by unfold_locales (rule opt_okD)

context frame_machine
begin

lemma run_frame:
  "frame_ok st \<Longrightarrow> \<exists>st'. fold_opt (\<lambda>e s. frame_step A s e) es st = Some st' \<and> frame_ok st'"
  by (rule run_total) simp_all

end

interpretation list_frame: frame_machine list_smithay
  by unfold_locales (rule list_smithay_laws)

lemma winit_boot_ok: "frame_ok (winit_boot A cfg maps out kbd_ok)"
  by (simp add: winit_boot_def Let_def frame_ok_def nx_new_def mgr_ok_new [unfolded mgr_new_def]
      workspaces_new_def mgr_new_def xwm_ok_def xwm_new_def xwm_start_def ensure_shell_def)

section \<open>What a step leaves alone\<close>

lemma active_mut_Some:
  "active_space_mut st f = Some st' \<Longrightarrow> \<exists>ws. st' = st\<lparr>nx_workspaces := ws\<rparr>"
  by (auto simp: active_space_mut_def)

text \<open>Pointer handlers change spaces, focus, pointer and effects only.\<close>

definition same_session :: "('s, 'l) nullxes_state \<Rightarrow> ('s, 'l) nullxes_state \<Rightarrow> bool" where
  "same_session st st' \<longleftrightarrow> nx_mgr st' = nx_mgr st \<and> nx_lock st' = nx_lock st \<and>
     nx_config st' = nx_config st \<and> nx_xwm st' = nx_xwm st \<and> nx_stopped st' = nx_stopped st"

lemma same_session_refl [simp]: "same_session st st"
  by (simp add: same_session_def)

lemma same_session_simps [simp]:
  "same_session st (st'\<lparr>nx_workspaces := ws\<rparr>) = same_session st st'"
  "same_session st (st'\<lparr>nx_ptr := p\<rparr>) = same_session st st'"
  "same_session st (nx_log e st') = same_session st st'"
  "same_session st (kbd_set_focus f st') = same_session st st'"
  "same_session st (pointer_button ptr b pr sp st') = same_session st st'"
  by (simp_all add: same_session_def nx_log_def kbd_set_focus_def pointer_button_def Let_def
      split: option.splits)

lemma pointer_motion_same: "pointer_motion A ptr u loc st = Some st' \<Longrightarrow> same_session st st'"
  by (auto simp: pointer_motion_def move_grab_motion_def Let_def dest!: active_mut_Some
      split: option.splits)

lemma pointer_input_same:
  "handle_pointer_motion A d st = Some st' \<Longrightarrow> same_session st st'"
  "handle_pointer_motion_absolute A fx fy st = Some st' \<Longrightarrow> same_session st st'"
  "same_session st (handle_pointer_axis a b c e st)"
  by (auto simp: handle_pointer_motion_def handle_pointer_motion_absolute_def Let_def
      handle_pointer_axis_def bind_eq_Some_conv split: option.splits dest: pointer_motion_same)

lemma pointer_button_same:
  "handle_pointer_button A b pr sp st = Some st' \<Longrightarrow> same_session st st'"
  by (auto simp: handle_pointer_button_def Let_def bind_eq_Some_conv split: option.splits if_splits
      dest!: active_mut_Some)

fun is_pointer_event :: "input_event \<Rightarrow> bool" where
  "is_pointer_event (Keyboard l s k p) = False"
| "is_pointer_event _ = True"

text \<open>The keyboard never changes the lock.\<close>

lemma keybind_lock: "handle_keybind A logo shift k st = Some (st', fwd) \<Longrightarrow> nx_lock st' = nx_lock st"
  by (auto simp: handle_keybind_def Let_def move_window_between_workspaces_def
      close_focused_window_def spawn_detached_def nx_log_def split: if_splits option.splits)

lemma keyboard_lock: "handle_keyboard A locked logo shift k p st = Some st' \<Longrightarrow> nx_lock st' = nx_lock st"
  by (auto simp: handle_keyboard_def Let_def nx_log_def split: if_splits option.splits
      dest: keybind_lock)

lemma pointer_event_same:
  "is_pointer_event ev \<Longrightarrow> process_input_event A ev st = Some st' \<Longrightarrow> same_session st st'"
  by (cases ev) (auto simp: process_input_event_def pointer_input_same(3) split: if_splits
      dest: pointer_input_same(1,2) pointer_button_same)

lemma input_lock: "process_input_event A ev st = Some st' \<Longrightarrow> nx_lock st' = nx_lock st"
proof (cases "is_pointer_event ev")
  case True
  assume "process_input_event A ev st = Some st'"
  with pointer_event_same [OF True] show ?thesis by (auto simp: same_session_def)
next
  case False
  assume "process_input_event A ev st = Some st'"
  with False show ?thesis by (cases ev) (auto simp: process_input_event_def dest: keyboard_lock)
qed

text \<open>Every other event either leaves the lock alone or is about the lock.\<close>

lemma destroyed_lock: "nx_lock (toplevel_destroyed A wl st) = nx_lock st"
  by (simp add: toplevel_destroyed_def Let_def split: prod.splits option.splits)

lemma request_lock:
  "handle_request_on_main A reload req st = Some (st', r) \<Longrightarrow> nx_lock st' = nx_lock st"
  by (cases req) (auto simp: move_window_between_workspaces_def Let_def spawn_detached_def nx_log_def
      split: option.splits prod.splits bool.splits)

lemma frames_lock: "nx_lock (fold (\<lambda>w. nx_log (f w)) ws st) = nx_lock st"
  by (induction ws arbitrary: st) (auto simp: nx_log_def)

lemma step_lock:
  assumes "frame_step A st e = Some st'" and "e \<noteq> UnlockRequest"
  shows "(e = LockRequest \<and> nx_lock st = None \<and> nx_lock st' = Some []) \<or>
    (\<exists>s out ss. e = NewLockSurface s out \<and> nx_lock st = Some ss \<and> nx_lock st' = Some (ss @ [s])) \<or>
    nx_lock st' = nx_lock st"
proof (cases e)
  case (NewToplevel w)
  with assms show ?thesis by (auto simp: new_toplevel_def dest!: active_mut_Some)
next
  case (MoveRequest wl g start)
  with assms show ?thesis by (auto simp: move_request_def Let_def split: option.splits if_splits)
next
  case LockRequest
  with assms show ?thesis by (auto simp: session_lock_def kbd_set_focus_def split: option.splits if_splits)
next
  case (NewLockSurface s out)
  with assms show ?thesis by (auto simp: new_lock_surface_def Let_def split: option.splits)
next
  case (IpcRequest reload req)
  with assms show ?thesis by (auto dest: request_lock)
next
  case FrameDone
  with assms show ?thesis by (auto simp: send_frames_after_render_def frames_lock split: option.splits)
next
  case (NewLayer l out)
  with assms show ?thesis by (auto simp: new_layer_surface_def nx_log_def split: option.splits)
next
  case (LayerDestroyed s)
  with assms show ?thesis by (auto simp: layer_destroyed_def Let_def split: option.splits)
next
  case (CommitSurface s sync)
  with assms show ?thesis by (auto simp: compositor_commit_def Let_def nx_log_def)
qed (use assms input_lock in \<open>auto simp: destroyed_lock handle_signal_def winit_resized_def
      winit_close_requested_def popup_defs\<close>)

text \<open>A session on the example space, used to evaluate the properties on.\<close>

definition example_boot :: "(list_space, layer_h list) nullxes_state" where
  "example_boot = winit_boot list_smithay frame_config_default (\<lambda>_. [])
     \<lparr>out_key = 0, out_mode = Some (1920, 1080)\<rparr> True"

section \<open>Properties of the session\<close>

text \<open>
  No sequence of client requests, input events, control requests, signals and Xwayland
  events makes a handler of the compositor panic, and the state always has one space and one focus slot per
  workspace, an active index in range and no keyboard focus while it is locked.
\<close>

lemma frame_never_panics:
  assumes "space_laws A"
  shows "\<exists>st. fold_opt (\<lambda>e s. frame_step A s e) es (winit_boot A cfg maps out kbd_ok) = Some st \<and>
    frame_ok st"
proof -
  have fm: "frame_machine A" using assms by unfold_locales
  show ?thesis by (rule frame_machine.run_frame [OF fm winit_boot_ok])
qed

text \<open>
  C6: while the session is locked, input does nothing but hand keys to the seat, and the seat
  then has no keyboard focus: no workspace switch, no window move, no spawned program, no
  pointer event, and no client receives the key.
\<close>

theorem locked_session_ignores_input:
  assumes "frame_ok st" and "nx_lock st \<noteq> None"
  shows "\<exists>es. process_input_event A ev st = Some (st\<lparr>nx_effects := nx_effects st @ es\<rparr>) \<and>
    (\<forall>e \<in> set es. \<exists>k. e = KeyForwarded None k)"
proof (cases "is_pointer_event ev")
  case True
  with assms(2) have "process_input_event A ev st = Some (st\<lparr>nx_effects := nx_effects st @ []\<rparr>)"
    by (cases ev) (auto simp: process_input_event_def)
  then show ?thesis by (intro exI [of _ "[]"]) simp
next
  case False
  then obtain logo shift k pressed where ev: "ev = Keyboard logo shift k pressed"
    by (cases ev) auto
  have "process_input_event A ev st = Some (st\<lparr>nx_effects := nx_effects st @
      (case nx_kbd st of None \<Rightarrow> [] | Some _ \<Rightarrow> [KeyForwarded None k])\<rparr>)"
    using assms frame_okD(5) [OF assms]
    by (auto simp: ev process_input_event_def handle_keyboard_def Let_def nx_log_def)
  then show ?thesis
    by (intro exI [of _ "case nx_kbd st of None \<Rightarrow> [] | Some _ \<Rightarrow> [KeyForwarded None k]"])
      (simp split: option.splits)
qed

theorem locked_session_ignores_input_witness:
  "let st = session_lock example_boot in
   \<exists>es. process_input_event list_smithay (Keyboard True False KEY_l True) st =
     Some (st\<lparr>nx_effects := nx_effects st @ es\<rparr>) \<and> (\<forall>e \<in> set es. \<exists>k. e = KeyForwarded None k)"
proof -
  have "frame_ok (session_lock example_boot)"
    by (rule session_lock_ok) (simp add: example_boot_def winit_boot_ok)
  moreover have "nx_lock (session_lock example_boot) \<noteq> None"
    by (simp add: session_lock_def kbd_set_focus_def split: option.splits)
  ultimately show ?thesis unfolding Let_def by (rule locked_session_ignores_input)
qed

text \<open>
  C8: the lock cannot be bypassed. In a run in which the lock client never asks to unlock, a
  session that is locked stays locked and keeps every lock surface it had.
\<close>

theorem lock_survives_every_run:
  assumes "fold_opt (\<lambda>e s. frame_step A s e) es st = Some st'" and "UnlockRequest \<notin> set es"
    and "nx_lock st = Some ss"
  shows "\<exists>more. nx_lock st' = Some (ss @ more)"
  using assms
proof (induction es arbitrary: st ss)
  case (Cons e es)
  then obtain s1 where s1: "frame_step A st e = Some s1"
      "fold_opt (\<lambda>e s. frame_step A s e) es s1 = Some st'" by (auto split: option.splits)
  from step_lock [OF s1(1)] Cons.prems obtain m where "nx_lock s1 = Some (ss @ m)"
    by (metis append_Nil2 list.set_intros(1) option.distinct(1) option.inject)
  with Cons.IH [OF s1(2)] Cons.prems(2) show ?case by auto
qed auto

theorem lock_survives_every_run_witness:
  "let st = session_lock (example_boot\<lparr>nx_kbd := None\<rparr>) in
   \<exists>st' more. fold_opt (\<lambda>e s. frame_step list_smithay s e) [InputEv OtherInput, SignalEv SIGTERM] st =
     Some st' \<and> nx_lock st' = Some ([] @ more)"
proof -
  define st where "st = session_lock (example_boot\<lparr>nx_kbd := None\<rparr>)"
  have "nx_lock st = Some []"
    by (simp add: st_def session_lock_def kbd_set_focus_def example_boot_def winit_boot_def
        nx_new_def Let_def)
  moreover have "fold_opt (\<lambda>e s. frame_step list_smithay s e) [InputEv OtherInput, SignalEv SIGTERM] st =
      Some (handle_signal SIGTERM st)" by (simp add: process_input_event_def Let_def)
  ultimately show ?thesis
    using lock_survives_every_run [of list_smithay "[InputEv OtherInput, SignalEv SIGTERM]" st
        "handle_signal SIGTERM st" "[]"]
    unfolding Let_def st_def [symmetric] by simp
qed

end
