(* ===== verification/Windows.thy ===== *)
theory Windows
  imports Session
begin

text \<open>
  Which workspace a window is in, and which window a workspace remembers as focused: the effect
  of moving, dragging, clicking and destroying windows on the spaces and on the focus slots.
\<close>

section \<open>Membership\<close>

definition in_space :: "('s, 'x) space_api_scheme \<Rightarrow> 's workspaces \<Rightarrow> nat \<Rightarrow> window_h \<Rightarrow> bool" where
  "in_space A ws i w \<longleftrightarrow> i < length ws \<and> w \<in> set (sp_elements A (ws ! i))"

definition windows_disjoint :: "('s, 'x) space_api_scheme \<Rightarrow> 's workspaces \<Rightarrow> bool" where
  "windows_disjoint A ws \<longleftrightarrow> (\<forall>i j w. in_space A ws i w \<and> in_space A ws j w \<longrightarrow> i = j)"

lemma in_space_update:
  "i < length ws \<Longrightarrow> in_space A (ws[i := s]) j w =
     (if j = i then w \<in> set (sp_elements A s) else in_space A ws j w)"
  by (auto simp: in_space_def nth_list_update)

lemma disjoint_shrink:
  assumes "windows_disjoint A ws" and "set (sp_elements A s) \<subseteq> set (sp_elements A (ws ! i))"
  shows "windows_disjoint A (ws[i := s])"
proof (cases "i < length ws")
  case True
  have "in_space A (ws[i := s]) j w \<Longrightarrow> in_space A ws j w" for j w
    using assms(2) True unfolding in_space_update [OF True]
    by (auto simp: in_space_def split: if_splits)
  with assms(1) show ?thesis unfolding windows_disjoint_def by blast
qed (simp add: assms(1) list_update_beyond)

lemma disjoint_insert:
  assumes "windows_disjoint A ws"
    and "set (sp_elements A s) \<subseteq> insert w (set (sp_elements A (ws ! i)))"
    and "\<And>j. j \<noteq> i \<Longrightarrow> \<not> in_space A ws j w"
  shows "windows_disjoint A (ws[i := s])"
proof (cases "i < length ws")
  case True
  have "in_space A (ws[i := s]) j v \<Longrightarrow> (j = i \<and> v = w) \<or> in_space A ws j v" for j v
    using assms(2) True unfolding in_space_update [OF True]
    by (auto simp: in_space_def split: if_splits)
  then show ?thesis
    using assms(1,3) unfolding windows_disjoint_def by (metis)
qed (simp add: assms(1) list_update_beyond)

lemma disjoint_get_mut_same:
  assumes "windows_disjoint A ws" and "\<And>s. set (sp_elements A (f s)) = set (sp_elements A s)"
  shows "windows_disjoint A (workspaces_get_mut ws i f)"
  unfolding workspaces_get_mut_def by (simp add: assms disjoint_shrink)

lemma disjoint_fold_same:
  assumes "windows_disjoint A ws" and "\<And>s. set (sp_elements A (f s)) = set (sp_elements A s)"
  shows "windows_disjoint A (fold (\<lambda>i ws. workspaces_get_mut ws i f) is ws)"
  using assms(1)
proof (induction "is" arbitrary: ws)
  case (Cons i ks)
  then show ?case using disjoint_get_mut_same [of A ws f i] assms(2) by simp
qed simp

lemma active_mut_at:
  assumes "frame_ok st"
  shows "active_space_mut st f = Some (st\<lparr>nx_workspaces := (nx_workspaces st)
    [mgr_active (nx_mgr st) := f (nx_workspaces st ! mgr_active (nx_mgr st))]\<rparr>)"
proof -
  have "min (mgr_active (nx_mgr st)) (length (nx_workspaces st) - 1) = mgr_active (nx_mgr st)"
    using frame_okD(4) [OF assms] by linarith
  then show ?thesis
    using frame_okD(4) [OF assms] by (simp add: active_space_mut_def workspaces_active_mut_def Let_def)
qed

section \<open>Moving a window\<close>

lemma find_by_id_mem: "find_by_id wid ws = Some w \<Longrightarrow> w \<in> set ws"
  by (auto simp: find_by_id_def dest: find_in_set)

lemma move_window_workspaces:
  assumes "src < length (nx_workspaces st)" and "target < length (nx_workspaces st)" and "src \<noteq> target"
    and "find_by_id wid (sp_elements A (nx_workspaces st ! src)) = Some w"
  shows "nx_workspaces (move_window_between_workspaces A src target wid st) =
    (nx_workspaces st)[src := sp_unmap A (nx_workspaces st ! src) w,
       target := sp_map A (nx_workspaces st ! target) w
         (case sp_location A (nx_workspaces st ! src) w of Some l \<Rightarrow> l | None \<Rightarrow> (0, 0)) True]"
  using assms by (simp add: move_window_between_workspaces_def workspaces_get_def Let_def
      workspaces_get_mut_def)

lemma disjoint_move_window:
  assumes laws: "space_laws A" and "windows_disjoint A (nx_workspaces st)"
    and "src \<noteq> target"
  shows "windows_disjoint A (nx_workspaces (move_window_between_workspaces A src target wid st))"
proof (cases "workspaces_get (nx_workspaces st) src")
  case None
  then show ?thesis using assms by (simp add: move_window_between_workspaces_def)
next
  case (Some sp)
  then have src: "src < length (nx_workspaces st)" "sp = nx_workspaces st ! src"
    by (auto simp: workspaces_get_def split: if_splits)
  show ?thesis
  proof (cases "find_by_id wid (sp_elements A sp)")
    case None
    then show ?thesis using Some assms by (simp add: move_window_between_workspaces_def)
  next
    case (Some w)
    let ?ws = "nx_workspaces st" and ?sp = "sp_unmap A sp w"
    have d1: "windows_disjoint A (?ws[src := ?sp])"
      using assms(2) by (rule disjoint_shrink) (auto simp: src space_lawsD(3) [OF laws])
    have gone: "\<not> in_space A (?ws[src := ?sp]) j w" for j
    proof (cases "j = src")
      case False
      have "in_space A ?ws src w" using find_by_id_mem [OF Some] src by (simp add: in_space_def)
      with False assms(2) show ?thesis
        by (auto simp: in_space_update src windows_disjoint_def)
    qed (simp add: in_space_update src space_lawsD(3) [OF laws])
    have "windows_disjoint A (workspaces_get_mut (?ws[src := ?sp]) target
        (\<lambda>s. sp_map A s w l True))" for l
      unfolding workspaces_get_mut_def
      using gone by (auto intro!: d1 disjoint_insert [where w = w] simp: space_lawsD(2) [OF laws])
    then show ?thesis
      using Some \<open>workspaces_get ?ws src = Some sp\<close> src
      by (simp add: move_window_between_workspaces_def Let_def workspaces_get_mut_def [of ?ws])
  qed
qed

section \<open>Every step\<close>

text \<open>
  What the uniqueness of windows needs: a new toplevel is a new window, and the window of an
  active drag is in no workspace but the active one.
\<close>

definition grab_at_home :: "('s, 'x) space_api_scheme \<Rightarrow> ('s, 'l) nullxes_state \<Rightarrow> bool" where
  "grab_at_home A st =
     (case nx_ptr st of
        None \<Rightarrow> True
      | Some ptr \<Rightarrow>
          (case ptr_grab ptr of
             None \<Rightarrow> True
           | Some g \<Rightarrow> (\<forall>j < length (nx_workspaces st). j \<noteq> mgr_active (nx_mgr st) \<longrightarrow>
               grab_window g \<notin> set (sp_elements A (nx_workspaces st ! j)))))"

fun step_fresh :: "('s, 'x) space_api_scheme \<Rightarrow> ('s, 'l) nullxes_state \<Rightarrow> frame_event \<Rightarrow> bool" where
  "step_fresh A st (NewToplevel w) =
     (\<forall>j < length (nx_workspaces st). w \<notin> set (sp_elements A (nx_workspaces st ! j)))"
| "step_fresh A st (InputEv (PointerMotion d)) = grab_at_home A st"
| "step_fresh A st (InputEv (PointerMotionAbsolute fx fy)) = grab_at_home A st"
| "step_fresh A st e = True"

definition disj :: "('s, 'x) space_api_scheme \<Rightarrow> ('s, 'l) nullxes_state \<Rightarrow> bool" where
  "disj A st \<longleftrightarrow> windows_disjoint A (nx_workspaces st)"

lemma disj_other [simp]:
  "disj A (st\<lparr>nx_mgr := m\<rparr>) = disj A st"
  "disj A (st\<lparr>nx_ptr := p\<rparr>) = disj A st"
  "disj A (st\<lparr>nx_lock := k\<rparr>) = disj A st"
  "disj A (st\<lparr>nx_config := c\<rparr>) = disj A st"
  "disj A (st\<lparr>nx_stopped := b\<rparr>) = disj A st"
  "disj A (st\<lparr>nx_xwm := x\<rparr>) = disj A st"
  "disj A (st\<lparr>nx_layer_maps := lm\<rparr>) = disj A st"
  "disj A (st\<lparr>nx_effects := fx\<rparr>) = disj A st"
  "disj A (nx_log e st) = disj A st"
  "disj A (kbd_set_focus f st) = disj A st"
  "disj A (spawn_detached bin st) = disj A st"
  "disj A (close_focused_window A' st) = disj A st"
  "disj A (pointer_button ptr bt pr sp st) = disj A st"
  by (simp_all add: disj_def nx_log_def kbd_set_focus_def spawn_detached_def Let_def
      close_focused_window_def pointer_button_def split: option.splits)

lemma disj_fold_log [simp]: "disj A (fold (\<lambda>w. nx_log (f w)) xs st) = disj A st"
  by (induction xs arbitrary: st) auto

lemma disj_move_window:
  "space_laws A \<Longrightarrow> disj A st \<Longrightarrow> s \<noteq> t \<Longrightarrow> disj A (move_window_between_workspaces A s t wid st)"
  unfolding disj_def by (rule disjoint_move_window)

lemma plan_move_differs: "plan_move_focused m t = Some (m', Some (s, t', wid)) \<Longrightarrow> s \<noteq> t'"
  by (auto simp: plan_move_focused_def Let_def split: if_splits option.splits)

lemma disj_keybind:
  assumes "space_laws A" and "disj A st" and "handle_keybind A logo shift k st = Some (st', fwd)"
  shows "disj A st'"
  using assms(3,2) unfolding handle_keybind_def Let_def
  by (auto split: if_splits option.splits intro!: disj_move_window [OF assms(1)]
      dest: plan_move_differs)

lemma disj_keyboard:
  "space_laws A \<Longrightarrow> disj A st \<Longrightarrow> handle_keyboard A locked logo shift k p st = Some st' \<Longrightarrow> disj A st'"
  by (auto simp: handle_keyboard_def Let_def split: if_splits option.splits dest: disj_keybind)

lemma disj_active_mut:
  assumes "frame_ok st" and "disj A st"
    and "set (sp_elements A (f (nx_workspaces st ! mgr_active (nx_mgr st)))) \<subseteq>
      insert w (set (sp_elements A (nx_workspaces st ! mgr_active (nx_mgr st))))"
    and "\<And>j. j < length (nx_workspaces st) \<Longrightarrow> j \<noteq> mgr_active (nx_mgr st) \<Longrightarrow>
      w \<notin> set (sp_elements A (nx_workspaces st ! j))"
    and "active_space_mut st f = Some st'"
  shows "disj A st'"
  using assms(5) disjoint_insert [of A "nx_workspaces st" "f (nx_workspaces st ! mgr_active (nx_mgr st))" w
      "mgr_active (nx_mgr st)"] assms(2,3,4)
  by (auto simp: active_mut_at [OF assms(1)] disj_def in_space_def)

lemma disj_pointer_motion:
  assumes laws: "space_laws A" and ok: "frame_ok st" and "disj A st" and "grab_at_home A st"
    and "nx_ptr st = Some ptr" and "pointer_motion A ptr u loc st = Some st'"
  shows "disj A st'"
proof (cases "ptr_grab ptr")
  case (Some g)
  let ?st1 = "st\<lparr>nx_ptr := Some (ptr\<lparr>ptr_pending := u, ptr_location := loc, ptr_focus := None\<rparr>)\<rparr>"
  from assms(6) Some obtain l where m: "active_space_mut ?st1 (\<lambda>sp. sp_map A sp (grab_window g) l True) = Some st'"
    by (auto simp: pointer_motion_def Let_def move_grab_motion_def)
  show ?thesis
    by (rule disj_active_mut [OF _ _ _ _ m, where w = "grab_window g"])
       (use assms Some in \<open>auto simp: space_lawsD(2) [OF laws] grab_at_home_def\<close>)
qed (use assms in \<open>auto simp: pointer_motion_def Let_def\<close>)

lemma disj_pointer_handlers:
  assumes laws: "space_laws A" and ok: "frame_ok st" and d: "disj A st"
  shows "grab_at_home A st \<Longrightarrow> handle_pointer_motion A dl st = Some st' \<Longrightarrow> disj A st'"
    and "grab_at_home A st \<Longrightarrow> handle_pointer_motion_absolute A fx fy st = Some st' \<Longrightarrow> disj A st'"
    and "disj A (handle_pointer_axis a b c e st)"
  using d disj_pointer_motion [OF laws ok d]
  by (auto simp: handle_pointer_motion_def handle_pointer_motion_absolute_def Let_def
      handle_pointer_axis_def bind_eq_Some_conv split: option.splits)

lemma disj_pointer_button:
  assumes laws: "space_laws A" and ok: "frame_ok st" and d: "disj A st"
    and "handle_pointer_button A b pr sp st = Some st'"
  shows "disj A st'"
proof -
  have raise: "disj A s" if "active_space_mut st (\<lambda>space. sp_raise A space w True) = Some s" for w s
    using that d disjoint_shrink [of A "nx_workspaces st"
        "sp_raise A (nx_workspaces st ! mgr_active (nx_mgr st)) w True" "mgr_active (nx_mgr st)"]
    by (auto simp: active_mut_at [OF ok] disj_def space_lawsD(4) [OF laws])
  show ?thesis
    using assms(4) d raise
    by (auto simp: handle_pointer_button_def Let_def bind_eq_Some_conv split: option.splits if_splits)
qed

lemma disj_destroyed:
  assumes laws: "space_laws A"
  shows "windows_disjoint A ws \<Longrightarrow> windows_disjoint A (fst (destroy_scan A wl is ws))"
  by (induction "is") (auto simp: workspaces_get_def workspaces_get_mut_def space_lawsD(3) [OF laws]
      split: option.splits intro!: disjoint_shrink)

lemma disj_toplevel_destroyed:
  "space_laws A \<Longrightarrow> disj A st \<Longrightarrow> disj A (toplevel_destroyed A wl st)"
  using disj_destroyed [of A "nx_workspaces st" wl "[0..<workspaces_count (nx_workspaces st)]"]
  by (auto simp: toplevel_destroyed_def Let_def disj_def split: prod.splits option.splits)

lemma disj_request:
  assumes "space_laws A" and "disj A st" and "handle_request_on_main A reload req st = Some (st', r)"
  shows "disj A st'"
  using assms(2,3) by (cases req) (auto split: option.splits prod.splits bool.splits
      intro!: disj_move_window [OF assms(1)] dest: plan_move_differs)

lemma disj_new_toplevel:
  assumes laws: "space_laws A" and "frame_ok st" and "disj A st"
    and "step_fresh A st (NewToplevel w)" and "new_toplevel A w st = Some st'"
  shows "disj A st'"
proof -
  from assms(5) obtain s1 where s1: "disj A s1 = disj A st'" and
    "active_space_mut st (\<lambda>space. sp_map A space w (toplevel_location A (nx_primary st) space) True) =
     Some s1"
    by (auto simp: new_toplevel_def)
  then have "disj A s1"
    by (elim disj_active_mut [where w = w, OF assms(2,3), rotated 2])
       (use assms(4) in \<open>auto simp: space_lawsD(2) [OF laws]\<close>)
  with s1 show ?thesis by simp
qed

lemma disj_step:
  assumes laws: "space_laws A" and ok: "frame_ok st" and d: "disj A st"
    and fresh: "step_fresh A st e" and step: "frame_step A st e = Some st'"
  shows "disj A st'"
proof (cases e)
  case (InputEv ev)
  show ?thesis
    using InputEv fresh step d
    by (cases ev) (auto simp: process_input_event_def disj_pointer_handlers(3) [OF laws ok d]
        split: if_splits dest: disj_keyboard [OF laws d] disj_pointer_handlers(1,2) [OF laws ok d]
          disj_pointer_button [OF laws ok d])
next
  case (NewToplevel w)
  with disj_new_toplevel [OF laws ok d] fresh step show ?thesis by simp
next
  case (MoveRequest wl g start)
  with step d show ?thesis by (auto simp: move_request_def Let_def split: option.splits if_splits)
next
  case (ToplevelDestroyed wl)
  with step disj_toplevel_destroyed [OF laws d] show ?thesis by auto
next
  case LockRequest
  with step d show ?thesis by (auto simp: session_lock_def split: if_splits)
next
  case UnlockRequest
  with step d show ?thesis by (auto simp: session_unlock_def Let_def split: option.splits list.splits)
next
  case (NewLockSurface s out)
  with step d show ?thesis by (auto simp: new_lock_surface_def Let_def split: option.splits)
next
  case (NewLayer l out)
  with step d show ?thesis by (auto simp: new_layer_surface_def split: option.splits)
next
  case (LayerDestroyed s)
  with step d show ?thesis by (auto simp: layer_destroyed_def Let_def split: option.splits)
next
  case (CommitSurface s sync)
  have c: "disj A (x\<lparr>nx_workspaces := fold (\<lambda>i ws. workspaces_get_mut ws i (\<lambda>t. sp_commit A t s)) is
      (nx_workspaces x)\<rparr>)" if "disj A x" for x "is"
    using that disjoint_fold_same [of A "nx_workspaces x" "\<lambda>t. sp_commit A t s"]
    by (simp add: disj_def space_lawsD(7) [OF laws])
  show ?thesis
    using CommitSurface step d c [of "nx_log (BufferCommitted s) st"] c [of st]
    by (cases sync) (auto simp: compositor_commit_def Let_def nx_log_def)
next
  case FrameDone
  with FrameDone step d show ?thesis by (auto simp: send_frames_after_render_def split: option.splits)
next
  case (IpcRequest reload req)
  with step disj_request [OF laws d] show ?thesis by auto
qed (use step d in \<open>auto simp: handle_signal_def winit_resized_def winit_close_requested_def popup_defs disj_def\<close>)

fun fresh_run :: "('s, 'l, 'x) smithay_api_scheme \<Rightarrow> ('s, 'l) nullxes_state \<Rightarrow> frame_event list \<Rightarrow> bool" where
  "fresh_run A st [] = True"
| "fresh_run A st (e # es) = (step_fresh A st e \<and>
     (case frame_step A st e of None \<Rightarrow> True | Some s \<Rightarrow> fresh_run A s es))"

lemma disj_run:
  assumes laws: "space_laws A"
  shows "frame_ok st \<Longrightarrow> disj A st \<Longrightarrow> fresh_run A st es \<Longrightarrow>
    fold_opt (\<lambda>e s. frame_step A s e) es st = Some st' \<Longrightarrow> disj A st'"
proof (induction es arbitrary: st)
  case (Cons e es)
  then obtain s1 where s1: "frame_step A st e = Some s1"
      "fold_opt (\<lambda>e s. frame_step A s e) es s1 = Some st'" by (auto split: option.splits)
  have "opt_ok (frame_step A st e)"
    using frame_machine.step_ok [OF frame_machine.intro [OF laws]] Cons.prems(1) by blast
  with s1 have "frame_ok s1" by simp
  moreover have "disj A s1" using disj_step [OF laws Cons.prems(1,2) _ s1(1)] Cons.prems(3) by simp
  ultimately show ?case using Cons.IH s1 Cons.prems(3) by simp
qed simp

lemma disj_boot:
  assumes laws: "space_laws A"
  shows "disj A (winit_boot A cfg maps out kbd_ok)"
proof -
  have "windows_disjoint A (workspaces_new A c)" for c
    by (auto simp: windows_disjoint_def in_space_def workspaces_new_def space_lawsD(1) [OF laws])
  then show ?thesis
    using disjoint_fold_same [of A _ "\<lambda>s. sp_map_output A s out (0, 0)"]
    by (simp add: winit_boot_def nx_new_def Let_def disj_def space_lawsD(8) [OF laws])
qed

section \<open>Properties\<close>

text \<open>
  C9: every window is in at most one workspace, in every run from boot in which new toplevels
  are new windows and no window is dragged while another workspace is the active one.
\<close>

theorem window_in_one_workspace:
  assumes "space_laws A" and "fresh_run A (winit_boot A cfg maps out kbd_ok) es"
    and "fold_opt (\<lambda>e s. frame_step A s e) es (winit_boot A cfg maps out kbd_ok) = Some st"
    and "in_space A (nx_workspaces st) i w" and "in_space A (nx_workspaces st) j w"
  shows "i = j"
  using disj_run [OF assms(1) winit_boot_ok disj_boot [OF assms(1)] assms(2,3)] assms(4,5)
  unfolding disj_def windows_disjoint_def by blast

text \<open>Windows, a drag and a click to evaluate the properties on.\<close>

definition window_a :: window_h where
  "window_a = \<lparr>win_key = 1, win_surface = Some \<lparr>surf_client = 1, surf_protocol_id = 7\<rparr>, win_toplevel = True\<rparr>"

definition window_b :: window_h where
  "window_b = \<lparr>win_key = 2, win_surface = Some \<lparr>surf_client = 2, surf_protocol_id = 8\<rparr>, win_toplevel = True\<rparr>"

definition run_example :: "frame_event list \<Rightarrow> (list_space, layer_h list) nullxes_state option" where
  "run_example es = fold_opt (\<lambda>e s. frame_step list_smithay s e) es example_boot"

theorem window_in_one_workspace_witness:
  "{i. in_space list_smithay (nx_workspaces (the (run_example [NewToplevel window_a, NewToplevel window_b])))
     i window_a} = {0}"
proof -
  let ?es = "[NewToplevel window_a, NewToplevel window_b]"
  have "fresh_run list_smithay example_boot ?es" and "\<not> Option.is_none (run_example ?es)"
    and zero: "in_space list_smithay (nx_workspaces (the (run_example ?es))) 0 window_a"
    by code_simp+
  then have "i = 0" if "in_space list_smithay (nx_workspaces (the (run_example ?es))) i window_a" for i
    using window_in_one_workspace [OF list_smithay_laws, of frame_config_default "\<lambda>_. []"
        "\<lparr>out_key = 0, out_mode = Some (1920, 1080)\<rparr>" True ?es, OF _ _ that zero]
    by (auto simp: run_example_def example_boot_def Option.is_none_def)
  with zero show ?thesis by blast
qed

text \<open>
  A drag follows the active workspace, not the workspace of the window. In every state with
  an active move grab, a pointer motion puts the grabbed window into the workspace that is
  active at that moment and changes no other workspace; so a window that is dragged across a
  workspace switch ends up in two workspaces.
\<close>

lemma drag_maps_into_active_workspace:
  assumes "space_laws A" and "frame_ok st" and "nx_lock st = None"
    and "nx_ptr st = Some ptr" and "ptr_grab ptr = Some g"
    and "process_input_event A (PointerMotion d) st = Some st'"
  shows "in_space A (nx_workspaces st') (mgr_active (nx_mgr st')) (grab_window g) \<and>
    (\<forall>j. j \<noteq> mgr_active (nx_mgr st') \<longrightarrow> nx_workspaces st' ! j = nx_workspaces st ! j)"
proof -
  from assms(3-6) obtain u loc where "pointer_motion A ptr u loc st = Some st'"
    by (auto simp: process_input_event_def handle_pointer_motion_def bind_eq_Some_conv)
  then obtain l where m: "active_space_mut (st\<lparr>nx_ptr := Some (ptr\<lparr>ptr_pending := u,
      ptr_location := loc, ptr_focus := None\<rparr>)\<rparr>) (\<lambda>sp. sp_map A sp (grab_window g) l True) = Some st'"
    using assms(5) by (auto simp: pointer_motion_def Let_def move_grab_motion_def)
  show ?thesis
    using m frame_okD(4) [OF assms(2)] assms(2)
    by (auto simp: active_mut_at in_space_def space_lawsD(2) [OF assms(1)])
qed

lemma run_example_ok: "\<not> Option.is_none (run_example es) \<Longrightarrow> frame_ok (the (run_example es))"
  using frame_machine.run_frame [OF frame_machine.intro [OF list_smithay_laws]
      winit_boot_ok [of list_smithay frame_config_default "\<lambda>_. []"
        "\<lparr>out_key = 0, out_mode = Some (1920, 1080)\<rparr>" True], of es]
  by (auto simp: run_example_def example_boot_def)

text \<open>
  Pointer input never changes the workspace bookkeeping: clicking a window raises it and
  gives it the keyboard, but the focused window of the workspace, which the close and move
  shortcuts act on, stays the one that was mapped or moved there last.
\<close>

lemma pointer_input_keeps_focus_slots:
  assumes "is_pointer_event ev" and "process_input_event A ev st = Some st'"
  shows "nx_mgr st' = nx_mgr st"
  using pointer_event_same [OF assms] by (simp add: same_session_def)

lemma run_example_disjoint:
  assumes "fresh_run list_smithay example_boot es" and "\<not> Option.is_none (run_example es)"
  shows "windows_disjoint list_smithay (nx_workspaces (the (run_example es)))"
proof -
  have "fold_opt (\<lambda>e s. frame_step list_smithay s e) es example_boot = Some (the (run_example es))"
    using assms(2) by (auto simp: run_example_def Option.is_none_def)
  from disj_run [OF list_smithay_laws _ _ assms(1) this] show ?thesis
    unfolding disj_def [symmetric] example_boot_def
    by (simp add: winit_boot_ok disj_boot list_smithay_laws)
qed

lemma destroy_scan_mgr:
  "nx_mgr (toplevel_destroyed A wl st) = nx_mgr st \<or>
   nx_mgr (toplevel_destroyed A wl st) = set_focus (nx_mgr st) None"
  by (simp add: toplevel_destroyed_def Let_def split: prod.splits option.splits)

text \<open>
  Destroying a toplevel touches the focus slot of the active workspace only; a window that
  is destroyed while another workspace is active stays recorded as the focused window of its own.
\<close>

lemma destroy_keeps_other_slots:
  assumes "i \<noteq> mgr_active (nx_mgr st)"
  shows "mgr_focused (nx_mgr (toplevel_destroyed A wl st)) ! i = mgr_focused (nx_mgr st) ! i"
  using destroy_scan_mgr [of A wl st] assms by (auto simp: set_focus_def)

text \<open>
  The slot of a workspace holds the protocol id of a surface, which is a number of its client. The window
  it was set for is found again when no other window of the space has the same id.
\<close>

lemma find_by_id_unique:
  assumes "w \<in> set ws" and "win_surface w \<noteq> None"
    and "\<And>v. v \<in> set ws \<Longrightarrow> win_surface v \<noteq> None \<Longrightarrow> window_id v = window_id w \<Longrightarrow> v = w"
  shows "find_by_id (window_id w) ws = Some w"
proof -
  let ?P = "\<lambda>v. case win_surface v of Some s \<Rightarrow> ucast (surf_protocol_id s) = window_id w | None \<Rightarrow> False"
  have "?P v \<Longrightarrow> win_surface v \<noteq> None \<and> window_id v = window_id w" for v
    by (auto simp: window_id_def split: option.splits)
  moreover have "?P w" using assms(2) by (auto simp: window_id_def)
  moreover obtain v where "find ?P ws = Some v"
    using assms(1) \<open>?P w\<close> by (cases "find ?P ws") (auto simp: find_None_iff)
  ultimately show ?thesis using assms(3) unfolding find_by_id_def by (metis (no_types, lifting) find_Some_iff nth_mem)
qed

lemma new_toplevel_focused:
  assumes "space_laws A" and "frame_ok st" and "new_toplevel A w st = Some st'"
  shows "focused (nx_mgr st') = Some (window_id w) \<and> in_space A (nx_workspaces st') (mgr_active (nx_mgr st')) w"
  using assms(3) frame_okD(1,2,4) [OF assms(2)]
  by (auto simp: new_toplevel_def active_mut_at [OF assms(2)] set_focus_def focused_def mgr_ok_def in_space_def
      space_lawsD(2) [OF assms(1)])

text \<open>
  C10: the move request. The slot of the active workspace holds the id of a window \<open>w\<close> of its space, as it does
  after \<open>w\<close> was mapped. If no other window of the space has the same id, which is unique only among
  the surfaces of one client, the request moves exactly \<open>w\<close> to the target: it is there and nowhere else
  afterwards, every other window stays in its workspace, the source forgets its focus and the
  target remembers the window.
\<close>

theorem move_focused_moves_window:
  assumes "space_laws A" and "frame_ok st" and "windows_disjoint A (nx_workspaces st)"
    and "focused (nx_mgr st) = Some (window_id w)" and "unat t < mgr_count (nx_mgr st)"
    and "unat t \<noteq> mgr_active (nx_mgr st)"
    and "in_space A (nx_workspaces st) (mgr_active (nx_mgr st)) w" and "win_surface w \<noteq> None"
    and "\<And>v. in_space A (nx_workspaces st) (mgr_active (nx_mgr st)) v \<Longrightarrow> win_surface v \<noteq> None \<Longrightarrow>
      window_id v = window_id w \<Longrightarrow> v = w"
  shows "\<exists>st'. handle_request_on_main A reload (MoveFocused t) st = Some (st', response_ok) \<and>
    (\<forall>j v. in_space A (nx_workspaces st') j v \<longleftrightarrow>
       (if v = w then j = unat t else in_space A (nx_workspaces st) j v)) \<and>
    mgr_focused (nx_mgr st') ! unat t = Some (window_id w) \<and>
    mgr_focused (nx_mgr st') ! mgr_active (nx_mgr st') = None"
proof -
  let ?m = "nx_mgr st" and ?a = "mgr_active (nx_mgr st)" and ?ws = "nx_workspaces st"
  let ?m' = "?m\<lparr>mgr_focused := ((mgr_focused ?m)[?a := None])[unat t := Some (window_id w)]\<rparr>"
  have mok: "mgr_ok ?m" and len: "length ?ws = mgr_count ?m" and a: "?a < length ?ws"
    using frame_okD(1,2,4) [OF assms(2)] by auto
  have plan: "plan_move_focused ?m (unat t) = Some (?m', Some (?a, unat t, window_id w))"
    using plan_move_Some [OF mok] assms(4-6) by blast
  have here: "in_space A ?ws ?a w" by (rule assms(7))
  have found: "find_by_id (window_id w) (sp_elements A (?ws ! ?a)) = Some w"
    using here assms(8,9) by (intro find_by_id_unique) (auto simp: in_space_def)
  let ?st1 = "st\<lparr>nx_mgr := ?m'\<rparr>"
  let ?st' = "move_window_between_workspaces A ?a (unat t) (window_id w) ?st1"
  let ?l = "case sp_location A (?ws ! ?a) w of Some l \<Rightarrow> l | None \<Rightarrow> (0, 0)"
  have ws': "nx_workspaces ?st' = ?ws[?a := sp_unmap A (?ws ! ?a) w,
      unat t := sp_map A (?ws ! unat t) w ?l True]"
    using move_window_workspaces [of ?a ?st1 "unat t" "window_id w" A w] assms(5,6) found a len by simp
  have only: "in_space A ?ws j w \<Longrightarrow> j = ?a" for j
    using assms(3) here unfolding windows_disjoint_def by blast
  have mem: "in_space A (nx_workspaces ?st') j v \<longleftrightarrow> (if v = w then j = unat t else in_space A ?ws j v)" for j v
  proof -
    have "in_space A (nx_workspaces ?st') j v =
        (if j = unat t then v \<in> insert w (set (sp_elements A (?ws ! unat t)))
         else if j = ?a then v \<in> set (sp_elements A (?ws ! ?a)) - {w} else in_space A ?ws j v)"
      unfolding ws' using assms(5) a len
      by (simp add: in_space_update space_lawsD(2,3) [OF assms(1)])
    also have "\<dots> = (if v = w then j = unat t else in_space A ?ws j v)"
    proof (cases "v = w")
      case True
      with assms(6) only [of j] show ?thesis by (cases "j = ?a") auto
    next
      case False
      with assms(5) a len show ?thesis
        by (cases "j = unat t"; cases "j = ?a") (simp_all add: in_space_def)
    qed
    finally show ?thesis .
  qed
  have m': "nx_mgr ?st' = ?m'"
    by (simp add: move_window_between_workspaces_def Let_def split: option.splits)
  have slots: "mgr_focused ?m' ! unat t = Some (window_id w)" "mgr_focused ?m' ! mgr_active ?m' = None"
    using mok assms(5,6) by (simp_all add: mgr_ok_def)
  show ?thesis
  proof (rule exI [of _ ?st'], intro conjI)
    show "handle_request_on_main A reload (MoveFocused t) st = Some (?st', response_ok)"
      by (simp add: plan)
    show "\<forall>j v. in_space A (nx_workspaces ?st') j v \<longleftrightarrow>
        (if v = w then j = unat t else in_space A ?ws j v)" by (intro allI mem)
    show "mgr_focused (nx_mgr ?st') ! unat t = Some (window_id w)"
      unfolding m' by (rule slots(1))
    show "mgr_focused (nx_mgr ?st') ! mgr_active (nx_mgr ?st') = None"
      unfolding m' by (rule slots(2))
  qed
qed

theorem move_focused_moves_window_witness:
  "\<exists>st'. handle_request_on_main list_smithay frame_config_default (MoveFocused 3)
     (the (run_example [NewToplevel window_a, NewToplevel window_b])) = Some (st', response_ok) \<and>
     (\<forall>j. in_space list_smithay (nx_workspaces st') j window_b \<longleftrightarrow> j = 3) \<and>
     in_space list_smithay (nx_workspaces st') 0 window_a"
proof -
  let ?es = "[NewToplevel window_a, NewToplevel window_b]"
  define st where "st = the (run_example ?es)"
  have some: "\<not> Option.is_none (run_example ?es)" and fresh: "fresh_run list_smithay example_boot ?es" by code_simp+
  have foc: "focused (nx_mgr st) = Some (window_id window_b)" "unat (3 :: u64) < mgr_count (nx_mgr st)"
      "unat (3 :: u64) \<noteq> mgr_active (nx_mgr st)"
      "in_space list_smithay (nx_workspaces st) (mgr_active (nx_mgr st)) window_b" "win_surface window_b \<noteq> None"
    and here: "sp_elements list_smithay (nx_workspaces st ! mgr_active (nx_mgr st)) = [window_a, window_b]"
      "window_id window_a \<noteq> window_id window_b" "in_space list_smithay (nx_workspaces st) 0 window_a" "window_a \<noteq> window_b"
    unfolding st_def by code_simp+
  have only: "v = window_b" if "in_space list_smithay (nx_workspaces st) (mgr_active (nx_mgr st)) v"
    "win_surface v \<noteq> None" "window_id v = window_id window_b" for v
    using that here(1,2) by (auto simp: in_space_def)
  have ok: "frame_ok st" "windows_disjoint list_smithay (nx_workspaces st)"
    unfolding st_def by (rule run_example_ok [OF some], rule run_example_disjoint [OF fresh some])
  obtain st' where st': "handle_request_on_main list_smithay frame_config_default (MoveFocused 3) st = Some (st', response_ok)"
    "\<forall>j v. in_space list_smithay (nx_workspaces st') j v \<longleftrightarrow>
       (if v = window_b then j = unat (3 :: u64) else in_space list_smithay (nx_workspaces st) j v)"
    using move_focused_moves_window [OF list_smithay_laws ok foc only, of frame_config_default] by blast
  have "unat (3 :: u64) = 3" by simp
  with st' here(3,4) show ?thesis unfolding st_def [symmetric] by metis
qed

text \<open>
  Two clients may number their surfaces alike. The slot is then set for the window that was mapped last, but the
  request moves the one that comes first in the space.
\<close>

definition window_c :: window_h where
  "window_c = \<lparr>win_key = 3, win_surface = Some \<lparr>surf_client = 3, surf_protocol_id = 7\<rparr>, win_toplevel = True\<rparr>"

lemma move_focused_moves_other_window:
  "let st = the (run_example [NewToplevel window_a, NewToplevel window_c]);
       st' = fst (the (handle_request_on_main list_smithay frame_config_default (MoveFocused 3) st)) in
   focused (nx_mgr st) = Some (window_id window_c) \<and> in_space list_smithay (nx_workspaces st') 3 window_a \<and>
   in_space list_smithay (nx_workspaces st') 0 window_c"
  by code_simp

end
