(* ===== verification/Control.thy ===== *)
theory Control
  imports Session
begin

text \<open>
  The two ways of steering the compositor, keyboard shortcuts and control requests: what is
  intercepted, what is answered, and what the answers say.
\<close>

section \<open>Key bindings\<close>

definition bound_key :: "u32 \<Rightarrow> bool" where
  "bound_key k \<longleftrightarrow> (KEY_1 \<le> k \<and> k \<le> KEY_9) \<or> k \<in> {KEY_Right, KEY_Left, KEY_q, KEY_Q, KEY_l, KEY_L,
     KEY_Return, KEY_KP_Enter, KEY_Super_L, KEY_Super_R}"

text \<open>
  C13: shortcuts and clients never see the same key. A key event is forwarded exactly when Super
  is not held or the key is not bound; then the compositor's state does not change. Every other
  event is intercepted.
\<close>

theorem keybind_forwards_iff:
  assumes "frame_ok st"
  shows "\<exists>st'. handle_keybind A logo shift k st = Some (st', \<not> logo \<or> \<not> bound_key k) \<and>
    (\<not> logo \<or> \<not> bound_key k \<longrightarrow> st' = st)"
proof -
  obtain st' fwd where h: "handle_keybind A logo shift k st = Some (st', fwd)"
    using handle_keybind_ok [OF assms] by blast
  then have "fwd = (\<not> logo \<or> \<not> bound_key k) \<and> (fwd \<longrightarrow> st' = st)"
    by (auto simp: handle_keybind_def bound_key_def Let_def split: if_splits option.splits prod.splits)
  with h show ?thesis by blast
qed

theorem keybind_forwards_iff_witness:
  "\<exists>st'. handle_keybind list_smithay True False KEY_Return example_boot = Some (st', False)"
  using keybind_forwards_iff [of example_boot list_smithay True False KEY_Return]
  by (auto simp: example_boot_def winit_boot_ok bound_key_def)

text \<open>
  A digit with Super makes that workspace active when it exists, and does nothing otherwise.
\<close>

lemma super_digit_switches:
  assumes "i < 9"
  shows "\<exists>st'. handle_keybind A True False (KEY_1 + of_nat i) st = Some (st', False) \<and>
    mgr_active (nx_mgr st') = (if i < mgr_count (nx_mgr st) then i else mgr_active (nx_mgr st)) \<and>
    nx_workspaces st' = nx_workspaces st"
proof -
  have "unat (of_nat i :: u32) = i" using assms by (simp add: unat_of_nat)
  moreover have "KEY_1 \<le> KEY_1 + of_nat i \<and> KEY_1 + (of_nat i :: u32) \<le> KEY_9"
  proof -
    have "i \<in> {0, 1, 2, 3, 4, 5, 6, 7, 8}" using assms by auto
    then show ?thesis by (auto simp: keysym_defs)
  qed
  ultimately show ?thesis
    by (auto simp: handle_keybind_def Let_def switch_to_def)
qed

text \<open>
  The filter does not look at the key state, so a shortcut acts both when its key goes down
  and when it comes up: one stroke of Super and Right moves two workspaces.
\<close>

lemma super_right_moves_twice:
  assumes "frame_ok st" and "nx_kbd st = Some f" and "nx_lock st = None"
    and "nx_shutdown_reason st = None" and "mgr_active (nx_mgr st) + 2 < mgr_count (nx_mgr st)"
  shows "\<exists>st'. fold_opt (\<lambda>e s. frame_step A s e)
      [InputEv (Keyboard True shift KEY_Right True), InputEv (Keyboard True shift KEY_Right False)] st =
      Some st' \<and> mgr_active (nx_mgr st') = mgr_active (nx_mgr st) + 2"
proof -
  have k: "\<not> (KEY_1 \<le> KEY_Right \<and> KEY_Right \<le> KEY_9)" by (simp add: keysym_defs)
  have right: "handle_keybind A True shift KEY_Right s =
      Some (s\<lparr>nx_mgr := snd (switch_next (nx_mgr s) (wc_wrap (fc_workspace (nx_config s))))\<rparr>, False)" for s
    using k by (auto simp: handle_keybind_def Let_def)
  have next_one: "snd (switch_next m w) = m\<lparr>mgr_active := Suc (mgr_active m)\<rparr>"
    if "Suc (mgr_active m) < mgr_count m" for m w
    using that by (simp add: switch_next_def switch_to_def)
  show ?thesis
    using assms by (simp add: process_input_event_def handle_keyboard_def right next_one)
qed

section \<open>Control requests\<close>

text \<open>
  C14: every line on the socket is answered by a response of the protocol's version that carries
  the id of the request, or 0 when the line does not decode; only a version-1 request reaches
  the compositor, and every other line leaves its state alone and is answered by an error that
  names the reason.
\<close>

theorem ipc_line_is_answered:
  assumes "frame_ok st"
  shows "\<exists>st' out resp. ipc_respond A reload derr Serving line st = Some (st', out) \<and>
    frame_ok st' \<and> env_v out = PROTOCOL_VERSION \<and> env_direction out = DirResponse resp \<and>
    (case Option.bind line envelope_from_json of
       None \<Rightarrow> st' = st \<and> env_id out = 0 \<and> (\<exists>m. resp = RespErr (InvalidRequest m))
     | Some e \<Rightarrow> env_id out = env_id e \<and>
         (if env_v e \<noteq> PROTOCOL_VERSION then st' = st \<and> resp = RespErr (VersionMismatch [PROTOCOL_VERSION])
          else case env_direction e of
            DirRequest req \<Rightarrow> handle_request_on_main A reload req st = Some (st', resp)
          | DirResponse _ \<Rightarrow> st' = st \<and> (\<exists>m. resp = RespErr (InvalidRequest m))))"
proof -
  have req: "\<exists>s r. handle_request_on_main A reload q st = Some (s, r) \<and> frame_ok s" for q
    using handle_request_ok [OF assms, of A reload q] by (auto dest!: opt_okD)
  show ?thesis
  proof (cases "Option.bind line envelope_from_json")
    case None
    then show ?thesis
      using assms by (simp add: ipc_respond_def Let_def envelope_response_def response_err_def)
  next
    case (Some e)
    show ?thesis
    proof (cases "env_v e \<noteq> PROTOCOL_VERSION")
      case True
      with Some assms show ?thesis
        by (simp add: ipc_respond_def Let_def envelope_response_def response_err_def)
    next
      case v1: False
      show ?thesis
      proof (cases "env_direction e")
        case (DirRequest q)
        obtain s r where "handle_request_on_main A reload q st = Some (s, r)" "frame_ok s"
          using req by blast
        with Some v1 DirRequest show ?thesis
          by (simp add: ipc_respond_def ipc_dispatch_def Let_def envelope_response_def)
      next
        case (DirResponse r)
        with Some v1 assms show ?thesis
          by (simp add: ipc_respond_def Let_def envelope_response_def response_err_def)
      qed
    qed
  qed
qed

theorem ipc_line_is_answered_witness:
  "\<exists>st' out. ipc_respond list_smithay frame_config_default (\<lambda>_. []) Serving
     (Some (envelope_to_json (envelope_request 5 (SwitchWorkspace 2)))) example_boot = Some (st', out) \<and>
     env_id out = 5"
proof -
  let ?e = "envelope_request 5 (SwitchWorkspace 2)"
  have "envelope_from_json (envelope_to_json ?e) = Some ?e" by code_simp
  moreover have "env_id ?e = 5" by (simp add: envelope_request_def)
  moreover have "frame_ok example_boot" by (simp add: example_boot_def winit_boot_ok)
  ultimately show ?thesis
    using ipc_line_is_answered [of example_boot list_smithay frame_config_default "\<lambda>_. []"
        "Some (envelope_to_json ?e)"] by (simp split: if_splits) blast
qed

lemma small_u64: "n \<le> 9 \<Longrightarrow> unat (of_nat n :: u64) = n"
  by (simp add: unat_of_nat)

text \<open>
  A state snapshot is true: it reports the number of workspaces, an active index below it,
  exactly the workspaces that have a window, in increasing order, and whether X11 is up; and it
  changes nothing.
\<close>

lemma get_state_snapshot:
  assumes "frame_ok st"
  shows "\<exists>snap. handle_request_on_main A reload GetState st = Some (st, RespOk (Some (StateData snap))) \<and>
    unat (snap_workspace_count snap) = length (nx_workspaces st) \<and>
    unat (snap_active_workspace snap) = mgr_active (nx_mgr st) \<and>
    snap_active_workspace snap < snap_workspace_count snap \<and>
    map unat (snap_occupied snap) =
      filter (\<lambda>i. sp_elements A (nx_workspaces st ! i) \<noteq> []) [0..<length (nx_workspaces st)] \<and>
    snap_xwayland_ready snap = xwm_wm (nx_xwm st)"
proof -
  have c: "mgr_count (nx_mgr st) \<le> 9" "mgr_active (nx_mgr st) < mgr_count (nx_mgr st)"
    "length (nx_workspaces st) = mgr_count (nx_mgr st)"
    using frame_okD(1,2) [OF assms] by (simp_all add: mgr_ok_def)
  have "map unat (map of_nat (workspaces_occupied A (nx_workspaces st)) :: u64 list) =
      workspaces_occupied A (nx_workspaces st)"
    using c by (auto simp: workspaces_occupied_def small_u64 intro!: map_idI)
  then show ?thesis
    using c by (simp add: response_ok_with_def small_u64 word_less_nat_alt workspaces_occupied_def)
qed

end
