(* ===== verification/Color.thy ===== *)
theory Color
  imports Floats
begin

text \<open>
  \<open>crates/theme/src/color.rs\<close>: colours with \<open>f32\<close> channels, their conversion from a hexadecimal
  literal and to bytes, and the palette.
\<close>

record color =
  col_r :: rat
  col_g :: rat
  col_b :: rat
  col_a :: rat

definition rgba :: "rat \<Rightarrow> rat \<Rightarrow> rat \<Rightarrow> rat \<Rightarrow> color" where
  "rgba r g b a = \<lparr>col_r = r, col_g = g, col_b = b, col_a = a\<rparr>"

definition rgb :: "rat \<Rightarrow> rat \<Rightarrow> rat \<Rightarrow> color" where
  "rgb r g b = rgba r g b 1"

text \<open>\<open>byte as f32 / 255.0\<close>.\<close>

definition byte_channel :: "nat \<Rightarrow> rat" where
  "byte_channel n = fl 24 (of_nat n / 255)"

definition from_hex :: "u32 \<Rightarrow> color" where
  "from_hex hex =
     rgba (byte_channel (unat (and (drop_bit 16 hex) 0xFF)))
          (byte_channel (unat (and (drop_bit 8 hex) 0xFF)))
          (byte_channel (unat (and hex 0xFF))) 1"

text \<open>\<open>x as u8\<close>: truncates and saturates.\<close>

definition f32_as_u8 :: "rat \<Rightarrow> u8" where
  "f32_as_u8 x = word_of_int (max 0 (min 255 \<lfloor>x\<rfloor>))"

definition to_u8 :: "color \<Rightarrow> u8 \<times> u8 \<times> u8 \<times> u8" where
  "to_u8 c =
     (f32_as_u8 (fl 24 (col_r c * 255)), f32_as_u8 (fl 24 (col_g c * 255)),
      f32_as_u8 (fl 24 (col_b c * 255)), f32_as_u8 (fl 24 (col_a c * 255)))"

definition with_alpha :: "color \<Rightarrow> rat \<Rightarrow> color" where
  "with_alpha c a = c\<lparr>col_a := a\<rparr>"

definition premultiplied :: "color \<Rightarrow> u8 \<times> u8 \<times> u8 \<times> u8" where
  "premultiplied c =
     (f32_as_u8 (fl 24 (fl 24 (col_r c * col_a c) * 255)),
      f32_as_u8 (fl 24 (fl 24 (col_g c * col_a c) * 255)),
      f32_as_u8 (fl 24 (fl 24 (col_b c * col_a c) * 255)),
      f32_as_u8 (fl 24 (col_a c * 255)))"

section \<open>Palette\<close>

definition BG :: color where "BG = from_hex 0x0A0A0A"
definition SURFACE_1 :: color where "SURFACE_1 = from_hex 0x111111"
definition SURFACE_2 :: color where "SURFACE_2 = from_hex 0x131313"
definition SURFACE_3 :: color where "SURFACE_3 = from_hex 0x161616"
definition SURFACE_4 :: color where "SURFACE_4 = from_hex 0x1C1C1C"
definition SURFACE_5 :: color where "SURFACE_5 = from_hex 0x1F1F1F"
definition DIVIDER :: color where "DIVIDER = from_hex 0x252525"
definition TEXT_PRIMARY :: color where "TEXT_PRIMARY = from_hex 0xE8E8E8"
definition TEXT_SECONDARY :: color where "TEXT_SECONDARY = from_hex 0x808080"
definition TEXT_DISABLED :: color where "TEXT_DISABLED = from_hex 0x404040"
definition ACCENT :: color where "ACCENT = from_hex 0xC0C0C0"
definition ACCENT_STRONG :: color where "ACCENT_STRONG = from_hex 0xFFFFFF"
definition DESTRUCTIVE :: color where "DESTRUCTIVE = from_hex 0xC0392B"
definition WARNING :: color where "WARNING = from_hex 0xB07D00"
definition SUCCESS :: color where "SUCCESS = from_hex 0x2E7D52"
definition SELECTION_BG :: color where
  "SELECTION_BG = rgba (fl 24 (75 / 100)) (fl 24 (75 / 100)) (fl 24 (75 / 100)) (fl 24 (15 / 100))"
definition SCRIM :: color where "SCRIM = rgba 0 0 0 (fl 24 (60 / 100))"

section \<open>The byte round trip\<close>

text \<open>
  For a byte \<open>n\<close> the exponents of the two roundings, the mantissa of the first one, and the
  conditions under which the second one returns \<open>n\<close>.
\<close>

definition channel_scale :: "int \<Rightarrow> nat" where
  "channel_scale n = (if n = 255 then 23 else 32 - bitlen n)"

definition channel_mantissa :: "int \<Rightarrow> int" where
  "channel_mantissa n = (2 * n * 2 ^ channel_scale n + 255) div 510"

definition byte_scale :: "int \<Rightarrow> nat" where
  "byte_scale n = (if channel_mantissa n * 255 < n * 2 ^ channel_scale n \<and> n = 2 ^ (bitlen n - 1)
                   then 25 - bitlen n else 24 - bitlen n)"

definition channel_exact :: "int \<Rightarrow> bool" where
  "channel_exact n =
     (let s = channel_scale n; m = channel_mantissa n; t = byte_scale n in
      255 * 2 ^ 23 \<le> n * 2 ^ s \<and> n * 2 ^ s < 255 * 2 ^ 24 \<and> 2 * \<bar>n * 2 ^ s - 255 * m\<bar> < 255 \<and>
      2 ^ s * 2 ^ 23 \<le> m * 255 * 2 ^ t \<and> m * 255 * 2 ^ t < 2 ^ s * 2 ^ 24 \<and>
      2 * \<bar>m * 255 * 2 ^ t - 2 ^ s * (n * 2 ^ t)\<bar> < 2 ^ s)"

lemma channel_exact_all: "list_all channel_exact [1..255]"
  by code_simp

lemma channel_roundtrip: "n < 256 \<Longrightarrow> fl 24 (byte_channel n * 255) = of_nat n"
proof (cases "n = 0")
  case False
  assume "n < 256"
  with False have "int n \<in> set [1..255]" by simp
  then have "channel_exact (int n)" using channel_exact_all by (simp only: list_all_iff)
  then obtain s m t where c: "255 * 2 ^ (24 - 1) \<le> int n * 2 ^ s" "int n * 2 ^ s < 255 * 2 ^ 24"
    "2 * \<bar>int n * 2 ^ s - 255 * m\<bar> < 255"
    "2 ^ s * 2 ^ (24 - 1) \<le> m * 255 * 2 ^ t" "m * 255 * 2 ^ t < 2 ^ s * 2 ^ 24"
    "2 * \<bar>m * 255 * 2 ^ t - 2 ^ s * (int n * 2 ^ t)\<bar> < 2 ^ s"
    by (auto simp: channel_exact_def Let_def)
  have "byte_channel n = of_int m / 2 ^ s"
    using fl_fraction [of 255 24 "int n" s m] c(1-3) by (simp add: byte_channel_def)
  then have "byte_channel n * 255 = of_int (m * 255) / of_int (2 ^ s)" by simp
  moreover have "fl 24 (of_int (m * 255) / of_int (2 ^ s)) = of_int (int n * 2 ^ t) / 2 ^ t"
    using c(4-6) by (intro fl_fraction) simp_all
  ultimately show ?thesis by simp
qed (simp add: byte_channel_def fl_def)

lemma f32_as_u8_of_nat: "n < 256 \<Longrightarrow> f32_as_u8 (of_nat n) = of_nat n"
  by (simp add: f32_as_u8_def)

lemma and_255_less: "unat (and w 0xFF :: u32) < 256"
proof -
  have "and w 0xFF \<le> (0xFF :: u32)" by (rule word_and_le1)
  then show ?thesis by (simp add: word_le_nat_alt)
qed

text \<open>The bytes of a literal.\<close>

definition hex_bytes :: "u32 \<Rightarrow> u8 \<times> u8 \<times> u8" where
  "hex_bytes h = (ucast (drop_bit 16 h), ucast (drop_bit 8 h), ucast h)"

lemma ucast_and_255: "(ucast (and w 0xFF :: u32) :: u8) = ucast w"
proof -
  have "and w 0xFF = take_bit 8 w" by (simp add: take_bit_eq_mask mask_eq_exp_minus_1)
  then show ?thesis by (simp only:) (rule bit_word_eqI, simp add: bit_simps)
qed

text \<open>A channel of a literal and the opaque alpha, converted back to bytes.\<close>

lemma one_byte: "f32_as_u8 (fl 24 255) = 255"
  using channel_roundtrip [of 255] f32_as_u8_of_nat [of 255]
    fl_fraction [of 255 24 255 23 "2 ^ 23"] by (simp add: byte_channel_def)

lemma channel_byte: "f32_as_u8 (fl 24 (byte_channel (unat (and w 0xFF :: u32)) * 255)) = ucast w"
proof -
  have "f32_as_u8 (fl 24 (byte_channel (unat (and w 0xFF :: u32)) * 255)) = of_nat (unat (and w 0xFF))"
    by (simp only: channel_roundtrip [OF and_255_less] f32_as_u8_of_nat [OF and_255_less])
  also have "\<dots> = ucast w" by (simp only: of_nat_unat ucast_and_255)
  finally show ?thesis .
qed

section \<open>Properties\<close>

text \<open>
  C39: every colour given by a hexadecimal literal is drawn with exactly the bytes of the
  literal: the two roundings and the truncation of the conversion to \<open>f32\<close> and back lose nothing.
\<close>

theorem hex_color_roundtrip:
  "to_u8 (from_hex h) = (case hex_bytes h of (r, g, b) \<Rightarrow> (r, g, b, 255))"
  by (simp add: to_u8_def from_hex_def rgba_def hex_bytes_def channel_byte one_byte)

end
