(* ===== verification/Canvas.thy ===== *)
theory Canvas
  imports Color
begin

text \<open>
  The software drawing primitives: \<open>clear\<close>, \<open>fill_rect\<close>, \<open>hline\<close> and \<open>vline\<close> of
  \<open>crates/wlcommon/src/shm.rs\<close> and the copies of the first three in
  \<open>crates/frame/src/panel/mod.rs\<close>. A pixel buffer is the list of its bytes, four per pixel in
  the order blue, green, red, alpha; an index out of range is a panic (\<^const>\<open>None\<close>).
\<close>

section \<open>Cells\<close>

text \<open>
  \<open>paint_cell f px i\<close> replaces the four bytes at \<open>i\<close>: byte \<open>k\<close> of the cell becomes \<open>f k\<close> of its
  old value.
\<close>

definition paint_cell :: "(nat \<Rightarrow> u8 \<Rightarrow> u8) \<Rightarrow> nat \<Rightarrow> u8 list \<Rightarrow> u8 list option" where
  "paint_cell f i px =
     (if i + 3 < length px
      then Some (px[i := f 0 (px ! i), i + 1 := f 1 (px ! (i + 1)), i + 2 := f 2 (px ! (i + 2)),
                    i + 3 := f 3 (px ! (i + 3))])
      else None)"

text \<open>Writing the bytes of a colour, and blending them over the old ones with weight \<open>sa\<close>.\<close>

definition opaque_bytes :: "u8 \<Rightarrow> u8 \<Rightarrow> u8 \<Rightarrow> u8 \<Rightarrow> nat \<Rightarrow> u8 \<Rightarrow> u8" where
  "opaque_bytes r g b a k old = (if k = 0 then b else if k = 1 then g else if k = 2 then r else a)"

text \<open>The sums stay below \<open>2 ^ 16\<close>, so the \<open>u32\<close> arithmetic of the code is exact.\<close>

definition blend_byte :: "nat \<Rightarrow> u8 \<Rightarrow> u8 \<Rightarrow> u8" where
  "blend_byte sa src dst = of_nat ((unat dst * (255 - sa) + unat src * sa) div 255)"

definition blend_bytes :: "nat \<Rightarrow> u8 \<Rightarrow> u8 \<Rightarrow> u8 \<Rightarrow> nat \<Rightarrow> u8 \<Rightarrow> u8" where
  "blend_bytes sa r g b k old =
     (if k = 0 then blend_byte sa b old else if k = 1 then blend_byte sa g old
      else if k = 2 then blend_byte sa r old else 255)"

section \<open>The primitives\<close>

text \<open>\<open>while i + 3 < pixels.len()\<close>.\<close>

function clear_loop :: "(nat \<Rightarrow> u8 \<Rightarrow> u8) \<Rightarrow> nat \<Rightarrow> u8 list \<Rightarrow> u8 list" where
  "clear_loop f i px =
     (if i + 3 < length px then clear_loop f (i + 4) (the (paint_cell f i px)) else px)"
  by auto

termination
  by (relation "measure (\<lambda>(f, i, px). length px - i)") (auto simp: paint_cell_def)

declare clear_loop.simps [simp del]

definition clear :: "color \<Rightarrow> u8 list \<Rightarrow> u8 list" where
  "clear c px = (case to_u8 c of (r, g, b, a) \<Rightarrow> clear_loop (opaque_bytes r g b a) 0 px)"

text \<open>The clipped range of one axis.\<close>

definition clip_lo :: "i32 \<Rightarrow> nat" where
  "clip_lo x = i32_clamp0 x"

definition clip_hi :: "i32 \<Rightarrow> u32 \<Rightarrow> u32 \<Rightarrow> nat" where
  "clip_hi x w buf_w = i32_clamp0 (min (i32_saturating_add x (u32_as_i32 w)) (u32_as_i32 buf_w))"

definition fill_rows ::
  "(nat \<Rightarrow> u8 \<Rightarrow> u8) \<Rightarrow> nat \<Rightarrow> nat \<Rightarrow> nat \<Rightarrow> nat \<Rightarrow> nat \<Rightarrow> u8 list \<Rightarrow> u8 list option" where
  "fill_rows f stride x0 x1 y0 y1 px =
     fold_opt (\<lambda>py px. fold_opt (\<lambda>pxx px. paint_cell f (py * stride + pxx * 4) px) [x0..<x1] px)
       [y0..<y1] px"

definition fill_rect ::
  "nat \<Rightarrow> u32 \<Rightarrow> u32 \<Rightarrow> i32 \<Rightarrow> i32 \<Rightarrow> u32 \<Rightarrow> u32 \<Rightarrow> color \<Rightarrow> u8 list \<Rightarrow> u8 list option" where
  "fill_rect stride buf_w buf_h x y w h c px =
     (case to_u8 c of (r, g, b, a) \<Rightarrow>
        let x0 = clip_lo x; y0 = clip_lo y; x1 = clip_hi x w buf_w; y1 = clip_hi y h buf_h in
        if x1 \<le> x0 \<or> y1 \<le> y0 then Some px
        else if a = 255 then fill_rows (opaque_bytes r g b 255) stride x0 x1 y0 y1 px
        else fill_rows (blend_bytes (unat a) r g b) stride x0 x1 y0 y1 px)"

definition hline ::
  "nat \<Rightarrow> u32 \<Rightarrow> u32 \<Rightarrow> i32 \<Rightarrow> i32 \<Rightarrow> i32 \<Rightarrow> color \<Rightarrow> u8 list \<Rightarrow> u8 list option" where
  "hline stride buf_w buf_h y x0 x1 c px =
     (if x1 \<le> x0 then Some px
      else fill_rect stride buf_w buf_h x0 y (i32_as_u32 (i32_wrap (x1 - x0))) 1 c px)"

definition vline ::
  "nat \<Rightarrow> u32 \<Rightarrow> u32 \<Rightarrow> i32 \<Rightarrow> i32 \<Rightarrow> i32 \<Rightarrow> color \<Rightarrow> u8 list \<Rightarrow> u8 list option" where
  "vline stride buf_w buf_h x y0 y1 c px =
     (if y1 \<le> y0 then Some px
      else fill_rect stride buf_w buf_h x y0 1 (i32_as_u32 (i32_wrap (y1 - y0))) c px)"

section \<open>Well-sized buffers\<close>

definition buffer_ok :: "nat \<Rightarrow> u32 \<Rightarrow> u32 \<Rightarrow> u8 list \<Rightarrow> bool" where
  "buffer_ok stride buf_w buf_h px \<longleftrightarrow>
     stride = unat buf_w * 4 \<and> length px = stride * unat buf_h"

lemma clip_hi_le: "clip_hi x w buf_w \<le> unat buf_w"
proof -
  have "max (min (i32_saturating_add x (u32_as_i32 w)) (u32_as_i32 buf_w)) 0 \<le> int (unat buf_w)"
    using u32_as_i32_le [of buf_w] of_nat_0_le_iff [of "unat buf_w"] by linarith
  then show ?thesis by (simp only: clip_hi_def i32_clamp0_def nat_le_iff)
qed

lemma length_paint_cell: "paint_cell f i px = Some px' \<Longrightarrow> length px' = length px"
  by (auto simp: paint_cell_def split: if_splits)

lemma paint_cell_nth:
  assumes "i + 3 < length px" and "j < length px" and "4 dvd i"
  shows "the (paint_cell f i px) ! j = (if j div 4 = i div 4 then f (j mod 4) (px ! j) else px ! j)"
proof -
  from assms(3) obtain m where m: "i = 4 * m" by blast
  have divs: "Suc (4 * m) div 4 = m" "Suc (Suc (4 * m)) div 4 = m" "Suc (Suc (Suc (4 * m))) div 4 = m"
    "Suc (4 * m) mod 4 = 1" "Suc (Suc (4 * m)) mod 4 = 2" "Suc (Suc (Suc (4 * m))) mod 4 = 3"
    by presburger+
  have "j = 4 * (j div 4) + j mod 4" "j mod 4 < 4" by simp_all
  then consider "j div 4 \<noteq> m" | "j = i" | "j = i + 1" | "j = i + 2" | "j = i + 3"
    using m by linarith
  then show ?thesis
  proof cases
    case 1
    then have "j \<noteq> i" "j \<noteq> i + 1" "j \<noteq> i + 2" "j \<noteq> i + 3" by (auto simp: m)
    with 1 show ?thesis using assms(1) by (simp add: paint_cell_def m)
  qed (use assms(1) m divs in \<open>simp_all add: paint_cell_def\<close>)
qed

text \<open>
  Painting a list of different cells changes each of them once, and nothing else.
\<close>

lemma paint_cells:
  assumes "distinct is" and "\<forall>i \<in> set is. 4 dvd i \<and> i + 3 < length px"
  shows "\<exists>px'. fold_opt (paint_cell f) is px = Some px' \<and> length px' = length px \<and>
    (\<forall>j < length px. px' ! j =
       (if 4 * (j div 4) \<in> set is then f (j mod 4) (px ! j) else px ! j))"
  using assms
proof (induction "is" arbitrary: px)
  case (Cons i ks)
  then have i: "4 dvd i" "i + 3 < length px" by auto
  obtain px1 where p1: "paint_cell f i px = Some px1" using i(2) by (simp add: paint_cell_def)
  then have len: "length px1 = length px" by (rule length_paint_cell)
  obtain px' where px': "fold_opt (paint_cell f) ks px1 = Some px'" "length px' = length px1"
    "\<forall>j < length px1. px' ! j = (if 4 * (j div 4) \<in> set ks then f (j mod 4) (px1 ! j) else px1 ! j)"
    using Cons.IH [of px1] Cons.prems len by auto
  have "px' ! j = (if 4 * (j div 4) \<in> set (i # ks) then f (j mod 4) (px ! j) else px ! j)"
    if "j < length px" for j
  proof -
    have "px1 ! j = (if j div 4 = i div 4 then f (j mod 4) (px ! j) else px ! j)"
      using paint_cell_nth [OF i(2) that i(1), of f] p1 by simp
    moreover have "j div 4 = i div 4 \<longleftrightarrow> 4 * (j div 4) = i" using i(1) by auto
    ultimately show ?thesis using px'(3) that len Cons.prems(1) by auto
  qed
  with px' p1 len show ?case by simp
qed simp

section \<open>What the rectangle fill does\<close>

text \<open>The cells of a clipped rectangle.\<close>

definition rect_cells :: "nat \<Rightarrow> nat \<Rightarrow> nat \<Rightarrow> nat \<Rightarrow> nat \<Rightarrow> nat list" where
  "rect_cells stride x0 x1 y0 y1 =
     concat (map (\<lambda>py. map (\<lambda>pxx. py * stride + pxx * 4) [x0..<x1]) [y0..<y1])"

lemma fill_rows_cells: "fill_rows f stride x0 x1 y0 y1 px = fold_opt (paint_cell f) (rect_cells stride x0 x1 y0 y1) px"
  by (simp add: fill_rows_def rect_cells_def fold_opt_concat fold_opt_map)

lemma rect_cells_set:
  "set (rect_cells stride x0 x1 y0 y1) =
     {py * stride + pxx * 4 | py pxx. y0 \<le> py \<and> py < y1 \<and> x0 \<le> pxx \<and> pxx < x1}"
  by (auto simp: rect_cells_def) blast

lemma cell_coords:
  assumes "x < w" and "x' < w" and "y * (w * 4) + x * 4 = y' * (w * 4) + x' * (4 :: nat)"
  shows "x = x' \<and> y = y'"
proof -
  have "y * w + x = y' * w + x'" using assms(3) by (simp add: algebra_simps)
  then have "(y * w + x) div w = (y' * w + x') div w" "(y * w + x) mod w = (y' * w + x') mod w"
    by simp_all
  with assms(1,2) show ?thesis by simp
qed

lemma distinct_concat_map:
  assumes "distinct ys" and "\<And>y. y \<in> set ys \<Longrightarrow> distinct (g y)"
    and "\<And>y y'. y \<in> set ys \<Longrightarrow> y' \<in> set ys \<Longrightarrow> y \<noteq> y' \<Longrightarrow> set (g y) \<inter> set (g y') = {}"
  shows "distinct (concat (map g ys))"
  using assms
proof (induction ys)
  case (Cons y ys)
  then have "set (g y) \<inter> set (concat (map g ys)) = {}" by fastforce
  with Cons show ?case by simp
qed simp

lemma rect_cells_distinct:
  assumes "x1 \<le> w"
  shows "distinct (rect_cells (w * 4) x0 x1 y0 y1)"
proof -
  have "set (map (\<lambda>pxx. py * (w * 4) + pxx * 4) [x0..<x1]) \<inter>
      set (map (\<lambda>pxx. py' * (w * 4) + pxx * 4) [x0..<x1]) = {}" if "py \<noteq> py'" for py py'
    using that assms cell_coords [of _ w _ py py'] by fastforce
  then show ?thesis
    unfolding rect_cells_def
    by (intro distinct_concat_map) (auto simp: distinct_map inj_on_def)
qed

lemma rect_cells_inside:
  assumes "buffer_ok stride buf_w buf_h px" and "x1 \<le> unat buf_w" and "y1 \<le> unat buf_h"
  shows "\<forall>i \<in> set (rect_cells stride x0 x1 y0 y1). 4 dvd i \<and> i + 3 < length px"
proof
  fix i assume "i \<in> set (rect_cells stride x0 x1 y0 y1)"
  then obtain py pxx where i: "i = py * stride + pxx * 4" and b: "py < y1" "pxx < x1"
    by (auto simp: rect_cells_set)
  let ?w = "unat buf_w" and ?h = "unat buf_h"
  have st: "stride = ?w * 4" and len: "length px = stride * ?h"
    using assms(1) by (simp_all add: buffer_ok_def)
  have "Suc py \<le> ?h" and "pxx * 4 + 4 \<le> stride" using b assms(2,3) st by auto
  then have "Suc py * stride \<le> ?h * stride" by (simp only: mult_le_mono1)
  with \<open>pxx * 4 + 4 \<le> stride\<close> show "4 dvd i \<and> i + 3 < length px"
    by (auto simp: i len st mult.commute)
qed

text \<open>Inside a row, byte \<open>j\<close> belongs to the pixel in column \<open>j mod stride div 4\<close>.\<close>

definition px_col :: "nat \<Rightarrow> nat \<Rightarrow> nat" where "px_col stride j = j mod stride div 4"
definition px_row :: "nat \<Rightarrow> nat \<Rightarrow> nat" where "px_row stride j = j div stride"

lemma rect_cells_mem:
  assumes "0 < w" and "x1 \<le> w"
  shows "4 * (j div 4) \<in> set (rect_cells (w * 4) x0 x1 y0 y1) \<longleftrightarrow>
    x0 \<le> px_col (w * 4) j \<and> px_col (w * 4) j < x1 \<and> y0 \<le> px_row (w * 4) j \<and> px_row (w * 4) j < y1"
proof -
  let ?c = "px_col (w * 4) j" and ?r = "px_row (w * 4) j"
  have c: "?c < w" using assms(1) by (simp add: px_col_def less_mult_imp_div_less mult.commute)
  have j: "4 * (j div 4) = ?r * (w * 4) + ?c * 4"
  proof -
    have "j div 4 = (j div (w * 4) * (w * 4) + j mod (w * 4)) div 4"
      by (simp only: div_mult_mod_eq)
    also have "\<dots> = j div (w * 4) * w + j mod (w * 4) div 4"
      by (metis div_mult_self3 mult.assoc mult.commute zero_neq_numeral)
    finally show ?thesis by (simp add: px_col_def px_row_def algebra_simps)
  qed
  show ?thesis
  proof
    assume "4 * (j div 4) \<in> set (rect_cells (w * 4) x0 x1 y0 y1)"
    then obtain py pxx where e: "?r * (w * 4) + ?c * 4 = py * (w * 4) + pxx * 4"
      and b: "y0 \<le> py" "py < y1" "x0 \<le> pxx" "pxx < x1"
      unfolding rect_cells_set j by blast
    have "?c = pxx \<and> ?r = py" using b(4) assms(2) by (intro cell_coords [OF c _ e]) simp
    with b show "x0 \<le> ?c \<and> ?c < x1 \<and> y0 \<le> ?r \<and> ?r < y1" by simp
  next
    assume "x0 \<le> ?c \<and> ?c < x1 \<and> y0 \<le> ?r \<and> ?r < y1"
    then show "4 * (j div 4) \<in> set (rect_cells (w * 4) x0 x1 y0 y1)"
      unfolding rect_cells_set j by blast
  qed
qed

text \<open>
  The abstract view: a pixel is in the rectangle when its coordinates are between the edges, the
  far ones computed with the saturating addition; \<open>painted\<close> is the new value of its byte \<open>k\<close>.
\<close>

definition in_rect :: "i32 \<Rightarrow> i32 \<Rightarrow> u32 \<Rightarrow> u32 \<Rightarrow> nat \<Rightarrow> nat \<Rightarrow> bool" where
  "in_rect x y w h col row \<longleftrightarrow>
     x \<le> int col \<and> int col < i32_saturating_add x (u32_as_i32 w) \<and>
     y \<le> int row \<and> int row < i32_saturating_add y (u32_as_i32 h)"

definition painted :: "color \<Rightarrow> nat \<Rightarrow> u8 \<Rightarrow> u8" where
  "painted c k old = (case to_u8 c of (r, g, b, a) \<Rightarrow>
     if a = 255 then opaque_bytes r g b 255 k old else blend_bytes (unat a) r g b k old)"

lemma clip_mem:
  assumes "unat buf_w < 2 ^ 31" and "col < unat buf_w"
  shows "clip_lo x \<le> col \<and> col < clip_hi x w buf_w \<longleftrightarrow>
    x \<le> int col \<and> int col < i32_saturating_add x (u32_as_i32 w)"
proof -
  have b: "u32_as_i32 buf_w = int (unat buf_w)" by (rule u32_as_i32_small [OF assms(1)])
  have "clip_lo x \<le> col \<longleftrightarrow> max x 0 \<le> int col"
    by (simp only: clip_lo_def i32_clamp0_def nat_le_iff)
  moreover have "col < clip_hi x w buf_w \<longleftrightarrow>
      int col < max (min (i32_saturating_add x (u32_as_i32 w)) (int (unat buf_w))) 0"
    by (simp only: clip_hi_def i32_clamp0_def zless_nat_eq_int_zless b)
  ultimately show ?thesis using assms(2) by linarith
qed

lemma fill_rows_exact:
  assumes "buffer_ok stride buf_w buf_h px" and "x1 \<le> unat buf_w" and "y1 \<le> unat buf_h"
  shows "\<exists>px'. fill_rows f stride x0 x1 y0 y1 px = Some px' \<and> length px' = length px \<and>
    (\<forall>j < length px. px' ! j =
       (if x0 \<le> px_col stride j \<and> px_col stride j < x1 \<and> y0 \<le> px_row stride j \<and> px_row stride j < y1
        then f (j mod 4) (px ! j) else px ! j))"
proof (cases "unat buf_w = 0")
  case True
  then have "px = []" using assms(1) by (auto simp: buffer_ok_def)
  moreover have "rect_cells stride x0 x1 y0 y1 = []"
    using assms(2) True by (simp add: rect_cells_def map_replicate_const)
  ultimately show ?thesis by (simp add: fill_rows_cells)
next
  case False
  let ?cells = "rect_cells stride x0 x1 y0 y1"
  have st: "stride = unat buf_w * 4" using assms(1) by (simp add: buffer_ok_def)
  have "distinct ?cells" unfolding st by (rule rect_cells_distinct [OF assms(2)])
  from paint_cells [OF this rect_cells_inside [OF assms], of f] show ?thesis
    using rect_cells_mem [of "unat buf_w" x1 _ x0 y0 y1] assms(2) False
    unfolding fill_rows_cells st by simp
qed

section \<open>Operations on a canvas\<close>

text \<open>
  The contract every drawing operation keeps: on a buffer of the right size it does not panic
  and it returns a buffer of the same size. A frame is a sequence of such operations.
\<close>

locale canvas_op =
  fixes op :: "nat \<Rightarrow> u32 \<Rightarrow> u32 \<Rightarrow> u8 list \<Rightarrow> u8 list option"
  assumes op_total: "buffer_ok stride w h px \<Longrightarrow>
    \<exists>px'. op stride w h px = Some px' \<and> length px' = length px"
begin

lemma op_ok:
  "buffer_ok stride w h px \<Longrightarrow> \<exists>px'. op stride w h px = Some px' \<and> buffer_ok stride w h px'"
  using op_total by (fastforce simp: buffer_ok_def)

end

lemma fill_rect_total:
  assumes "buffer_ok stride buf_w buf_h px"
  shows "\<exists>px'. fill_rect stride buf_w buf_h x y w h c px = Some px' \<and> length px' = length px"
proof -
  have "\<exists>px'. fill_rows f stride (clip_lo x) (clip_hi x w buf_w) (clip_lo y) (clip_hi y h buf_h) px =
      Some px' \<and> length px' = length px" for f
    using fill_rows_exact [OF assms clip_hi_le clip_hi_le] by blast
  then show ?thesis by (simp add: fill_rect_def Let_def split: prod.splits)
qed

interpretation fill_op: canvas_op "\<lambda>stride bw bh px. fill_rect stride bw bh x y w h c px" for x y w h c
  by unfold_locales (rule fill_rect_total)

interpretation hline_op: canvas_op "\<lambda>stride bw bh px. hline stride bw bh y x0 x1 c px" for y x0 x1 c
  by unfold_locales (simp add: hline_def fill_rect_total)

interpretation vline_op: canvas_op "\<lambda>stride bw bh px. vline stride bw bh x y0 y1 c px" for x y0 y1 c
  by unfold_locales (simp add: vline_def fill_rect_total)

lemma length_clear_loop: "length (clear_loop f i px) = length px"
proof (induction f i px rule: clear_loop.induct)
  case (1 f i px)
  show ?case
  proof (cases "i + 3 < length px")
    case True
    then have "length (the (paint_cell f i px)) = length px" by (simp add: paint_cell_def)
    with True "1.IH" show ?thesis by (simp add: clear_loop.simps [of f i px])
  qed (simp add: clear_loop.simps)
qed

interpretation clear_op: canvas_op "\<lambda>stride bw bh px. Some (clear c px)" for c
  by unfold_locales (simp add: clear_def length_clear_loop split: prod.splits)

text \<open>The while loop paints every cell from \<open>i\<close> on that lies in the buffer.\<close>

lemma clear_loop_nth:
  "4 dvd i \<Longrightarrow> j < length px \<Longrightarrow> clear_loop f i px ! j =
     (if i \<le> j \<and> 4 * (j div 4) + 3 < length px then f (j mod 4) (px ! j) else px ! j)"
proof (induction f i px rule: clear_loop.induct)
  case (1 f i px)
  from "1.prems"(1) obtain m where m: "i = 4 * m" by blast
  show ?case
  proof (cases "i + 3 < length px")
    case True
    let ?p = "the (paint_cell f i px)"
    have len: "length ?p = length px" using True by (simp add: paint_cell_def)
    have "clear_loop f i px ! j = clear_loop f (i + 4) ?p ! j"
      using True by (simp add: clear_loop.simps [of f i px])
    also have "\<dots> = (if i + 4 \<le> j \<and> 4 * (j div 4) + 3 < length px then f (j mod 4) (?p ! j) else ?p ! j)"
      using "1.IH" [OF True] "1.prems" len by simp
    also have "?p ! j = (if j div 4 = i div 4 then f (j mod 4) (px ! j) else px ! j)"
      using paint_cell_nth [OF True _ "1.prems"(1)] "1.prems"(2) by blast
    finally have e: "clear_loop f i px ! j =
        (if i + 4 \<le> j \<and> 4 * (j div 4) + 3 < length px
         then f (j mod 4) (if j div 4 = m then f (j mod 4) (px ! j) else px ! j)
         else if j div 4 = m then f (j mod 4) (px ! j) else px ! j)" by (simp add: m)
    have "j = 4 * (j div 4) + j mod 4" "j mod 4 < 4" by simp_all
    then consider "j div 4 < m" "j < i" | "j div 4 = m" "i \<le> j" "j < i + 4" | "m < j div 4" "i + 4 \<le> j"
      using m by linarith
    then show ?thesis
    proof cases
      case 2
      then show ?thesis using True m unfolding e by simp
    qed (auto simp: e)
  next
    case False
    then have "\<not> (i \<le> j \<and> 4 * (j div 4) + 3 < length px)"
      unfolding m by presburger
    with False show ?thesis by (auto simp: clear_loop.simps)
  qed
qed

lemma blend_range:
  assumes "sa \<le> 255"
  shows "min (unat src) (unat dst) \<le> unat (blend_byte sa src dst) \<and>
    unat (blend_byte sa src dst) \<le> max (unat src) (unat dst)"
proof -
  let ?s = "unat src" and ?d = "unat dst"
  let ?v = "(?d * (255 - sa) + ?s * sa) div 255"
  have lt: "?s < 256" "?d < 256" using unsigned_less [of src] unsigned_less [of dst] by simp_all
  have lo: "min ?s ?d * 255 \<le> ?d * (255 - sa) + ?s * sa"
    and hi: "?d * (255 - sa) + ?s * sa \<le> max ?s ?d * 255"
  proof -
    have split: "x * 255 = x * (255 - sa) + x * sa" for x :: nat
      using assms by (simp flip: distrib_left)
    show "min ?s ?d * 255 \<le> ?d * (255 - sa) + ?s * sa"
      unfolding split [of "min ?s ?d"] by (intro add_mono mult_le_mono1) simp_all
    show "?d * (255 - sa) + ?s * sa \<le> max ?s ?d * 255"
      unfolding split [of "max ?s ?d"] by (intro add_mono mult_le_mono1) simp_all
  qed
  have "min ?s ?d \<le> ?v" using lo by (simp add: less_eq_div_iff_mult_less_eq)
  moreover have "?v \<le> max ?s ?d" using hi by (metis div_le_mono nonzero_mult_div_cancel_right zero_neq_numeral)
  moreover from this have "?v < 256" using lt by linarith
  ultimately show ?thesis by (simp add: blend_byte_def unat_of_nat)
qed

section \<open>Properties\<close>

text \<open>
  C40: filling a rectangle is exact on a buffer of the right size: it does not panic, every pixel
  of the buffer that lies in the rectangle gets the colour (written, or blended once when it is
  not opaque), and every other byte keeps its value, whatever the position and the size of the
  rectangle.
\<close>

theorem fill_rect_exact:
  assumes "buffer_ok stride buf_w buf_h px" and "unat buf_w < 2 ^ 31" and "unat buf_h < 2 ^ 31"
  shows "\<exists>px'. fill_rect stride buf_w buf_h x y w h c px = Some px' \<and> length px' = length px \<and>
    (\<forall>j < length px. px' ! j =
       (if in_rect x y w h (px_col stride j) (px_row stride j)
        then painted c (j mod 4) (px ! j) else px ! j))"
proof -
  let ?x0 = "clip_lo x" and ?x1 = "clip_hi x w buf_w" and ?y0 = "clip_lo y" and ?y1 = "clip_hi y h buf_h"
  have st: "stride = unat buf_w * 4" and len: "length px = stride * unat buf_h"
    using assms(1) by (simp_all add: buffer_ok_def)
  have mem: "?x0 \<le> px_col stride j \<and> px_col stride j < ?x1 \<and> ?y0 \<le> px_row stride j \<and> px_row stride j < ?y1 \<longleftrightarrow>
      in_rect x y w h (px_col stride j) (px_row stride j)" if "j < length px" for j
  proof -
    have "0 < stride" using that len by (cases stride) auto
    then have "px_col stride j < unat buf_w"
      by (simp add: px_col_def st less_mult_imp_div_less mult.commute)
    moreover have "px_row stride j < unat buf_h"
      using that len by (simp add: px_row_def less_mult_imp_div_less mult.commute)
    ultimately show ?thesis
      using clip_mem [OF assms(2), of _ x w] clip_mem [OF assms(3), of _ y h]
      unfolding in_rect_def by blast
  qed
  obtain r g b a where c: "to_u8 c = (r, g, b, a)" by (cases "to_u8 c")
  let ?f = "if a = 255 then opaque_bytes r g b 255 else blend_bytes (unat a) r g b"
  have p: "painted c k old = ?f k old" for k old by (simp add: painted_def c)
  have outside: "\<not> (?x0 \<le> u \<and> u < ?x1 \<and> ?y0 \<le> v \<and> v < ?y1)" if "?x1 \<le> ?x0 \<or> ?y1 \<le> ?y0" for u v
    using that by (auto simp: not_less)
  show ?thesis
  proof (cases "?x1 \<le> ?x0 \<or> ?y1 \<le> ?y0")
    case True
    then have "fill_rect stride buf_w buf_h x y w h c px = Some px"
      by (simp add: fill_rect_def c)
    moreover have "\<not> in_rect x y w h (px_col stride j) (px_row stride j)" if "j < length px" for j
      unfolding mem [OF that, symmetric] by (rule outside [OF True])
    ultimately show ?thesis by simp
  next
    case False
    then have "fill_rect stride buf_w buf_h x y w h c px = fill_rows ?f stride ?x0 ?x1 ?y0 ?y1 px"
      by (simp add: fill_rect_def c Let_def)
    with fill_rows_exact [OF assms(1) clip_hi_le clip_hi_le, of ?f ?x0 x w ?y0 y h] show ?thesis
      by (auto simp: mem p)
  qed
qed

theorem fill_rect_exact_witness:
  "\<exists>px'. fill_rect 8 2 1 1 (- 5) 1000 9 ACCENT (replicate 8 0) = Some px' \<and> length px' = 8"
  using fill_rect_exact [of 8 2 1 "replicate 8 0" 1 "- 5" 1000 9 ACCENT]
  by (auto simp: buffer_ok_def)

text \<open>
  Clearing gives every pixel of a buffer of whole pixels the bytes of the colour.
\<close>

lemma clear_exact:
  assumes "4 dvd length px"
  shows "length (clear c px) = length px \<and>
    (\<forall>j < length px. clear c px ! j =
       (case to_u8 c of (r, g, b, a) \<Rightarrow> opaque_bytes r g b a (j mod 4) (px ! j)))"
proof -
  have "4 * (j div 4) + 3 < length px" if "j < length px" for j
    using assms that by presburger
  then show ?thesis
    by (simp add: clear_def length_clear_loop clear_loop_nth split: prod.splits)
qed

text \<open>
  Blending never overshoots: every channel of the result lies between the old value and the
  colour, for every weight.
\<close>

lemma blend_between:
  assumes "sa \<le> 255"
  shows "min (unat src) (unat dst) \<le> unat (blend_byte sa src dst) \<and>
    unat (blend_byte sa src dst) \<le> max (unat src) (unat dst)"
  by (rule blend_range [OF assms])

end
