(* ===== verification/Text.thy ===== *)
theory Text
  imports Canvas
begin

text \<open>
  \<open>crates/theme/src/text.rs\<close>: the search for font files, the glyph cache and the two text
  operations. The rasterizer (the \<open>fontdue\<close> crate) is a parameter: \<open>rast i ch px\<close> is the glyph of
  the character in font \<open>i\<close> at size \<open>px\<close>. What the code relies on is that a glyph's coverage
  bitmap has \<open>width * height\<close> entries.
\<close>

section \<open>Font files\<close>

text \<open>
  \<open>load_candidate\<close>: the first file that can be read, under the base directory and then under the
  system directories. \<open>read\<close> is \<open>std::fs::read\<close>.
\<close>

definition system_dirs :: "rstring list" where
  "system_dirs = [lit ''/usr/share/fonts/truetype'', lit ''/usr/share/fonts/opentype'',
     lit ''/usr/share/fonts'', lit ''/usr/local/share/fonts'']"

fun first_readable :: "(rstring \<Rightarrow> 'b option) \<Rightarrow> rstring list \<Rightarrow> 'b option" where
  "first_readable read [] = None"
| "first_readable read (p # ps) =
     (case read p of Some bytes \<Rightarrow> Some bytes | None \<Rightarrow> first_readable read ps)"

definition load_candidate :: "(rstring \<Rightarrow> 'b option) \<Rightarrow> rstring \<Rightarrow> rstring list \<Rightarrow> 'b option" where
  "load_candidate read base names =
     (case first_readable read (map (path_join base) names) of
        Some bytes \<Rightarrow> Some bytes
      | None \<Rightarrow> first_readable read
          (concat (map (\<lambda>dir. map (path_join dir) names) system_dirs)))"

text \<open>\<open>Fonts::from_bytes\<close>; \<open>parse\<close> is \<open>Font::from_bytes\<close>. The result holds the three fonts.\<close>

definition fonts_from_bytes where
  "fonts_from_bytes parse r m k =
     (case parse r of None \<Rightarrow> None
      | Some fr \<Rightarrow> (case parse m of None \<Rightarrow> None
        | Some fm \<Rightarrow> (case parse k of None \<Rightarrow> None | Some fk \<Rightarrow> Some (fr, fm, fk))))"

definition load_from_candidates where
  "load_from_candidates read parse base =
     (case load_candidate read base
             [lit ''Inter-Regular.ttf'', lit ''inter/Inter-Regular.ttf'', lit ''Inter/Inter-Regular.ttf''] of
        None \<Rightarrow> None
      | Some regular \<Rightarrow>
          (let medium = (case load_candidate read base
                 [lit ''Inter-Medium.ttf'', lit ''inter/Inter-Medium.ttf'', lit ''Inter/Inter-Medium.ttf''] of
               Some m \<Rightarrow> m | None \<Rightarrow> regular)
           in case load_candidate read base
                 [lit ''JetBrainsMono-Regular.ttf'', lit ''jetbrains-mono/JetBrainsMono-Regular.ttf'',
                  lit ''JetBrainsMono/JetBrainsMono-Regular.ttf''] of
                None \<Rightarrow> None
              | Some monof \<Rightarrow> fonts_from_bytes parse regular medium monof))"

section \<open>Glyphs\<close>

record glyph =
  gl_width :: nat
  gl_height :: nat
  gl_xmin :: i32
  gl_ymin :: i32
  gl_advance :: rat
  gl_bitmap :: "u8 list"

datatype font_variant = Regular | Medium | Mono

fun font_idx :: "font_variant \<Rightarrow> nat" where
  "font_idx Regular = 0"
| "font_idx Medium = 1"
| "font_idx Mono = 2"

type_synonym glyph_key = "rchar \<times> nat \<times> int"
type_synonym glyph_cache = "glyph_key \<Rightarrow> glyph option"
type_synonym rasterizer = "nat \<Rightarrow> rchar \<Rightarrow> rat \<Rightarrow> glyph"

text \<open>The size in half pixels, \<open>(px * 2.0).round() as u32\<close>.\<close>

definition size_key :: "rat \<Rightarrow> int" where
  "size_key px = max 0 (min (2 ^ 32 - 1) (round_away (fl 24 (px * 2))))"

definition get_or_rasterize ::
  "rasterizer \<Rightarrow> nat \<Rightarrow> rchar \<Rightarrow> rat \<Rightarrow> glyph_cache \<Rightarrow> glyph \<times> glyph_cache" where
  "get_or_rasterize rast i ch px cache =
     (let key = (ch, i, size_key px) in
      case cache key of
        Some g \<Rightarrow> (g, cache)
      | None \<Rightarrow> (let g = rast i ch px in (g, cache(key \<mapsto> g))))"

text \<open>\<open>advance_width as i32\<close>.\<close>

definition f32_as_i32 :: "rat \<Rightarrow> i32" where
  "f32_as_i32 x = sat_i32 (if 0 \<le> x then \<lfloor>x\<rfloor> else \<lceil>x\<rceil>)"

section \<open>Drawing\<close>

definition draw_glyph ::
  "nat \<Rightarrow> u32 \<Rightarrow> u32 \<Rightarrow> i32 \<Rightarrow> i32 \<Rightarrow> u8 \<times> u8 \<times> u8 \<Rightarrow> glyph \<Rightarrow> u8 list \<Rightarrow> u8 list option" where
  "draw_glyph stride buf_w buf_h glyph_left glyph_top tint m px =
     (case tint of (fr, fg, fb) \<Rightarrow>
      fold_opt (\<lambda>row px.
        let py = i32_wrap (glyph_top + int row) in
        if py < 0 \<or> u32_as_i32 buf_h \<le> py then Some px
        else fold_opt (\<lambda>col px.
          let pxx = i32_wrap (glyph_left + int col) in
          if pxx < 0 \<or> u32_as_i32 buf_w \<le> pxx then Some px
          else if row * gl_width m + col < length (gl_bitmap m)
          then (let coverage = gl_bitmap m ! (row * gl_width m + col) in
                if coverage = 0 then Some px
                else paint_cell (blend_bytes (unat coverage) fr fg fb) (nat py * stride + nat pxx * 4) px)
          else None) [0..<gl_width m] px) [0..<gl_height m] px)"

definition draw_char ::
  "rasterizer \<Rightarrow> nat \<Rightarrow> u32 \<Rightarrow> u32 \<Rightarrow> i32 \<Rightarrow> rat \<Rightarrow> u8 \<times> u8 \<times> u8 \<Rightarrow> nat \<Rightarrow> rchar \<Rightarrow>
   glyph_cache \<times> i32 \<times> u8 list \<Rightarrow> (glyph_cache \<times> i32 \<times> u8 list) option" where
  "draw_char rast stride buf_w buf_h y fsz tint i ch = (\<lambda>(cache, cursor_x, px).
     let (m, cache') = get_or_rasterize rast i ch fsz cache;
         next_x = i32_wrap (cursor_x + f32_as_i32 (gl_advance m)) in
     if gl_width m = 0 then Some (cache', next_x, px)
     else (let glyph_top = i32_wrap (y - gl_ymin m - int (gl_height m));
               glyph_left = i32_wrap (cursor_x + gl_xmin m)
           in map_option (\<lambda>px'. (cache', next_x, px'))
                (draw_glyph stride buf_w buf_h glyph_left glyph_top tint m px)))"

text \<open>The result is the cache, the buffer and the width that \<open>draw_text\<close> returns.\<close>

definition draw_text ::
  "rasterizer \<Rightarrow> glyph_cache \<Rightarrow> nat \<Rightarrow> u32 \<Rightarrow> u32 \<Rightarrow> i32 \<Rightarrow> i32 \<Rightarrow> rstring \<Rightarrow> rat \<Rightarrow> color \<Rightarrow>
   font_variant \<Rightarrow> u8 list \<Rightarrow> (glyph_cache \<times> u8 list \<times> i32) option" where
  "draw_text rast cache stride buf_w buf_h x y txt fsz c variant px =
     (case to_u8 c of (fr, fg, fb, _) \<Rightarrow>
        map_option (\<lambda>(cache', cursor_x, px'). (cache', px', i32_wrap (cursor_x - x)))
          (fold_opt (draw_char rast stride buf_w buf_h y fsz (fr, fg, fb) (font_idx variant)) txt
             (cache, x, px)))"

fun measure_loop ::
  "rasterizer \<Rightarrow> nat \<Rightarrow> rat \<Rightarrow> rstring \<Rightarrow> glyph_cache \<Rightarrow> i32 \<Rightarrow> glyph_cache \<times> i32" where
  "measure_loop rast i fsz [] cache w = (cache, w)"
| "measure_loop rast i fsz (ch # txt) cache w =
     (case get_or_rasterize rast i ch fsz cache of
        (g, cache') \<Rightarrow> measure_loop rast i fsz txt cache' (i32_wrap (w + f32_as_i32 (gl_advance g))))"

definition measure_text ::
  "rasterizer \<Rightarrow> glyph_cache \<Rightarrow> rstring \<Rightarrow> rat \<Rightarrow> font_variant \<Rightarrow> glyph_cache \<times> i32" where
  "measure_text rast cache txt fsz variant = measure_loop rast (font_idx variant) fsz txt cache 0"

section \<open>Well-formed glyphs\<close>

definition glyph_ok :: "glyph \<Rightarrow> bool" where
  "glyph_ok g \<longleftrightarrow> length (gl_bitmap g) = gl_width g * gl_height g"

definition rast_ok :: "rasterizer \<Rightarrow> bool" where
  "rast_ok rast \<longleftrightarrow> (\<forall>i ch px. glyph_ok (rast i ch px))"

definition cache_ok :: "glyph_cache \<Rightarrow> bool" where
  "cache_ok cache \<longleftrightarrow> (\<forall>k g. cache k = Some g \<longrightarrow> glyph_ok g)"

lemma get_or_rasterize_ok:
  assumes "rast_ok rast" and "cache_ok cache" and "get_or_rasterize rast i ch px cache = (g, cache')"
  shows "glyph_ok g \<and> cache_ok cache'"
  using assms
  by (auto simp: get_or_rasterize_def Let_def rast_ok_def cache_ok_def split: option.splits if_splits)

lemma cell_inside:
  assumes "buffer_ok stride buf_w buf_h px"
    and "0 \<le> py" "py < u32_as_i32 buf_h" and "0 \<le> pxx" "pxx < u32_as_i32 buf_w"
  shows "nat py * stride + nat pxx * 4 + 3 < length px"
proof -
  have "nat pxx < unat buf_w" "nat py < unat buf_h"
    using assms(2-5) u32_as_i32_le [of buf_w] u32_as_i32_le [of buf_h] by linarith+
  then have "Suc (nat py) \<le> unat buf_h" and "nat pxx * 4 + 4 \<le> unat buf_w * 4" by simp_all
  moreover from this(1) have "Suc (nat py) * stride \<le> unat buf_h * stride" by (rule mult_le_mono1)
  ultimately have "Suc (nat py) * stride \<le> unat buf_h * stride" and "nat pxx * 4 + 4 \<le> unat buf_w * 4"
    by simp_all
  with assms(1) show ?thesis by (simp add: buffer_ok_def mult.commute)
qed

lemma draw_glyph_total:
  assumes "buffer_ok stride buf_w buf_h px" and "glyph_ok m"
  shows "\<exists>px'. draw_glyph stride buf_w buf_h l t tint m px = Some px' \<and> length px' = length px"
proof -
  obtain fr fg fb where tint: "tint = (fr, fg, fb)" by (cases tint)
  have idx: "row * gl_width m + col < length (gl_bitmap m)"
    if "row < gl_height m" "col < gl_width m" for row col
  proof -
    have "row * gl_width m + col < Suc row * gl_width m" using that(2) by simp
    also have "\<dots> \<le> gl_height m * gl_width m" using that(1) by (intro mult_le_mono1) simp
    finally show ?thesis using assms(2) by (simp add: glyph_ok_def mult.commute)
  qed
  have cell: "\<exists>q. paint_cell f (nat py * stride + nat pxx * 4) p = Some q \<and> length q = length px"
    if "length p = length px" "0 \<le> py" "py < u32_as_i32 buf_h" "0 \<le> pxx" "pxx < u32_as_i32 buf_w"
    for f p py pxx
    using cell_inside [OF assms(1) that(2-5)] that(1) by (simp add: paint_cell_def)
  show ?thesis
    unfolding draw_glyph_def tint prod.case
    by (intro fold_opt_total [where I = "\<lambda>p. length p = length px"])
       (auto simp: Let_def idx not_le not_less intro!: cell
          fold_opt_total [where I = "\<lambda>p. length p = length px"])
qed

lemma draw_char_total:
  assumes "rast_ok rast" and "cache_ok cache" and "buffer_ok stride buf_w buf_h px"
  shows "\<exists>cache' x' px'. draw_char rast stride buf_w buf_h y fsz tint i ch (cache, x, px) =
      Some (cache', x', px') \<and> cache_ok cache' \<and> length px' = length px"
proof -
  obtain m cache' where g: "get_or_rasterize rast i ch fsz cache = (m, cache')" by fastforce
  with get_or_rasterize_ok [OF assms(1,2)] have ok: "glyph_ok m" "cache_ok cache'" by auto
  then show ?thesis
    using draw_glyph_total [OF assms(3) ok(1)] by (fastforce simp: draw_char_def g Let_def)
qed

lemma draw_chars_total:
  assumes "rast_ok rast"
  shows "cache_ok cache \<Longrightarrow> buffer_ok stride buf_w buf_h px \<Longrightarrow>
    \<exists>cache' x' px'. fold_opt (draw_char rast stride buf_w buf_h y fsz tint i) txt (cache, x, px) =
      Some (cache', x', px') \<and> cache_ok cache' \<and> length px' = length px"
proof (induction "txt" arbitrary: cache x px)
  case (Cons ch cs)
  obtain cache1 x1 px1 where 1: "draw_char rast stride buf_w buf_h y fsz tint i ch (cache, x, px) =
      Some (cache1, x1, px1)" "cache_ok cache1" "length px1 = length px"
    using draw_char_total [OF assms Cons.prems] by blast
  with Cons.prems(2) have "buffer_ok stride buf_w buf_h px1" by (simp add: buffer_ok_def)
  from Cons.IH [OF 1(2) this, of x1] 1 show ?case by auto
qed simp

lemma draw_measure:
  assumes "fold_opt (draw_char rast stride buf_w buf_h y fsz tint i) txt (cache, x, px) = Some (cache', x', px')"
  shows "\<exists>w'. measure_loop rast i fsz txt cache w = (cache', w') \<and>
    (x' - x) mod 2 ^ 32 = (w' - w) mod (2 ^ 32 :: int) \<and>
    (i32_min \<le> w \<and> w \<le> i32_max \<longrightarrow> i32_min \<le> w' \<and> w' \<le> i32_max)"
  using assms
proof (induction "txt" arbitrary: cache x px w)
  case (Cons ch cs)
  obtain m cache1 where g: "get_or_rasterize rast i ch fsz cache = (m, cache1)" by fastforce
  let ?a = "f32_as_i32 (gl_advance m)"
  from Cons.prems obtain r where r: "draw_char rast stride buf_w buf_h y fsz tint i ch (cache, x, px) = Some r"
      "fold_opt (draw_char rast stride buf_w buf_h y fsz tint i) cs r = Some (cache', x', px')"
    by (auto split: option.splits)
  from r(1) obtain px1 where "r = (cache1, i32_wrap (x + ?a), px1)"
    by (auto simp: draw_char_def g Let_def split: if_splits)
  with r have
    step: "draw_char rast stride buf_w buf_h y fsz tint i ch (cache, x, px) =
        Some (cache1, i32_wrap (x + ?a), px1)"
    and rest: "fold_opt (draw_char rast stride buf_w buf_h y fsz tint i) cs
        (cache1, i32_wrap (x + ?a), px1) = Some (cache', x', px')"
    by simp_all
  from Cons.IH [OF rest, of "i32_wrap (w + ?a)"] i32_wrap_range [of "w + ?a"] obtain w' where
    w': "measure_loop rast i fsz cs cache1 (i32_wrap (w + ?a)) = (cache', w')"
    "(x' - i32_wrap (x + ?a)) mod 2 ^ 32 = (w' - i32_wrap (w + ?a)) mod (2 ^ 32 :: int)"
    "i32_min \<le> w' \<and> w' \<le> i32_max" by blast
  have "(x' - (x + ?a)) mod 2 ^ 32 = (w' - (w + ?a)) mod (2 ^ 32 :: int)"
    using w'(2) by (metis i32_wrap_mod mod_diff_right_eq)
  then have "(x' - (x + ?a) + ?a) mod 2 ^ 32 = (w' - (w + ?a) + ?a) mod (2 ^ 32 :: int)"
    by (rule mod_add_cong) simp
  then have "(x' - x) mod 2 ^ 32 = (w' - w) mod (2 ^ 32 :: int)" by simp
  with w' show ?case by (simp add: g)
qed auto

lemma draw_text_ok:
  assumes "rast_ok rast" and "cache_ok cache" and "buffer_ok stride buf_w buf_h px"
  shows "\<exists>cache' px' w. draw_text rast cache stride buf_w buf_h x y txt fsz c variant px = Some (cache', px', w) \<and>
    length px' = length px \<and> cache_ok cache' \<and> measure_text rast cache txt fsz variant = (cache', w)"
proof -
  obtain fr fg fb fa where c: "to_u8 c = (fr, fg, fb, fa)" by (cases "to_u8 c")
  obtain cache' x' px' where d: "fold_opt (draw_char rast stride buf_w buf_h y fsz (fr, fg, fb)
      (font_idx variant)) txt (cache, x, px) = Some (cache', x', px')"
    "cache_ok cache'" "length px' = length px"
    using draw_chars_total [OF assms] by blast
  obtain w' where w': "measure_loop rast (font_idx variant) fsz txt cache 0 = (cache', w')"
    "(x' - x) mod 2 ^ 32 = (w' - 0) mod (2 ^ 32 :: int)" "i32_min \<le> w' \<and> w' \<le> i32_max"
    using draw_measure [OF d(1), of 0] by (auto simp: i32_min_def i32_max_def)
  have "i32_wrap (x' - x) = w'"
    using i32_wrap_cong [of "x' - x" w'] w'(2,3) by (simp add: i32_wrap_id)
  with d w' show ?thesis by (simp add: draw_text_def c measure_text_def)
qed

section \<open>Properties\<close>

text \<open>
  Drawing text is safe wherever it is placed: on a buffer of the right size it never
  panics and keeps the size, glyphs that stick out are clipped, and the width it returns is the
  one \<open>measure_text\<close> gives for the same text, with the same effect on the glyph cache.
\<close>

lemma draw_text_total:
  assumes "rast_ok rast" and "cache_ok cache" and "buffer_ok stride buf_w buf_h px"
  shows "\<exists>cache' px' w. draw_text rast cache stride buf_w buf_h x y txt fsz c variant px = Some (cache', px', w) \<and>
    length px' = length px \<and> cache_ok cache' \<and> measure_text rast cache txt fsz variant = (cache', w)"
  by (rule draw_text_ok [OF assms])

definition box_rasterizer :: rasterizer where
  "box_rasterizer i ch px = \<lparr>gl_width = 2, gl_height = 3, gl_xmin = 0, gl_ymin = 0, gl_advance = 5 / 2,
     gl_bitmap = replicate 6 200\<rparr>"

end
