(* ===== verification/Shm_Pool.thy ===== *)
theory Shm_Pool
  imports Canvas
begin

text \<open>
  Shared-memory buffers of the Wayland clients: \<open>crates/wlcommon/src/shm.rs\<close> (allocation,
  release tracking, drawing) and \<open>error.rs\<close>. The kernel's answers to \<open>memfd_create\<close>,
  \<open>ftruncate\<close> and \<open>mmap\<close> are parameters, indexed by the number of the allocation.
\<close>

section \<open>Errors and system calls\<close>

datatype wl_client_error =
    Connect rstring
  | Dispatch rstring
  | Bind rstring
  | GlobalsInit rstring
  | GlobalMissing rstring
  | Shm rstring
  | Io rstring
  | Xkb rstring
  | BufferPoolExhausted nat
  | ConfigError rstring

record shm_os =
  os_memfd_create :: "nat \<Rightarrow> bool"
  os_ftruncate :: "nat \<Rightarrow> nat \<Rightarrow> bool"
  os_mmap :: "nat \<Rightarrow> nat \<Rightarrow> bool"
  os_last_error :: "nat \<Rightarrow> rstring"

text \<open>A new memory file of \<open>n\<close> zero bytes.\<close>

definition create_shm_fd :: "shm_os \<Rightarrow> nat \<Rightarrow> nat \<Rightarrow> wl_client_error + u8 list" where
  "create_shm_fd os k n =
     (if \<not> os_memfd_create os k then Inl (Shm (lit ''memfd_create: '' @ os_last_error os k))
      else if \<not> os_ftruncate os k n then Inl (Shm (lit ''ftruncate: '' @ os_last_error os k))
      else Inr (replicate n 0))"

section \<open>Buffers\<close>

definition MAX_BUFFERS :: nat where "MAX_BUFFERS = 4"

text \<open>
  \<open>sb_object\<close> is the \<open>wl_buffer\<close>; the release flag is the one shared with its userdata.
  \<open>sp_allocs\<close> counts the allocations made so far, and so names the next object.
\<close>

record shm_buffer =
  sb_pixels :: "u8 list"
  sb_object :: nat
  sb_released :: bool
  sb_w :: u32
  sb_h :: u32

record shm_pool =
  sp_buffers :: "shm_buffer list"
  sp_w :: u32
  sp_h :: u32
  sp_allocs :: nat

definition i32_as_usize :: "i32 \<Rightarrow> nat" where
  "i32_as_usize x = nat (x mod 2 ^ 64)"

definition usize_saturating_mul :: "nat \<Rightarrow> nat \<Rightarrow> nat" where
  "usize_saturating_mul x y = min (2 ^ 64 - 1) (x * y)"

definition pool_bytes :: "u32 \<Rightarrow> u32 \<Rightarrow> nat" where
  "pool_bytes w h = usize_saturating_mul (i32_as_usize (u32_as_i32 (w * 4))) (unat h)"

definition allocate_one :: "shm_os \<Rightarrow> shm_pool \<Rightarrow> shm_pool \<times> (wl_client_error + nat)" where
  "allocate_one os p =
     (if MAX_BUFFERS \<le> length (sp_buffers p) then (p, Inl (BufferPoolExhausted MAX_BUFFERS))
      else let k = sp_allocs p; p1 = p\<lparr>sp_allocs := k + 1\<rparr>; n = pool_bytes (sp_w p) (sp_h p) in
        case create_shm_fd os k n of
          Inl e \<Rightarrow> (p1, Inl e)
        | Inr bytes \<Rightarrow>
            if \<not> os_mmap os k n then (p1, Inl (Shm (lit ''mmap: '' @ os_last_error os k)))
            else (p1\<lparr>sp_buffers := sp_buffers p @
                     [\<lparr>sb_pixels = bytes, sb_object = k, sb_released = True, sb_w = sp_w p, sb_h = sp_h p\<rparr>]\<rparr>,
                  Inr (length (sp_buffers p))))"

definition allocate_two :: "shm_os \<Rightarrow> shm_pool \<Rightarrow> shm_pool \<times> (wl_client_error + unit)" where
  "allocate_two os p =
     (case allocate_one os p of
        (p1, Inl e) \<Rightarrow> (p1, Inl e)
      | (p1, Inr _) \<Rightarrow>
          (case allocate_one os p1 of
             (p2, Inl e) \<Rightarrow> (p2, Inl e)
           | (p2, Inr _) \<Rightarrow> (p2, Inr ())))"

definition pool_new :: "shm_os \<Rightarrow> nat \<Rightarrow> u32 \<Rightarrow> u32 \<Rightarrow> wl_client_error + shm_pool" where
  "pool_new os k w h =
     (case allocate_two os \<lparr>sp_buffers = [], sp_w = w, sp_h = h, sp_allocs = k\<rparr> of
        (_, Inl e) \<Rightarrow> Inl e
      | (p, Inr _) \<Rightarrow> Inr p)"

definition pool_dimensions :: "shm_pool \<Rightarrow> u32 \<times> u32" where
  "pool_dimensions p = (sp_w p, sp_h p)"

definition pool_resize :: "shm_os \<Rightarrow> u32 \<Rightarrow> u32 \<Rightarrow> shm_pool \<Rightarrow> shm_pool \<times> (wl_client_error + unit)" where
  "pool_resize os w h p =
     (if w = sp_w p \<and> h = sp_h p then (p, Inr ())
      else allocate_two os (p\<lparr>sp_buffers := [], sp_w := w, sp_h := h\<rparr>))"

text \<open>\<open>mark_released\<close>, reached through the userdata of the released \<open>wl_buffer\<close>.\<close>

definition mark_released :: "nat \<Rightarrow> shm_pool \<Rightarrow> shm_pool" where
  "mark_released obj p =
     p\<lparr>sp_buffers := map (\<lambda>b. if sb_object b = obj then b\<lparr>sb_released := True\<rparr> else b) (sp_buffers p)\<rparr>"

text \<open>The index of the first element that satisfies a test.\<close>

fun position :: "('a \<Rightarrow> bool) \<Rightarrow> 'a list \<Rightarrow> nat option" where
  "position P [] = None"
| "position P (x # xs) = (if P x then Some 0 else map_option Suc (position P xs))"

definition find_free_or_grow :: "shm_os \<Rightarrow> shm_pool \<Rightarrow> shm_pool \<times> (wl_client_error + nat)" where
  "find_free_or_grow os p =
     (case position sb_released (sp_buffers p) of
        Some i \<Rightarrow> (p, Inr i)
      | None \<Rightarrow> allocate_one os p)"

text \<open>
  \<open>draw\<close>: the closure works on the buffer and on what it captures, and may panic. The handle it
  returns names the \<open>wl_buffer\<close> and its size.
\<close>

record drawn_buffer =
  db_object :: nat
  db_w :: u32
  db_h :: u32

type_synonym 'c painting = "nat \<Rightarrow> u32 \<Rightarrow> u32 \<Rightarrow> 'c \<times> u8 list \<Rightarrow> ('c \<times> u8 list) option"

definition pool_draw ::
  "shm_os \<Rightarrow> 'c painting \<Rightarrow> shm_pool \<times> 'c \<Rightarrow> ((shm_pool \<times> 'c) \<times> (wl_client_error + drawn_buffer)) option" where
  "pool_draw os paint = (\<lambda>(p, c).
     case find_free_or_grow os p of
       (p1, Inl e) \<Rightarrow> Some ((p1, c), Inl e)
     | (p1, Inr i) \<Rightarrow>
         if i < length (sp_buffers p1)
         then (let b = sp_buffers p1 ! i in
               map_option (\<lambda>(c', px).
                   ((p1\<lparr>sp_buffers := (sp_buffers p1)[i := b\<lparr>sb_pixels := px, sb_released := False\<rparr>]\<rparr>, c'),
                    Inr \<lparr>db_object = sb_object b, db_w = sb_w b, db_h = sb_h b\<rparr>))
                 (paint (unat (sp_w p1 * 4)) (sb_w b) (sb_h b) (c, sb_pixels b)))
         else None)"

section \<open>The invariant\<close>

definition dims_ok :: "u32 \<Rightarrow> u32 \<Rightarrow> bool" where
  "dims_ok w h \<longleftrightarrow> unat w * 4 < 2 ^ 31"

definition pool_ok :: "shm_pool \<Rightarrow> bool" where
  "pool_ok p \<longleftrightarrow> dims_ok (sp_w p) (sp_h p) \<and> length (sp_buffers p) \<le> MAX_BUFFERS \<and>
     distinct (map sb_object (sp_buffers p)) \<and>
     (\<forall>b \<in> set (sp_buffers p). sb_w b = sp_w p \<and> sb_h b = sp_h p \<and> sb_object b < sp_allocs p \<and>
        buffer_ok (unat (sp_w p) * 4) (sp_w p) (sp_h p) (sb_pixels b))"

lemma dims_stride: "dims_ok w h \<Longrightarrow> unat (w * 4) = unat w * 4"
  by (simp add: dims_ok_def unat_word_ariths)

lemma pool_bytes_exact: "dims_ok w h \<Longrightarrow> pool_bytes w h = unat w * 4 * unat h"
proof -
  assume d: "dims_ok w h"
  then have "unat (w * 4) < 2 ^ 31" by (simp add: dims_stride) (simp add: dims_ok_def)
  then have "u32_as_i32 (w * 4) = int (unat w * 4)"
    by (simp add: u32_as_i32_small dims_stride [OF d])
  then have "i32_as_usize (u32_as_i32 (w * 4)) = unat w * 4"
    using d by (simp add: i32_as_usize_def dims_ok_def nat_mult_distrib flip: of_nat_mult)
  moreover have "unat h < 2 ^ LENGTH(32)" by (rule unsigned_less)
  then have "unat w * 4 * unat h \<le> 2 ^ 31 * 2 ^ 32"
    using d by (intro mult_le_mono) (simp_all add: dims_ok_def)
  then have "unat w * 4 * unat h \<le> 2 ^ 64 - 1" by (rule order_trans) simp
  ultimately show ?thesis
    unfolding pool_bytes_def usize_saturating_mul_def by (simp only: min_absorb2)
qed

lemma position_Some: "position P xs = Some i \<Longrightarrow> i < length xs \<and> P (xs ! i)"
  by (induction xs arbitrary: i) (auto split: if_splits)

lemma position_None: "position P xs = None \<longleftrightarrow> (\<forall>x \<in> set xs. \<not> P x)"
  by (induction xs) auto

lemma create_shm_fd_length: "create_shm_fd os k n = Inr bytes \<Longrightarrow> bytes = replicate n 0"
  by (simp add: create_shm_fd_def split: if_splits)

lemma allocate_one_cases:
  assumes "pool_ok p" and "allocate_one os p = (p', r)"
  shows "pool_ok p' \<and> sp_w p' = sp_w p \<and> sp_h p' = sp_h p \<and>
    (case r of Inl e \<Rightarrow> sp_buffers p' = sp_buffers p
     | Inr i \<Rightarrow> i = length (sp_buffers p) \<and>
         (\<exists>b. sp_buffers p' = sp_buffers p @ [b] \<and> sb_released b \<and> sb_object b = sp_allocs p))"
proof -
  have len: "length (replicate n (0 :: u8)) = n" for n by simp
  from assms show ?thesis
    unfolding allocate_one_def Let_def
    by (auto simp: pool_ok_def buffer_ok_def pool_bytes_exact less_Suc_eq dest!: create_shm_fd_length
        split: if_splits sum.splits) fastforce
qed

lemma pool_ok_empty:
  "dims_ok w h \<Longrightarrow> pool_ok \<lparr>sp_buffers = [], sp_w = w, sp_h = h, sp_allocs = k\<rparr>"
  by (simp add: pool_ok_def)

lemma allocate_two_ok:
  assumes "pool_ok p" and "allocate_two os p = (p', r)"
  shows "pool_ok p' \<and> sp_w p' = sp_w p \<and> sp_h p' = sp_h p"
proof -
  obtain p1 r1 where 1: "allocate_one os p = (p1, r1)" by fastforce
  obtain p2 r2 where 2: "allocate_one os p1 = (p2, r2)" by fastforce
  from allocate_one_cases [OF assms(1) 1] have o1: "pool_ok p1" "sp_w p1 = sp_w p" "sp_h p1 = sp_h p"
    by simp_all
  from allocate_one_cases [OF o1(1) 2] have "pool_ok p2" "sp_w p2 = sp_w p1" "sp_h p2 = sp_h p1"
    by simp_all
  with o1 assms(2) show ?thesis
    by (simp add: allocate_two_def 1 2 split: sum.splits)
qed

lemma pool_new_ok [step_inv]:
  "dims_ok w h \<Longrightarrow> pool_new os k w h = Inr p \<Longrightarrow> pool_ok p \<and> sp_w p = w \<and> sp_h p = h"
  using allocate_two_ok [OF pool_ok_empty, of w h os k]
  by (fastforce simp: pool_new_def split: prod.splits sum.splits)

lemma pool_resize_ok [step_inv]:
  assumes "pool_ok p" and "dims_ok w h"
  shows "pool_ok (fst (pool_resize os w h p)) \<and> sp_w (fst (pool_resize os w h p)) = w \<and>
    sp_h (fst (pool_resize os w h p)) = h"
proof (cases "w = sp_w p \<and> h = sp_h p")
  case False
  have "pool_ok (p\<lparr>sp_buffers := [], sp_w := w, sp_h := h\<rparr>)"
    using assms(2) by (simp add: pool_ok_def)
  moreover obtain p2 r2 where "allocate_two os (p\<lparr>sp_buffers := [], sp_w := w, sp_h := h\<rparr>) = (p2, r2)"
    by fastforce
  ultimately show ?thesis
    using False allocate_two_ok by (fastforce simp: pool_resize_def)
qed (use assms in \<open>simp add: pool_resize_def\<close>)

lemma mark_released_ok [step_inv]:
  assumes "pool_ok p"
  shows "pool_ok (mark_released obj p)"
proof -
  let ?f = "\<lambda>b. if sb_object b = obj then b\<lparr>sb_released := True\<rparr> else b"
  have "sb_object \<circ> ?f = sb_object" by auto
  then have "map sb_object (map ?f (sp_buffers p)) = map sb_object (sp_buffers p)" by simp
  then show ?thesis
    using assms by (auto simp: pool_ok_def mark_released_def simp del: map_map)
qed

lemma mark_released_dims [simp]:
  "sp_w (mark_released obj p) = sp_w p" "sp_h (mark_released obj p) = sp_h p"
  by (simp_all add: mark_released_def)

lemma find_free_or_grow_cases:
  assumes "pool_ok p" and "find_free_or_grow os p = (p', r)"
  shows "pool_ok p' \<and> sp_w p' = sp_w p \<and> sp_h p' = sp_h p \<and>
    (case r of Inl e \<Rightarrow> sp_buffers p' = sp_buffers p \<and> (\<forall>b \<in> set (sp_buffers p). \<not> sb_released b)
     | Inr i \<Rightarrow> i < length (sp_buffers p') \<and> sb_released (sp_buffers p' ! i) \<and>
         (\<exists>new. sp_buffers p' = sp_buffers p @ new))"
proof (cases "position sb_released (sp_buffers p)")
  case None
  with assms allocate_one_cases [OF assms(1), of os p' r] show ?thesis
    by (auto simp: find_free_or_grow_def position_None split: sum.splits)
next
  case (Some i)
  with assms position_Some [OF Some] show ?thesis by (auto simp: find_free_or_grow_def)
qed

lemma pool_draw_buffers:
  assumes "pool_ok p" and "pool_draw os paint (p, c) = Some ((p', c'), Inr d)"
  shows "\<exists>i new px. i < length (sp_buffers p @ new) \<and> sb_released ((sp_buffers p @ new) ! i) \<and>
    sb_object ((sp_buffers p @ new) ! i) = db_object d \<and> distinct (map sb_object (sp_buffers p @ new)) \<and>
    length (sp_buffers p @ new) \<le> MAX_BUFFERS \<and>
    sp_buffers p' = (sp_buffers p @ new)[i := ((sp_buffers p @ new) ! i)\<lparr>sb_pixels := px, sb_released := False\<rparr>]"
proof -
  obtain p1 r1 where f: "find_free_or_grow os p = (p1, r1)" by fastforce
  note cs = find_free_or_grow_cases [OF assms(1) f]
  from assms(2) obtain i where i: "r1 = Inr i"
    by (cases r1) (auto simp: pool_draw_def f)
  with cs obtain new where new: "sp_buffers p1 = sp_buffers p @ new" and
      ok: "i < length (sp_buffers p1)" "sb_released (sp_buffers p1 ! i)" "pool_ok p1" by auto
  from assms(2) ok(1) obtain px where
    "sp_buffers p' = (sp_buffers p1)[i := (sp_buffers p1 ! i)\<lparr>sb_pixels := px, sb_released := False\<rparr>]"
    "db_object d = sb_object (sp_buffers p1 ! i)"
    by (auto simp: pool_draw_def f i Let_def)
  with ok new show ?thesis unfolding pool_ok_def by (metis (no_types, lifting))
qed

section \<open>Properties\<close>

text \<open>
  C28: drawing never touches a buffer the compositor still holds. The buffer handed out was
  released before, or is new; it is in flight afterwards; every buffer that was in flight is
  still there, with the pixels it had; and there are never more than four.
\<close>

theorem pool_draw_spares_busy:
  assumes "pool_ok p" and "pool_draw os paint (p, c) = Some ((p', c'), Inr d)"
  shows "length (sp_buffers p') \<le> 4 \<and>
    (\<forall>b \<in> set (sp_buffers p). \<not> sb_released b \<longrightarrow> b \<in> set (sp_buffers p') \<and> sb_object b \<noteq> db_object d) \<and>
    (\<exists>b \<in> set (sp_buffers p'). sb_object b = db_object d \<and> \<not> sb_released b)"
proof -
  from pool_draw_buffers [OF assms] obtain i new px where
    i: "i < length (sp_buffers p @ new)" "sb_released ((sp_buffers p @ new) ! i)"
      "sb_object ((sp_buffers p @ new) ! i) = db_object d"
    and d: "distinct (map sb_object (sp_buffers p @ new))" "length (sp_buffers p @ new) \<le> MAX_BUFFERS"
    and p': "sp_buffers p' = (sp_buffers p @ new)[i := ((sp_buffers p @ new) ! i)\<lparr>sb_pixels := px, sb_released := False\<rparr>]"
    by blast
  let ?bs = "sp_buffers p @ new"
  have "b \<in> set (sp_buffers p') \<and> sb_object b \<noteq> db_object d"
    if b: "b \<in> set (sp_buffers p)" "\<not> sb_released b" for b
  proof -
    obtain j where j: "j < length ?bs" "?bs ! j = b"
      using b(1) by (metis UnCI in_set_conv_nth set_append)
    with b(2) i(2) have "j \<noteq> i" by auto
    with j d(1) i show ?thesis
      by (metis (no_types, lifting) length_list_update length_map nth_eq_iff_index_eq nth_list_update_neq
          nth_map nth_mem p')
  qed
  moreover have "\<exists>b \<in> set (sp_buffers p'). sb_object b = db_object d \<and> \<not> sb_released b"
    using i by (intro bexI [of _ "sp_buffers p' ! i"]) (simp_all add: p' set_update_memI)
  ultimately show ?thesis using d(2) by (simp add: p' MAX_BUFFERS_def)
qed

definition kind_os :: shm_os where
  "kind_os = \<lparr>os_memfd_create = (\<lambda>_. True), os_ftruncate = (\<lambda>_ _. True), os_mmap = (\<lambda>_ _. True),
     os_last_error = (\<lambda>_. [])\<rparr>"

definition grey_paint :: "unit painting" where
  "grey_paint stride w h = (\<lambda>(c, px). Some (c, replicate (length px) 128))"

definition busy_pool :: shm_pool where
  "busy_pool = \<lparr>sp_buffers = [\<lparr>sb_pixels = [1, 2, 3, 4], sb_object = 0, sb_released = False, sb_w = 1, sb_h = 1\<rparr>],
     sp_w = 1, sp_h = 1, sp_allocs = 1\<rparr>"

theorem pool_draw_spares_busy_witness:
  "case pool_draw kind_os grey_paint (busy_pool, ()) of
     Some ((p', _), Inr d) \<Rightarrow> hd (sp_buffers busy_pool) \<in> set (sp_buffers p') \<and> db_object d \<noteq> 0
   | _ \<Rightarrow> False"
proof -
  have ok: "pool_ok busy_pool"
    by (simp add: pool_ok_def busy_pool_def buffer_ok_def dims_ok_def MAX_BUFFERS_def)
  have "\<exists>p' d. pool_draw kind_os grey_paint (busy_pool, ()) = Some ((p', ()), Inr d)"
    by (simp add: pool_draw_def find_free_or_grow_def allocate_one_def busy_pool_def kind_os_def
        grey_paint_def create_shm_fd_def MAX_BUFFERS_def Let_def)
  then obtain p' d where e: "pool_draw kind_os grey_paint (busy_pool, ()) = Some ((p', ()), Inr d)"
    by blast
  from pool_draw_spares_busy [OF ok e] e show ?thesis by (simp add: busy_pool_def)
qed

text \<open>
  When drawing gives up. If the kernel serves every allocation, drawing returns an error
  exactly when four buffers exist and all are in flight, and then nothing has changed.
\<close>

lemma pool_draw_exhausted:
  assumes "pool_ok p" and "pool_draw os paint (p, c) = Some ((p', c'), r)"
    and "os_memfd_create os = (\<lambda>_. True)" "os_ftruncate os = (\<lambda>_ _. True)" "os_mmap os = (\<lambda>_ _. True)"
  shows "case r of
      Inl e \<Rightarrow> e = BufferPoolExhausted 4 \<and> (p', c') = (p, c) \<and> length (sp_buffers p) = 4 \<and>
        sb_released ` set (sp_buffers p) = {False}
    | Inr d \<Rightarrow> length (sp_buffers p) < 4 \<or> True \<in> sb_released ` set (sp_buffers p)"
proof -
  obtain p1 r1 where f: "find_free_or_grow os p = (p1, r1)" by fastforce
  have grown: "r1 = (if MAX_BUFFERS \<le> length (sp_buffers p) then Inl (BufferPoolExhausted MAX_BUFFERS)
      else Inr (length (sp_buffers p)))" "MAX_BUFFERS \<le> length (sp_buffers p) \<Longrightarrow> p1 = p"
    if "position sb_released (sp_buffers p) = None"
    using f that assms(3-5) by (auto simp: find_free_or_grow_def allocate_one_def create_shm_fd_def Let_def
        split: if_splits)
  have len: "length (sp_buffers p) \<le> 4" using assms(1) by (simp add: pool_ok_def MAX_BUFFERS_def)
  show ?thesis
  proof (cases "position sb_released (sp_buffers p)")
    case None
    then have "\<forall>b \<in> set (sp_buffers p). \<not> sb_released b" by (simp add: position_None)
    then have busy: "sb_released ` set (sp_buffers p) = {False}" if "sp_buffers p \<noteq> []"
      using that by (cases "sp_buffers p") auto
    show ?thesis
    proof (cases "length (sp_buffers p) = 4")
      case True
      then have "sp_buffers p \<noteq> []" by auto
      moreover have "p1 = p" "r1 = Inl (BufferPoolExhausted 4)"
        using True grown [OF None] by (simp_all add: MAX_BUFFERS_def)
      then have "pool_draw os paint (p, c) = Some ((p, c), Inl (BufferPoolExhausted 4))"
        by (simp add: pool_draw_def f)
      ultimately show ?thesis using True assms(2) busy by simp
    next
      case False
      with len grown(1) [OF None] have "r1 = Inr (length (sp_buffers p))" "length (sp_buffers p) < 4"
        by (simp_all add: MAX_BUFFERS_def)
      with assms(2) show ?thesis
        by (cases r) (auto simp: pool_draw_def f Let_def split: if_splits)
    qed
  next
    case (Some i)
    then have "True \<in> sb_released ` set (sp_buffers p)"
      using position_Some [OF Some] by (metis image_eqI nth_mem)
    moreover have "r1 = Inr i" using f Some by (simp add: find_free_or_grow_def)
    ultimately show ?thesis
      using assms(2) by (auto simp: pool_draw_def f Let_def split: if_splits)
  qed
qed

end
