(* ===== verification/Scene.thy ===== *)
theory Scene
  imports Text Shm_Pool
begin

text \<open>
  Painting a client surface: the drawing calls on a pixel buffer together with the optional text
  renderer, and the interface every client's \<open>paint\<close> function meets, with what
  \<open>ShmDoubleBuffer::draw\<close> does with such a function.
\<close>

section \<open>Drawing with text\<close>

text \<open>
  \<open>text_state\<close> is the glyph cache and the buffer where a text renderer is at hand, \<open>scene\<close> the
  optional renderer and the buffer.
\<close>

type_synonym text_state = "glyph_cache \<times> u8 list"
type_synonym scene = "glyph_cache option \<times> u8 list"

definition on_pixels :: "(u8 list \<Rightarrow> u8 list option) \<Rightarrow> 'c \<times> u8 list \<Rightarrow> ('c \<times> u8 list) option" where
  "on_pixels f = (\<lambda>(c, px). map_option (Pair c) (f px))"

definition put_text ::
  "rasterizer \<Rightarrow> nat \<Rightarrow> u32 \<Rightarrow> u32 \<Rightarrow> i32 \<Rightarrow> i32 \<Rightarrow> rstring \<Rightarrow> rat \<Rightarrow> color \<Rightarrow> font_variant \<Rightarrow>
   text_state \<Rightarrow> text_state option" where
  "put_text rast stride w h x y s fsz c v = (\<lambda>(cache, px).
     map_option (\<lambda>(cache', px', _). (cache', px')) (draw_text rast cache stride w h x y s fsz c v px))"

text \<open>\<open>x - text.measure_text(s) / 2\<close> is the argument the callers centre with.\<close>

definition put_centred ::
  "rasterizer \<Rightarrow> nat \<Rightarrow> u32 \<Rightarrow> u32 \<Rightarrow> i32 \<Rightarrow> i32 \<Rightarrow> rstring \<Rightarrow> rat \<Rightarrow> color \<Rightarrow> font_variant \<Rightarrow>
   text_state \<Rightarrow> text_state option" where
  "put_centred rast stride w h x y s fsz c v = (\<lambda>(cache, px).
     case measure_text rast cache s fsz v of
       (cache', width) \<Rightarrow> put_text rast stride w h (i32_wrap (x - i32_quot width 2)) y s fsz c v (cache', px))"

definition with_text :: "(text_state \<Rightarrow> text_state option) \<Rightarrow> scene \<Rightarrow> scene option" where
  "with_text f = (\<lambda>(t, px). case t of
       None \<Rightarrow> Some (t, px)
     | Some cache \<Rightarrow> map_option (\<lambda>(cache', px'). (Some cache', px')) (f (cache, px)))"

text \<open>\<open>clear\<close> as a statement.\<close>

definition wipe :: "color \<Rightarrow> u8 list \<Rightarrow> u8 list option" where
  "wipe c px = Some (clear c px)"

section \<open>Drawing cannot panic\<close>

definition sized :: "nat \<Rightarrow> u32 \<Rightarrow> u32 \<Rightarrow> u8 list \<Rightarrow> bool" where
  "sized stride w h px \<longleftrightarrow> buffer_ok stride w h px"

definition text_ok :: "nat \<Rightarrow> u32 \<Rightarrow> u32 \<Rightarrow> text_state \<Rightarrow> bool" where
  "text_ok stride w h st \<longleftrightarrow> cache_ok (fst st) \<and> sized stride w h (snd st)"

definition text_cache_ok :: "glyph_cache option \<Rightarrow> bool" where
  "text_cache_ok t \<longleftrightarrow> (case t of None \<Rightarrow> True | Some cache \<Rightarrow> cache_ok cache)"

definition scene_ok :: "nat \<Rightarrow> u32 \<Rightarrow> u32 \<Rightarrow> scene \<Rightarrow> bool" where
  "scene_ok stride w h sc \<longleftrightarrow> text_cache_ok (fst sc) \<and> sized stride w h (snd sc)"

lemma fill_rect_keeps [keeping]: "keeps (sized stride w h) (fill_rect stride w h x y rw rh c)"
  unfolding keeps_def sized_def by (blast intro: fill_op.op_ok)

lemma hline_keeps [keeping]: "keeps (sized stride w h) (hline stride w h y x0 x1 c)"
  unfolding keeps_def sized_def by (blast intro: hline_op.op_ok)

lemma vline_keeps [keeping]: "keeps (sized stride w h) (vline stride w h x y0 y1 c)"
  unfolding keeps_def sized_def by (blast intro: vline_op.op_ok)

lemma clear_sized: "sized stride w h px \<Longrightarrow> sized stride w h (clear c px)"
  using clear_op.op_ok [of stride w h px c] by (simp add: sized_def)

lemma wipe_keeps [keeping]: "keeps (sized stride w h) (wipe c)"
  by (simp add: keeps_def wipe_def clear_sized)

lemma on_pixels_text [keeping]: "keeps (sized stride w h) f \<Longrightarrow> keeps (text_ok stride w h) (on_pixels f)"
  by (fastforce simp: keeps_def on_pixels_def text_ok_def)

lemma on_pixels_scene [keeping]: "keeps (sized stride w h) f \<Longrightarrow> keeps (scene_ok stride w h) (on_pixels f)"
  by (fastforce simp: keeps_def on_pixels_def scene_ok_def)

lemma put_text_keeps [keeping]:
  assumes "rast_ok rast"
  shows "keeps (text_ok stride w h) (put_text rast stride w h x y s fsz c v)"
proof (rule keepsI)
  fix st assume ok: "text_ok stride w h st"
  obtain cache px where st: "st = (cache, px)" by (cases st)
  with ok have "cache_ok cache" "buffer_ok stride w h px" by (simp_all add: text_ok_def sized_def)
  from draw_text_ok [OF assms(1) this, of x y s fsz c v] this(2)
  show "\<exists>st'. put_text rast stride w h x y s fsz c v st = Some st' \<and> text_ok stride w h st'"
    by (auto simp: put_text_def st text_ok_def sized_def buffer_ok_def)
qed

lemma put_centred_keeps [keeping]:
  assumes "rast_ok rast"
  shows "keeps (text_ok stride w h) (put_centred rast stride w h x y s fsz c v)"
proof (rule keepsI)
  fix st assume "text_ok stride w h st"
  moreover obtain cache px where st: "st = (cache, px)" by (cases st)
  ultimately have ok: "cache_ok cache" "buffer_ok stride w h px" by (simp_all add: text_ok_def sized_def)
  obtain cache' width where m: "measure_text rast cache s fsz v = (cache', width)" "cache_ok cache'"
    using draw_text_ok [OF assms(1) ok] by blast
  with ok(2) have "text_ok stride w h (cache', px)" by (simp add: text_ok_def sized_def)
  from keepsD [OF put_text_keeps [OF assms(1)] this]
  show "\<exists>st'. put_centred rast stride w h x y s fsz c v st = Some st' \<and> text_ok stride w h st'"
    by (simp add: put_centred_def st m(1))
qed

lemma with_text_keeps [keeping]:
  "keeps (text_ok stride w h) f \<Longrightarrow> keeps (scene_ok stride w h) (with_text f)"
  by (fastforce simp: keeps_def with_text_def scene_ok_def text_cache_ok_def text_ok_def
      split: option.splits prod.splits)

section \<open>The interface of a client's paint function\<close>

locale painter =
  fixes paint :: "rasterizer \<Rightarrow> 'a \<Rightarrow> nat \<Rightarrow> u32 \<Rightarrow> u32 \<Rightarrow> scene \<Rightarrow> scene option"
  assumes paint_keeps: "rast_ok rast \<Longrightarrow> keeps (scene_ok stride w h) (paint rast a stride w h)"
begin

text \<open>
  Drawing with it never panics, keeps the pool and the glyph cache well formed, hands out a
  buffer of the pool's size, and takes a buffer the compositor has released.
\<close>

lemma draw_ok:
  assumes "rast_ok rast" and "pool_ok p" and "text_cache_ok t"
  shows "\<exists>p' t' r. pool_draw os (paint rast a) (p, t) = Some ((p', t'), r) \<and> pool_ok p' \<and>
    sp_w p' = sp_w p \<and> sp_h p' = sp_h p \<and> text_cache_ok t' \<and>
    (\<forall>d. r = Inr d \<longrightarrow> db_w d = sp_w p \<and> db_h d = sp_h p)"
proof -
  obtain p1 r1 where f: "find_free_or_grow os p = (p1, r1)" by fastforce
  note c = find_free_or_grow_cases [OF assms(2) f]
  show ?thesis
  proof (cases r1)
    case (Inl e)
    with c show ?thesis using assms(3) by (simp add: pool_draw_def f)
  next
    case (Inr i)
    with c have p1: "pool_ok p1" "sp_w p1 = sp_w p" "sp_h p1 = sp_h p" "i < length (sp_buffers p1)"
      by simp_all
    let ?b = "sp_buffers p1 ! i"
    have b: "sb_w ?b = sp_w p" "sb_h ?b = sp_h p" "buffer_ok (unat (sp_w p) * 4) (sp_w p) (sp_h p) (sb_pixels ?b)"
      "unat (sp_w p * 4) = unat (sp_w p) * 4"
      using p1 nth_mem [OF p1(4)] by (auto simp: pool_ok_def dims_stride)
    then have "scene_ok (unat (sp_w p) * 4) (sp_w p) (sp_h p) (t, sb_pixels ?b)"
      using assms(3) by (simp add: scene_ok_def sized_def)
    from keepsD [OF paint_keeps [OF assms(1)] this, of a] obtain t' px where
      px: "paint rast a (unat (sp_w p) * 4) (sp_w p) (sp_h p) (t, sb_pixels ?b) = Some (t', px)"
      "text_cache_ok t'" "buffer_ok (unat (sp_w p) * 4) (sp_w p) (sp_h p) px"
      by (auto simp: scene_ok_def sized_def)
    let ?p' = "p1\<lparr>sp_buffers := (sp_buffers p1)[i := ?b\<lparr>sb_pixels := px, sb_released := False\<rparr>]\<rparr>"
    have "map sb_object (sp_buffers ?p') = map sb_object (sp_buffers p1)"
      using p1(4) by (simp add: map_update) (metis list_update_id map_update)
    with p1 px(3) b nth_mem [OF p1(4)] have "pool_ok ?p'"
      by (auto simp: pool_ok_def dest!: set_update_subset_insert [THEN subsetD])
    with Inr px b p1 show ?thesis by (simp add: pool_draw_def f Let_def)
  qed
qed

end

end
