(* ===== verification/Panel.thy ===== *)
theory Panel
  imports Scene Workspace
begin

text \<open>
  The in-process panel: \<open>crates/frame/src/panel/mod.rs\<close> (the bitmap, its local copies of the
  drawing primitives, the render function), the modules under \<open>panel/modules\<close> and the upload of
  the bitmap in \<open>render.rs\<close>. Local time is a parameter of the clock.
\<close>

section \<open>The bitmap\<close>

record panel_bitmap =
  pb_width :: u32
  pb_height :: u32
  pb_pixels :: "u8 list"
  pb_dirty :: bool
  pb_generation :: u64

definition PANEL_HEIGHT :: u32 where "PANEL_HEIGHT = 48"

definition pb_new :: "u32 \<Rightarrow> u32 \<Rightarrow> panel_bitmap" where
  "pb_new w h = \<lparr>pb_width = w, pb_height = h, pb_pixels = replicate (unat w * unat h * 4) 0,
     pb_dirty = True, pb_generation = 0\<rparr>"

definition pb_resize :: "u32 \<Rightarrow> u32 \<Rightarrow> panel_bitmap \<Rightarrow> panel_bitmap" where
  "pb_resize w h b =
     (if pb_width b = w \<and> pb_height b = h then b
      else b\<lparr>pb_pixels := replicate (unat w * unat h * 4) 0, pb_width := w, pb_height := h,
             pb_dirty := True, pb_generation := pb_generation b + 1\<rparr>)"

definition pb_stride :: "panel_bitmap \<Rightarrow> nat" where
  "pb_stride b = unat (pb_width b) * 4"

section \<open>The local copies of the primitives\<close>

definition panel_clear :: "color \<Rightarrow> u8 list \<Rightarrow> u8 list" where
  "panel_clear c px = (case to_u8 c of (r, g, b, a) \<Rightarrow> clear_loop (opaque_bytes r g b a) 0 px)"

definition panel_fill_rect ::
  "nat \<Rightarrow> u32 \<Rightarrow> u32 \<Rightarrow> i32 \<Rightarrow> i32 \<Rightarrow> u32 \<Rightarrow> u32 \<Rightarrow> color \<Rightarrow> u8 list \<Rightarrow> u8 list option" where
  "panel_fill_rect stride buf_w buf_h x y w h c px =
     (case to_u8 c of (r, g, b, a) \<Rightarrow>
        let x0 = i32_clamp0 x; y0 = i32_clamp0 y;
            x1 = i32_clamp0 (min (i32_saturating_add x (u32_as_i32 w)) (u32_as_i32 buf_w));
            y1 = i32_clamp0 (min (i32_saturating_add y (u32_as_i32 h)) (u32_as_i32 buf_h)) in
        if x1 \<le> x0 \<or> y1 \<le> y0 then Some px
        else fold_opt (\<lambda>py px. let row = py * stride in
               fold_opt (\<lambda>pxx px.
                 paint_cell (if a = 255 then opaque_bytes r g b 255 else blend_bytes (unat a) r g b)
                   (row + pxx * 4) px) [x0..<x1] px) [y0..<y1] px)"

definition wlcommon_hline ::
  "nat \<Rightarrow> u32 \<Rightarrow> u32 \<Rightarrow> i32 \<Rightarrow> i32 \<Rightarrow> i32 \<Rightarrow> color \<Rightarrow> u8 list \<Rightarrow> u8 list option" where
  "wlcommon_hline stride buf_w buf_h y x0 x1 c px =
     (if x1 \<le> x0 then Some px
      else panel_fill_rect stride buf_w buf_h x0 y (i32_as_u32 (i32_wrap (x1 - x0))) 1 c px)"

lemma panel_clear_mirror: "panel_clear = clear"
  by (simp add: fun_eq_iff panel_clear_def clear_def)

lemma panel_fill_rect_mirror: "panel_fill_rect = fill_rect"
  by (intro ext) (simp add: panel_fill_rect_def fill_rect_def clip_lo_def clip_hi_def fill_rows_def
      Let_def split: prod.splits)

lemma panel_hline_mirror: "wlcommon_hline = hline"
  by (simp add: fun_eq_iff wlcommon_hline_def hline_def panel_fill_rect_mirror)

section \<open>Workspace dots\<close>

definition DOT_ACTIVE :: i32 where "DOT_ACTIVE = 8"
definition DOT_IDLE :: i32 where "DOT_IDLE = 6"
definition DOT_GAP :: i32 where "DOT_GAP = 10"
definition START_X :: i32 where "START_X = 60"

definition fill_circle ::
  "nat \<Rightarrow> u32 \<Rightarrow> u32 \<Rightarrow> i32 \<Rightarrow> i32 \<Rightarrow> i32 \<Rightarrow> color \<Rightarrow> u8 list \<Rightarrow> u8 list option" where
  "fill_circle stride bw bh cx cy r c px =
     (let r2 = r * r in
      fold_opt (\<lambda>dy px. fold_opt (\<lambda>dx px.
        if dx * dx + dy * dy \<le> r2
        then panel_fill_rect stride bw bh (i32_wrap (cx + dx)) (i32_wrap (cy + dy)) 1 1 c px
        else Some px) [-r..r] px) [-r..r] px)"

definition ring_circle ::
  "nat \<Rightarrow> u32 \<Rightarrow> u32 \<Rightarrow> i32 \<Rightarrow> i32 \<Rightarrow> i32 \<Rightarrow> color \<Rightarrow> u8 list \<Rightarrow> u8 list option" where
  "ring_circle stride bw bh cx cy r c px =
     (let ro2 = r * r; ri2 = (r - 1) * (r - 1) in
      fold_opt (\<lambda>dy px. fold_opt (\<lambda>dx px.
        let d2 = dx * dx + dy * dy in
        if d2 \<le> ro2 \<and> ri2 < d2
        then panel_fill_rect stride bw bh (i32_wrap (cx + dx)) (i32_wrap (cy + dy)) 1 1 c px
        else Some px) [-r..r] px) [-r..r] px)"

definition workspaces_draw ::
  "nat \<Rightarrow> u32 \<Rightarrow> u32 \<Rightarrow> nat \<Rightarrow> nat list \<Rightarrow> u8 list \<Rightarrow> u8 list option" where
  "workspaces_draw stride bw bh active occupied px =
     (let cy = i32_quot (u32_as_i32 bh) 2 in
      fold_opt (\<lambda>i px.
        let cx = START_X + int i * (DOT_IDLE + DOT_GAP) + i32_quot DOT_IDLE 2 in
        if i = active then fill_circle stride bw bh cx cy (i32_quot DOT_ACTIVE 2) ACCENT px
        else if i \<in> set occupied then ring_circle stride bw bh cx cy (i32_quot DOT_IDLE 2) TEXT_SECONDARY px
        else ring_circle stride bw bh cx cy (i32_quot DOT_IDLE 2 - 1) TEXT_DISABLED px) [0..<9] px)"

section \<open>Indicator modules\<close>

datatype network_kind = NetNone | NetWired | NetWireless | NetOther

record network_snapshot =
  net_kind :: network_kind
  net_connected :: bool
  net_ssid :: "rstring option"
  net_strength :: "u8 option"

record module_snapshot =
  battery_pct :: "u8 option"
  on_ac :: bool
  snap_network :: network_snapshot
  volume_pct :: "u8 option"
  volume_mute :: bool

definition module_snapshot_default :: module_snapshot where
  "module_snapshot_default = \<lparr>battery_pct = None, on_ac = False,
     snap_network = \<lparr>net_kind = NetNone, net_connected = False, net_ssid = None, net_strength = None\<rparr>,
     volume_pct = None, volume_mute = False\<rparr>"

text \<open>\<open>{n:02}\<close>, and the clock's text from \<open>localtime_r\<close> or from the seconds since the epoch.\<close>

definition dec2 :: "nat \<Rightarrow> rstring" where
  "dec2 n = (if n < 10 then 48 # dec n else dec n)"

definition format_local_hhmm :: "(nat \<times> nat) option \<Rightarrow> int \<Rightarrow> rstring" where
  "format_local_hhmm tm secs =
     (case tm of
        None \<Rightarrow> dec2 (nat (i32_quot secs 3600 mod 24)) @ [58] @ dec2 (nat (i32_quot secs 60 mod 60))
      | Some (hh, mm) \<Rightarrow> dec2 hh @ [58] @ dec2 mm)"

text \<open>Each module draws its label right-aligned at \<open>pen_x\<close> and returns the label's left edge.\<close>

definition draw_label ::
  "rasterizer \<Rightarrow> nat \<Rightarrow> u32 \<Rightarrow> u32 \<Rightarrow> i32 \<Rightarrow> i32 \<Rightarrow> rstring \<Rightarrow> color \<Rightarrow> text_state \<Rightarrow> (text_state \<times> i32) option" where
  "draw_label rast stride bw bh pen_x baseline lbl c = (\<lambda>(cache, px).
     let (cache1, width) = measure_text rast cache lbl 13 Regular; x = i32_wrap (pen_x - width) in
     map_option (\<lambda>(cache2, px', _). ((cache2, px'), x))
       (draw_text rast cache1 stride bw bh x baseline lbl 13 c Regular px))"

definition clock_draw where
  "clock_draw rast stride bw bh pen_x baseline now st =
     draw_label rast stride bw bh pen_x baseline now TEXT_SECONDARY st"

definition battery_draw where
  "battery_draw rast stride bw bh pen_x baseline snap st =
     (case battery_pct snap of
        None \<Rightarrow> Some (st, pen_x)
      | Some pct \<Rightarrow> draw_label rast stride bw bh pen_x baseline
          ((if on_ac snap then 0x26A1 else 0xB7) # dec (unat pct) @ [37]) TEXT_SECONDARY st)"

text \<open>The outer option is the panic of \<open>&label[..15]\<close>, the inner one an early return.\<close>

definition network_label :: "network_snapshot \<Rightarrow> rstring option option" where
  "network_label n =
     (case (case net_kind n of
              NetNone \<Rightarrow> None
            | NetWired \<Rightarrow> Some (lit ''ETH'')
            | NetWireless \<Rightarrow> Some (case net_ssid n of Some s \<Rightarrow> s | None \<Rightarrow> lit ''WIFI'')
            | NetOther \<Rightarrow> Some (lit ''NET'')) of
        None \<Rightarrow> Some None
      | Some lbl \<Rightarrow>
          if lbl = [] then Some None
          else if 16 < str_len lbl
          then map_option (\<lambda>p. Some (p @ [0x2026])) (str_prefix 15 lbl)
          else Some (Some lbl))"

definition network_draw where
  "network_draw rast stride bw bh pen_x baseline snap st =
     (case network_label (snap_network snap) of
        None \<Rightarrow> None
      | Some None \<Rightarrow> Some (st, pen_x)
      | Some (Some lbl) \<Rightarrow> draw_label rast stride bw bh pen_x baseline lbl
          (if net_connected (snap_network snap) then TEXT_SECONDARY else TEXT_DISABLED) st)"

definition volume_draw where
  "volume_draw rast stride bw bh pen_x baseline snap st =
     (case volume_pct snap of
        None \<Rightarrow> Some (st, pen_x)
      | Some pct \<Rightarrow> draw_label rast stride bw bh pen_x baseline
          (if volume_mute snap then lit ''MUTE'' else dec (unat pct) @ [37])
          (if volume_mute snap then TEXT_DISABLED else TEXT_SECONDARY) st)"

section \<open>\<open>PanelOverlay\<close>\<close>

record panel_overlay =
  po_bitmap :: panel_bitmap
  po_modules :: module_snapshot
  po_text :: "glyph_cache option"

definition panel_new :: "bool \<Rightarrow> panel_overlay" where
  "panel_new fonts_found = \<lparr>po_bitmap = pb_new 1920 PANEL_HEIGHT, po_modules = module_snapshot_default,
     po_text = (if fonts_found then Some Map.empty else None)\<rparr>"

definition panel_resize :: "u32 \<Rightarrow> panel_overlay \<Rightarrow> panel_overlay" where
  "panel_resize w p = p\<lparr>po_bitmap := pb_resize w PANEL_HEIGHT (po_bitmap p)\<rparr>"

definition nx_mark :: "(i32 \<times> i32) list" where
  "nx_mark = [(18, 16), (26, 16), (18, 24), (26, 24)]"

definition panel_base ::
  "nat \<Rightarrow> u32 \<Rightarrow> u32 \<Rightarrow> workspace_manager \<Rightarrow> nat list \<Rightarrow> u8 list \<Rightarrow> u8 list option" where
  "panel_base stride w h mgr occupied px =
     do { p1 \<leftarrow> wlcommon_hline stride w h 0 0 (u32_as_i32 w) DIVIDER (panel_clear SURFACE_1 px);
          p2 \<leftarrow> panel_fill_rect stride w h 0 0 48 h SURFACE_2 p1;
          p3 \<leftarrow> fold_opt (\<lambda>(dx, dy) p. panel_fill_rect stride w h dx dy 4 4 ACCENT p) nx_mark p2;
          workspaces_draw stride w h (mgr_active mgr) occupied p3 }"

definition panel_indicators where
  "panel_indicators rast stride w h now snap st =
     (let base = i32_quot (u32_as_i32 h) 2 + 5 in
      do { (st1, x1) \<leftarrow> clock_draw rast stride w h (i32_wrap (u32_as_i32 w - 16)) base now st;
           (st2, x2) \<leftarrow> battery_draw rast stride w h (i32_wrap (x1 - 16)) base snap st1;
           (st3, x3) \<leftarrow> network_draw rast stride w h (i32_wrap (x2 - 16)) base snap st2;
           (st4, _) \<leftarrow> volume_draw rast stride w h (i32_wrap (x3 - 16)) base snap st3;
           Some st4 })"

definition panel_render ::
  "rasterizer \<Rightarrow> rstring \<Rightarrow> workspace_manager \<Rightarrow> nat list \<Rightarrow> panel_overlay \<Rightarrow> panel_overlay option" where
  "panel_render rast now mgr occupied p =
     (let b = po_bitmap p; w = pb_width b; h = pb_height b; stride = pb_stride b in
      do { px \<leftarrow> panel_base stride w h mgr occupied (pb_pixels b);
           (txt, px') \<leftarrow> (case po_text p of
               None \<Rightarrow> Some (None, px)
             | Some cache \<Rightarrow>
                 map_option (\<lambda>(c, q). (Some c, q))
                   (panel_indicators rast stride w h now (po_modules p) (cache, px)));
           Some (p\<lparr>po_bitmap := b\<lparr>pb_pixels := px', pb_dirty := False,
                     pb_generation := pb_generation b + 1\<rparr>, po_text := txt\<rparr>) })"

section \<open>Upload\<close>

text \<open>
  \<open>update_panel_bitmap\<close> of \<open>render.rs\<close>: the thread-local generation and memory buffer; \<open>mode_w\<close>
  is the width of the primary output's mode.
\<close>

record panel_upload =
  up_gen :: u64
  up_memory :: "(u8 list \<times> i32 \<times> i32) option"

definition update_panel_bitmap ::
  "rasterizer \<Rightarrow> rstring \<Rightarrow> workspace_manager \<Rightarrow> nat list \<Rightarrow> i32 option \<Rightarrow> panel_overlay \<times> panel_upload \<Rightarrow>
   (panel_overlay \<times> panel_upload) option" where
  "update_panel_bitmap rast now mgr occupied mode_w = (\<lambda>(p, u).
     let w = (case mode_w of Some m \<Rightarrow> i32_as_u32 m | None \<Rightarrow> 1920) in
     map_option (\<lambda>p'.
        let b = po_bitmap p' in
        (p', if up_gen u \<noteq> pb_generation b
             then \<lparr>up_gen = pb_generation b,
                   up_memory = Some (pb_pixels b, u32_as_i32 (pb_width b), u32_as_i32 (pb_height b))\<rparr>
             else u))
       (panel_render rast now mgr occupied (panel_resize w p)))"

section \<open>Which renders can panic\<close>

lemma panel_fill_ok [option_loop]:
  "sized stride w h px \<Longrightarrow> \<exists>q. panel_fill_rect stride w h x y rw rh c px = Some q \<and> sized stride w h q"
  unfolding sized_def panel_fill_rect_mirror by (rule fill_op.op_ok)

lemma fill_circle_ok:
  "sized stride w h px \<Longrightarrow> \<exists>q. fill_circle stride w h cx cy r c px = Some q \<and> sized stride w h q"
  unfolding fill_circle_def Let_def
  by (intro fold_opt_total [where I = "sized stride w h"]) (auto intro: panel_fill_ok)

lemma ring_circle_ok:
  "sized stride w h px \<Longrightarrow> \<exists>q. ring_circle stride w h cx cy r c px = Some q \<and> sized stride w h q"
  unfolding ring_circle_def Let_def
  by (intro fold_opt_total [where I = "sized stride w h"]) (auto intro: panel_fill_ok)

lemma workspaces_draw_ok:
  "sized stride w h px \<Longrightarrow> \<exists>q. workspaces_draw stride w h act occ px = Some q \<and> sized stride w h q"
  unfolding workspaces_draw_def Let_def
  by (intro fold_opt_total [where I = "sized stride w h"]) (auto intro: fill_circle_ok ring_circle_ok)

lemma panel_base_ok:
  assumes "sized stride w h px"
  shows "\<exists>q. panel_base stride w h mgr occ px = Some q \<and> sized stride w h q"
proof -
  have 1: "\<exists>q. wlcommon_hline stride w h 0 0 (u32_as_i32 w) DIVIDER (panel_clear SURFACE_1 px) = Some q \<and>
      sized stride w h q"
    using assms hline_op.op_ok clear_op.op_ok [of stride w h px SURFACE_1]
    by (simp add: panel_hline_mirror panel_clear_mirror sized_def)
  show ?thesis
    unfolding panel_base_def
    by (intro bind_total [where P = "sized stride w h"] 1 panel_fill_ok workspaces_draw_ok
        fold_opt_total [where I = "sized stride w h"]) (auto intro: panel_fill_ok)
qed

lemma draw_label_ok:
  assumes "rast_ok rast" and "text_ok stride w h st"
  shows "\<exists>r. draw_label rast stride w h pen_x base lbl c st = Some r \<and> text_ok stride w h (fst r)"
proof -
  obtain cache px where st: "st = (cache, px)" by (cases st)
  with assms(2) have ok: "cache_ok cache" "buffer_ok stride w h px"
    by (simp_all add: text_ok_def sized_def)
  obtain cache1 wd where m: "measure_text rast cache lbl 13 Regular = (cache1, wd)" "cache_ok cache1"
    using draw_text_ok [OF assms(1) ok] by blast
  from draw_text_ok [OF assms(1) m(2) ok(2), of "i32_wrap (pen_x - wd)" base lbl 13 c Regular] ok
  show ?thesis by (auto simp: draw_label_def st m(1) Let_def text_ok_def sized_def buffer_ok_def)
qed

lemma module_draw_ok:
  assumes "rast_ok rast" and "text_ok stride w h st"
  shows "\<exists>r. clock_draw rast stride w h x base now st = Some r \<and> text_ok stride w h (fst r)"
    and "\<exists>r. battery_draw rast stride w h x base snap st = Some r \<and> text_ok stride w h (fst r)"
    and "\<exists>r. volume_draw rast stride w h x base snap st = Some r \<and> text_ok stride w h (fst r)"
    and "network_label (snap_network snap) \<noteq> None \<Longrightarrow>
      \<exists>r. network_draw rast stride w h x base snap st = Some r \<and> text_ok stride w h (fst r)"
  using draw_label_ok [OF assms] assms(2)
  by (auto simp: clock_draw_def battery_draw_def volume_draw_def network_draw_def
      split: option.splits simp del: split_paired_Ex)

lemma bind_pair_total:
  "\<exists>r. m = Some r \<and> P (fst r) \<Longrightarrow> (\<And>a b. P a \<Longrightarrow> \<exists>z. f a b = Some z \<and> Q z) \<Longrightarrow>
    \<exists>z. Option.bind m (\<lambda>(a, b). f a b) = Some z \<and> Q z"
  by auto

lemma panel_indicators_ok:
  assumes "rast_ok rast" and "text_ok stride w h st" and "network_label (snap_network snap) \<noteq> None"
  shows "\<exists>r. panel_indicators rast stride w h now snap st = Some r \<and> text_ok stride w h r"
  unfolding panel_indicators_def Let_def
  by (intro bind_pair_total [where P = "text_ok stride w h"] module_draw_ok assms) simp_all

lemma panel_indicators_panic:
  assumes "rast_ok rast" and "text_ok stride w h st" and "network_label (snap_network snap) = None"
  shows "panel_indicators rast stride w h now snap st = None"
proof -
  have "network_draw rast stride w h x base snap s = None" for x base s
    by (simp add: network_draw_def assms(3))
  then show ?thesis by (simp add: panel_indicators_def Let_def bind_eq_None_conv split: prod.splits)
qed

lemma short_labels:
  "str_len (lit ''ETH'') \<le> 16" "str_len (lit ''WIFI'') \<le> 16" "str_len (lit ''NET'') \<le> 16"
  by code_simp+

lemma network_label_panics:
  "network_label n = None \<longleftrightarrow> net_kind n = NetWireless \<and>
    (\<exists>ssid. net_ssid n = Some ssid \<and> 16 < str_len ssid \<and> str_prefix 15 ssid = None)"
proof (cases "net_kind n")
  case NetWireless
  then show ?thesis
    using short_labels(2) by (cases "net_ssid n") (auto simp: network_label_def str_len_def)
qed (use short_labels in \<open>simp_all add: network_label_def\<close>)

text \<open>The panel's invariant.\<close>

definition panel_ok :: "panel_overlay \<Rightarrow> bool" where
  "panel_ok p \<longleftrightarrow> length (pb_pixels (po_bitmap p)) = unat (pb_width (po_bitmap p)) * unat (pb_height (po_bitmap p)) * 4 \<and>
     (case po_text p of None \<Rightarrow> True | Some c \<Rightarrow> cache_ok c)"

lemma panel_ok_sized:
  "panel_ok p \<Longrightarrow> sized (pb_stride (po_bitmap p)) (pb_width (po_bitmap p)) (pb_height (po_bitmap p)) (pb_pixels (po_bitmap p))"
  by (simp add: panel_ok_def sized_def buffer_ok_def pb_stride_def)

lemma panel_ok_new: "panel_ok (panel_new b)"
  by (simp add: panel_ok_def panel_new_def pb_new_def cache_ok_def)

lemma panel_ok_resize: "panel_ok p \<Longrightarrow> panel_ok (panel_resize w p)"
  by (simp add: panel_ok_def panel_resize_def pb_resize_def)

lemma panel_render_cases:
  assumes "rast_ok rast" and "panel_ok p"
  shows "(po_text p \<noteq> None \<and> network_label (snap_network (po_modules p)) = None \<and>
      panel_render rast now mgr occ p = None) \<or>
    ((po_text p = None \<or> network_label (snap_network (po_modules p)) \<noteq> None) \<and>
      (\<exists>p'. panel_render rast now mgr occ p = Some p' \<and> panel_ok p' \<and> po_modules p' = po_modules p \<and>
         pb_width (po_bitmap p') = pb_width (po_bitmap p) \<and>
         pb_height (po_bitmap p') = pb_height (po_bitmap p) \<and>
         pb_generation (po_bitmap p') = pb_generation (po_bitmap p) + 1))"
proof -
  let ?b = "po_bitmap p"
  obtain px where px: "panel_base (pb_stride ?b) (pb_width ?b) (pb_height ?b) mgr occ (pb_pixels ?b) = Some px"
      "sized (pb_stride ?b) (pb_width ?b) (pb_height ?b) px"
    using panel_base_ok [OF panel_ok_sized [OF assms(2)]] by blast
  have len: "length q = unat (pb_width ?b) * unat (pb_height ?b) * 4"
    if "sized (pb_stride ?b) (pb_width ?b) (pb_height ?b) q" for q
    using that by (simp add: sized_def buffer_ok_def pb_stride_def)
  show ?thesis
  proof (cases "po_text p")
    case None
    then show ?thesis using px len by (simp add: panel_render_def Let_def panel_ok_def)
  next
    case (Some cache)
    then have t: "text_ok (pb_stride ?b) (pb_width ?b) (pb_height ?b) (cache, px)"
      using assms(2) px(2) by (simp add: panel_ok_def text_ok_def)
    show ?thesis
    proof (cases "network_label (snap_network (po_modules p)) = None")
      case True
      with Some px panel_indicators_panic [OF assms(1) t True] show ?thesis
        by (simp add: panel_render_def Let_def)
    next
      case False
      with Some px len panel_indicators_ok [OF assms(1) t False, of now] show ?thesis
        by (auto simp: panel_render_def Let_def panel_ok_def text_ok_def)
    qed
  qed
qed

lemma generation_moves: "(g :: u64) + 1 \<noteq> g" "g + 1 + 1 \<noteq> g"
  using add_left_cancel [of g 1 0] add_left_cancel [of g 2 0] by (simp_all add: add.assoc)

lemma update_cases:
  assumes "rast_ok rast" and "panel_ok p"
    and "update_panel_bitmap rast now mgr occ mode_w (p, u) = Some (p', u')"
  shows "panel_ok p' \<and> (up_gen u = pb_generation (po_bitmap p) \<longrightarrow>
    up_gen u' = pb_generation (po_bitmap p') \<and>
    up_memory u' = Some (pb_pixels (po_bitmap p'), u32_as_i32 (pb_width (po_bitmap p')),
                         u32_as_i32 (pb_height (po_bitmap p'))))"
proof -
  let ?w = "case mode_w of Some m \<Rightarrow> i32_as_u32 m | None \<Rightarrow> 1920"
  from assms(3) have r: "panel_render rast now mgr occ (panel_resize ?w p) = Some p'"
    and u': "u' = (if up_gen u \<noteq> pb_generation (po_bitmap p')
      then \<lparr>up_gen = pb_generation (po_bitmap p'), up_memory = Some (pb_pixels (po_bitmap p'),
        u32_as_i32 (pb_width (po_bitmap p')), u32_as_i32 (pb_height (po_bitmap p')))\<rparr> else u)"
    by (auto simp: update_panel_bitmap_def Let_def)
  have ok: "panel_ok p'" and
      step: "pb_generation (po_bitmap p') = pb_generation (po_bitmap (panel_resize ?w p)) + 1"
    using panel_render_cases [OF assms(1) panel_ok_resize [OF assms(2)], of ?w now mgr occ] r
    by (metis option.distinct(1) option.sel)+
  have "pb_generation (po_bitmap p') \<noteq> pb_generation (po_bitmap p)"
    using generation_moves by (simp add: step panel_resize_def pb_resize_def)
  with ok show ?thesis by (simp add: u')
qed

section \<open>Properties\<close>

text \<open>
  C32: when the panel panics. With a well-sized bitmap, rendering panics exactly when there are
  fonts and the wireless network's name is longer than 16 bytes with its fifteenth byte inside a
  character; an ASCII name never panics.
\<close>

theorem panel_render_panics_iff:
  assumes "rast_ok rast" and "panel_ok p"
  shows "panel_render rast now mgr occ p = None \<longleftrightarrow>
    po_text p \<noteq> None \<and> net_kind (snap_network (po_modules p)) = NetWireless \<and>
    (\<exists>ssid. net_ssid (snap_network (po_modules p)) = Some ssid \<and> 16 < str_len ssid \<and>
      str_prefix 15 ssid = None)"
proof -
  have "panel_render rast now mgr occ p = None \<longleftrightarrow>
      po_text p \<noteq> None \<and> network_label (snap_network (po_modules p)) = None"
    using panel_render_cases [OF assms, of now mgr occ] by (metis option.distinct(1))
  then show ?thesis by (simp only: network_label_panics)
qed

definition cyrillic_ssid :: rstring where
  "cyrillic_ssid = replicate 9 0x434"

definition ssid_panel :: panel_overlay where
  "ssid_panel = (panel_new True)\<lparr>po_modules := module_snapshot_default
     \<lparr>snap_network := \<lparr>net_kind = NetWireless, net_connected = True, net_ssid = Some cyrillic_ssid,
        net_strength = None\<rparr>\<rparr>\<rparr>"

theorem panel_render_panics_iff_witness:
  "panel_render box_rasterizer (lit ''12:00'') (mgr_new 9) [] ssid_panel = None"
proof -
  have "str_prefix 15 cyrillic_ssid = None" and "16 < str_len cyrillic_ssid" by code_simp+
  moreover have "panel_ok ssid_panel"
    using panel_ok_new [of True] by (simp add: ssid_panel_def panel_ok_def)
  moreover have "rast_ok box_rasterizer"
    by (simp add: rast_ok_def glyph_ok_def box_rasterizer_def)
  ultimately show ?thesis
    using panel_render_panics_iff [of box_rasterizer ssid_panel "lit ''12:00''" "mgr_new 9" "[]"]
    by (simp add: ssid_panel_def panel_new_def)
qed

text \<open>
  The uploaded panel is never stale. As long as the upload was in step with the bitmap
  before, every update uploads the pixels it has just rendered, because every render changes the
  generation; the comparison of generations never saves an upload.
\<close>

lemma panel_upload_is_current:
  assumes "rast_ok rast" and "panel_ok p" and "up_gen u = pb_generation (po_bitmap p)"
    and "update_panel_bitmap rast now mgr occ mode_w (p, u) = Some (p', u')"
  shows "up_gen u' = pb_generation (po_bitmap p') \<and>
    up_memory u' = Some (pb_pixels (po_bitmap p'), u32_as_i32 (pb_width (po_bitmap p')),
                         u32_as_i32 (pb_height (po_bitmap p')))"
  using update_cases [OF assms(1,2,4)] assms(3) by blast

end
