(* ===== verification/Keymap.thy ===== *)
theory Keymap
  imports Shm_Pool
begin

text \<open>
  Keyboard handling of the Wayland clients, \<open>crates/wlcommon/src/keymap.rs\<close>, and the UTF-8 codec
  behind \<open>str::from_utf8\<close>. The keyboard description library (xkbcommon) is a parameter: it
  compiles keymaps, keeps a state, named here by a number, and looks keys up in it.
\<close>

section \<open>UTF-8\<close>

definition utf8_bytes :: "rchar \<Rightarrow> nat list" where
  "utf8_bytes c =
     (if c < 128 then [c]
      else if c < 2048 then [192 + c div 64, 128 + c mod 64]
      else if c < 65536 then [224 + c div 4096, 128 + c div 64 mod 64, 128 + c mod 64]
      else [240 + c div 262144, 128 + c div 4096 mod 64, 128 + c div 64 mod 64, 128 + c mod 64])"

definition utf8_encode :: "rstring \<Rightarrow> nat list" where
  "utf8_encode s = concat (map utf8_bytes s)"

definition continues :: "nat \<Rightarrow> bool" where
  "continues b \<longleftrightarrow> 128 \<le> b \<and> b < 192"

definition scalar :: "rchar \<Rightarrow> bool" where
  "scalar c \<longleftrightarrow> c < 0x110000 \<and> \<not> (0xD800 \<le> c \<and> c < 0xE000)"

text \<open>
  Decoding rejects stray continuation bytes, overlong forms, surrogates and values above
  \<open>U+10FFFF\<close>.
\<close>

fun utf8_decode :: "nat list \<Rightarrow> rstring option" where
  "utf8_decode [] = Some []"
| "utf8_decode (b0 # bs) =
     (if b0 < 128 then map_option ((#) b0) (utf8_decode bs)
      else if 192 \<le> b0 \<and> b0 < 224 then
        (case bs of
           b1 # rest \<Rightarrow>
             (let c = (b0 - 192) * 64 + (b1 - 128) in
              if continues b1 \<and> 128 \<le> c then map_option ((#) c) (utf8_decode rest) else None)
         | _ \<Rightarrow> None)
      else if 224 \<le> b0 \<and> b0 < 240 then
        (case bs of
           b1 # b2 # rest \<Rightarrow>
             (let c = (b0 - 224) * 4096 + (b1 - 128) * 64 + (b2 - 128) in
              if continues b1 \<and> continues b2 \<and> 2048 \<le> c \<and> scalar c
              then map_option ((#) c) (utf8_decode rest) else None)
         | _ \<Rightarrow> None)
      else if 240 \<le> b0 \<and> b0 < 248 then
        (case bs of
           b1 # b2 # b3 # rest \<Rightarrow>
             (let c = (b0 - 240) * 262144 + (b1 - 128) * 4096 + (b2 - 128) * 64 + (b3 - 128) in
              if continues b1 \<and> continues b2 \<and> continues b3 \<and> 65536 \<le> c \<and> scalar c
              then map_option ((#) c) (utf8_decode rest) else None)
         | _ \<Rightarrow> None)
      else None)"

lemma base64_digits:
  "c div 64 * 64 + c mod 64 = (c :: nat)"
  "c div 4096 * 4096 + c div 64 mod 64 * 64 + c mod 64 = c"
  "c div 262144 * 262144 + c div 4096 mod 64 * 4096 + c div 64 mod 64 * 64 + c mod 64 = c"
proof -
  have e: "c div 4096 = c div 64 div 64" "c div 262144 = c div 64 div 64 div 64"
    by (simp_all flip: div_mult2_eq)
  note r = div_mult_mod_eq [of c 64] div_mult_mod_eq [of "c div 64" 64] div_mult_mod_eq [of "c div 64 div 64" 64]
  show "c div 64 * 64 + c mod 64 = c" by simp
  show "c div 4096 * 4096 + c div 64 mod 64 * 64 + c mod 64 = c" using r unfolding e by linarith
  show "c div 262144 * 262144 + c div 4096 mod 64 * 4096 + c div 64 mod 64 * 64 + c mod 64 = c"
    using r unfolding e by linarith
qed

lemma utf8_step:
  assumes "scalar c"
  shows "utf8_decode (utf8_bytes c @ rest) = map_option ((#) c) (utf8_decode rest)"
proof -
  consider "c < 128" | "128 \<le> c" "c < 2048" | "2048 \<le> c" "c < 65536" | "65536 \<le> c" "c < 0x110000"
    using assms unfolding scalar_def by linarith
  then show ?thesis
  proof cases
    case 1
    then show ?thesis by (simp add: utf8_bytes_def)
  next
    case 2
    have "2 \<le> c div 64" "c div 64 < 32"
      using 2 div_le_mono [of 128 c 64] by (simp_all add: less_mult_imp_div_less)
    note d = this div_mult_mod_eq [of c 64]
    from 2 show ?thesis by (simp add: utf8_bytes_def continues_def Let_def d)
  next
    case 3
    have "c div 4096 < 16" using 3 by (simp add: less_mult_imp_div_less)
    note d = this base64_digits(2) [of c]
    then show ?thesis using 3 assms by (simp add: utf8_bytes_def continues_def Let_def)
  next
    case 4
    have "c div 262144 < 8" using 4 by (simp add: less_mult_imp_div_less)
    note d = this base64_digits(3) [of c]
    then show ?thesis using 4 assms by (simp add: utf8_bytes_def continues_def Let_def)
  qed
qed

lemma utf8_roundtrip: "\<forall>c \<in> set s. scalar c \<Longrightarrow> utf8_decode (utf8_encode s) = Some s"
  by (induction s) (simp_all add: utf8_encode_def utf8_step)

lemma utf8_bytes_small: "scalar c \<Longrightarrow> b \<in> set (utf8_bytes c) \<Longrightarrow> b < 256"
  by (auto simp: utf8_bytes_def scalar_def Let_def split: if_splits)

lemma bytes_of_text:
  assumes "\<forall>c \<in> set str. scalar c"
  shows "map unat (map of_nat (utf8_encode str) :: u8 list) = utf8_encode str"
proof -
  have "unat (of_nat b :: u8) = b" if "b \<in> set (utf8_encode str)" for b
    using that assms utf8_bytes_small by (fastforce simp: utf8_encode_def unat_of_nat take_bit_nat_eq_self)
  then show ?thesis by (simp add: map_idI)
qed

section \<open>Key symbols\<close>

datatype action =
    Enter | Escape | Backspace | Delete | Tab
  | Up | Down | Left | Right
  | Home | EndKey
  | PageUp | PageDown

datatype key_symbol = KeyText rstring | KeyAction action | KeyNone

text \<open>The key symbols the program names; every other one is \<open>KEY_other\<close> of its code.\<close>

datatype keysym =
    KEY_Return | KEY_KP_Enter | KEY_Escape | KEY_BackSpace | KEY_Delete | KEY_Tab | KEY_ISO_Left_Tab
  | KEY_Up | KEY_KP_Up | KEY_Down | KEY_KP_Down | KEY_Left | KEY_KP_Left | KEY_Right | KEY_KP_Right
  | KEY_Home | KEY_KP_Home | KEY_End | KEY_KP_End
  | KEY_Page_Up | KEY_KP_Page_Up | KEY_Page_Down | KEY_KP_Page_Down
  | KEY_other u32

definition action_from_keysym :: "keysym \<Rightarrow> action option" where
  "action_from_keysym k =
     (if k \<in> {KEY_Return, KEY_KP_Enter} then Some Enter
      else if k = KEY_Escape then Some Escape
      else if k = KEY_BackSpace then Some Backspace
      else if k = KEY_Delete then Some Delete
      else if k \<in> {KEY_Tab, KEY_ISO_Left_Tab} then Some Tab
      else if k \<in> {KEY_Up, KEY_KP_Up} then Some Up
      else if k \<in> {KEY_Down, KEY_KP_Down} then Some Down
      else if k \<in> {KEY_Left, KEY_KP_Left} then Some Left
      else if k \<in> {KEY_Right, KEY_KP_Right} then Some Right
      else if k \<in> {KEY_Home, KEY_KP_Home} then Some Home
      else if k \<in> {KEY_End, KEY_KP_End} then Some EndKey
      else if k \<in> {KEY_Page_Up, KEY_KP_Page_Up} then Some PageUp
      else if k \<in> {KEY_Page_Down, KEY_KP_Page_Down} then Some PageDown
      else None)"

section \<open>\<open>KeyboardState\<close>\<close>

type_synonym xkb_handle = nat

record xkb =
  xkb_compile :: "rstring \<Rightarrow> xkb_handle option"
  xkb_state_new :: "xkb_handle \<Rightarrow> xkb_handle"
  xkb_update_mask :: "u32 \<Rightarrow> u32 \<Rightarrow> u32 \<Rightarrow> u32 \<Rightarrow> xkb_handle \<Rightarrow> xkb_handle"
  xkb_one_sym :: "xkb_handle \<Rightarrow> u32 \<Rightarrow> keysym"
  xkb_utf8 :: "xkb_handle \<Rightarrow> u32 \<Rightarrow> rstring"

record keyboard_state =
  kb_keymap :: "xkb_handle option"
  kb_state :: "xkb_handle option"

definition keyboard_new :: keyboard_state where
  "keyboard_new = \<lparr>kb_keymap = None, kb_state = None\<rparr>"

definition strip_trailing_nul :: "u8 list \<Rightarrow> u8 list" where
  "strip_trailing_nul b = (if b \<noteq> [] \<and> last b = 0 then butlast b else b)"

text \<open>
  \<open>mapped\<close> is the content of the mapped file, or the text of the error; \<open>utf8_error\<close> is the
  message of a failed decoding.
\<close>

definition apply_keymap ::
  "xkb \<Rightarrow> rstring + u8 list \<Rightarrow> u32 \<Rightarrow> rstring \<Rightarrow> keyboard_state \<Rightarrow> keyboard_state \<times> (wl_client_error + unit)" where
  "apply_keymap x mapped sz utf8_error kb =
     (case mapped of
        Inl e \<Rightarrow> (kb, Inl (Xkb (lit ''keymap mmap: '' @ e)))
      | Inr file \<Rightarrow>
          let bytes = take (unat (min sz (of_nat (length file)))) file in
          case utf8_decode (map unat (strip_trailing_nul bytes)) of
            None \<Rightarrow> (kb, Inl (Xkb (lit ''keymap utf8: '' @ utf8_error)))
          | Some txt \<Rightarrow>
              (case xkb_compile x txt of
                 None \<Rightarrow> (kb, Inl (Xkb (lit ''keymap compile failed'')))
               | Some km \<Rightarrow> (\<lparr>kb_keymap = Some km, kb_state = Some (xkb_state_new x km)\<rparr>, Inr ())))"

definition update_modifiers ::
  "xkb \<Rightarrow> u32 \<Rightarrow> u32 \<Rightarrow> u32 \<Rightarrow> u32 \<Rightarrow> keyboard_state \<Rightarrow> keyboard_state" where
  "update_modifiers x depressed latched locked grp kb =
     kb\<lparr>kb_state := map_option (xkb_update_mask x depressed latched locked grp) (kb_state kb)\<rparr>"

definition is_control :: "rchar \<Rightarrow> bool" where
  "is_control c \<longleftrightarrow> c < 32 \<or> 127 \<le> c \<and> c < 160"

definition process_key :: "xkb \<Rightarrow> u32 \<Rightarrow> keyboard_state \<Rightarrow> key_symbol" where
  "process_key x code kb =
     (case kb_state kb of
        None \<Rightarrow> KeyNone
      | Some st \<Rightarrow>
          (case action_from_keysym (xkb_one_sym x st (code + 8)) of
             Some a \<Rightarrow> KeyAction a
           | None \<Rightarrow>
               (let s = xkb_utf8 x st (code + 8) in
                if s = [] then KeyNone
                else if list_all is_control s then KeyNone
                else KeyText s)))"

definition keyboard_ready :: "keyboard_state \<Rightarrow> bool" where
  "keyboard_ready kb \<longleftrightarrow> kb_state kb \<noteq> None"

end
