(* ===== verification/Lock_Client.thy ===== *)
theory Lock_Client
  imports Scene Keymap
begin

text \<open>
  The screen locker \<open>crates/nx-lock\<close>: the PAM worker (\<open>pam_auth.rs\<close>), the lock screen
  (\<open>render.rs\<close>) and the Wayland client (\<open>state.rs\<close>).

  PAM, the kernel, the keyboard library and the rasteriser are parameters. The worker thread is
  a step of its own that may be interleaved anywhere between the client's events. Sums of
  coordinates that cannot leave the range of \<open>i32\<close> are written without the wrap-around.
\<close>

section \<open>The PAM worker\<close>

datatype auth_result = AuthOk | AuthFail rstring

text \<open>The answers of one PAM conversation: the error of each call, if it fails.\<close>

record pam =
  pam_with_password :: "rstring \<Rightarrow> rstring option"
  pam_authenticate :: "rstring \<Rightarrow> rstring \<Rightarrow> rstring option"
  pam_open_session :: "rstring \<Rightarrow> rstring option"

definition authenticate :: "pam \<Rightarrow> rstring \<Rightarrow> rstring \<Rightarrow> rstring \<Rightarrow> auth_result" where
  "authenticate pm service username password =
     (case pam_with_password pm service of
        Some e \<Rightarrow> AuthFail (lit ''pam init: '' @ e)
      | None \<Rightarrow>
          (case pam_authenticate pm username password of
             Some e \<Rightarrow> AuthFail (lit ''authenticate: '' @ e)
           | None \<Rightarrow>
               (case pam_open_session pm username of
                  Some e \<Rightarrow> AuthFail (lit ''open_session: '' @ e)
                | None \<Rightarrow> AuthOk)))"

text \<open>\<open>current_username\<close>: the entry \<open>getpwuid_r\<close> finds, if it finds one.\<close>

definition current_username :: "rstring option \<Rightarrow> rstring" where
  "current_username entry = (case entry of Some name \<Rightarrow> name | None \<Rightarrow> lit ''root'')"

section \<open>The lock screen\<close>

definition disc ::
  "nat \<Rightarrow> u32 \<Rightarrow> u32 \<Rightarrow> i32 \<Rightarrow> i32 \<Rightarrow> i32 \<Rightarrow> color \<Rightarrow> u8 list \<Rightarrow> u8 list option" where
  "disc stride w h cx cy r c =
     each [-r..r] (\<lambda>dy. each [-r..r] (\<lambda>dx.
       guarded (dx * dx + dy * dy \<le> r * r) (fill_rect stride w h (cx + dx) (cy + dy) 1 1 c)))"

definition attempts_label :: "u32 \<Rightarrow> rstring" where
  "attempts_label n = (if n = 1 then lit ''Incorrect password'' else dec (unat n) @ lit '' failed attempts'')"

record lock_view =
  lv_username :: rstring
  lv_password_len :: nat
  lv_fail_count :: u32
  lv_pending :: bool

definition lock_text :: "rasterizer \<Rightarrow> lock_view \<Rightarrow> nat \<Rightarrow> u32 \<Rightarrow> u32 \<Rightarrow> text_state \<Rightarrow> text_state option" where
  "lock_text rast v stride w h =
     (let px = i32_quot (i32_wrap (u32_as_i32 w - 420)) 2;
          py = i32_quot (i32_wrap (u32_as_i32 h - 240)) 2;
          cx = px + i32_quot 420 2; field_x = px + 32; field_y = py + 130; field_h = 36 in
      steps
        [put_centred rast stride w h cx (py + 110) (lv_username v) 14 TEXT_PRIMARY Medium,
         put_text rast stride w h (field_x + 12) (field_y + i32_quot field_h 2 + 5)
           (replicate (min (lv_password_len v) 32) 0x2022) 14
           (if lv_pending v then TEXT_DISABLED else TEXT_PRIMARY) Regular,
         guarded (0 < lv_fail_count v)
           (put_centred rast stride w h cx (py + 240 - 24) (attempts_label (lv_fail_count v)) 12
              DESTRUCTIVE Regular)])"

definition lock_paint :: "rasterizer \<Rightarrow> lock_view \<Rightarrow> nat \<Rightarrow> u32 \<Rightarrow> u32 \<Rightarrow> scene \<Rightarrow> scene option" where
  "lock_paint rast v stride w h =
     (let px = i32_quot (i32_wrap (u32_as_i32 w - 420)) 2;
          py = i32_quot (i32_wrap (u32_as_i32 h - 240)) 2;
          cx = px + i32_quot 420 2; cy = py + 56;
          field_x = px + 32; field_y = py + 130; field_w = 420 - 64; field_h = 36 in
      steps
        [on_pixels (wipe BG),
         on_pixels (fill_rect stride w h px py 420 240 SURFACE_2),
         on_pixels (hline stride w h py px (px + 420) DIVIDER),
         on_pixels (hline stride w h (py + 240 - 1) px (px + 420) DIVIDER),
         on_pixels (disc stride w h cx cy 28 SURFACE_4),
         on_pixels (disc stride w h cx cy 8 ACCENT),
         on_pixels (fill_rect stride w h field_x field_y (i32_as_u32 field_w) (i32_as_u32 field_h) SURFACE_3),
         on_pixels (hline stride w h (field_y + field_h) field_x (field_x + field_w)
           (if lv_pending v then TEXT_DISABLED else ACCENT)),
         with_text (lock_text rast v stride w h)])"

lemma disc_keeps [keeping]: "keeps (sized stride w h) (disc stride w h cx cy r c)"
  unfolding disc_def by (intro keeping)

interpretation lock_painter: painter lock_paint
  by unfold_locales (unfold lock_paint_def lock_text_def Let_def, intro keeping)

section \<open>The client's state\<close>

record lock_output =
  lo_output :: nat
  lo_width :: u32
  lo_height :: u32
  lo_surface :: "nat option"
  lo_lock_surface :: "nat option"
  lo_buffer :: "shm_pool option"
  lo_configured :: bool

text \<open>The requests the client sends, in order, and the requests it hands to the worker.\<close>

datatype lock_effect =
    RequestLock
  | UnlockAndDestroy
  | CreateLockSurface nat nat
  | AckConfigure u32
  | CommitBuffer nat nat u32 u32
  | SendAuth rstring rstring
  | SleepMs nat

text \<open>
  \<open>ls_requests\<close> and \<open>ls_results\<close> are the two channels to and from the worker, \<open>ls_answered\<close> the
  number of requests the worker has served, \<open>ls_next\<close> names new objects.
\<close>

record lock_state =
  ls_lock :: bool
  ls_locked :: bool
  ls_outputs :: "lock_output list"
  ls_keyboard :: bool
  ls_keymap :: keyboard_state
  ls_text :: "glyph_cache option"
  ls_username :: rstring
  ls_password :: rstring
  ls_fail_count :: u32
  ls_pending :: bool
  ls_requests :: "(rstring \<times> rstring) list"
  ls_results :: "auth_result list"
  ls_should_quit :: bool
  ls_exit_code :: int
  ls_answered :: nat
  ls_next :: nat
  ls_trace :: "lock_effect list"

record lock_env =
  le_rast :: rasterizer
  le_os :: shm_os
  le_xkb :: xkb
  le_pam :: "nat \<Rightarrow> pam"
  le_service :: rstring

definition lock_new :: "bool \<Rightarrow> rstring option \<Rightarrow> lock_state" where
  "lock_new fonts_found entry =
     \<lparr>ls_lock = False, ls_locked = False, ls_outputs = [], ls_keyboard = False, ls_keymap = keyboard_new,
      ls_text = (if fonts_found then Some Map.empty else None), ls_username = current_username entry,
      ls_password = [], ls_fail_count = 0, ls_pending = False, ls_requests = [], ls_results = [],
      ls_should_quit = False, ls_exit_code = 0, ls_answered = 0, ls_next = 0, ls_trace = []\<rparr>"

definition emit :: "lock_effect \<Rightarrow> lock_state \<Rightarrow> lock_state" where
  "emit e s = s\<lparr>ls_trace := ls_trace s @ [e]\<rparr>"

definition engage :: "lock_state \<Rightarrow> lock_state" where
  "engage s = (emit RequestLock s)\<lparr>ls_lock := True\<rparr>"

definition lock_view_of :: "lock_state \<Rightarrow> lock_view" where
  "lock_view_of s = \<lparr>lv_username = ls_username s, lv_password_len = str_len (ls_password s),
     lv_fail_count = ls_fail_count s, lv_pending = ls_pending s\<rparr>"

text \<open>The buffers of an output: the pool it has, or a new one.\<close>

definition output_pool :: "lock_env \<Rightarrow> nat \<Rightarrow> lock_output \<Rightarrow> wl_client_error + shm_pool" where
  "output_pool env k out =
     (case lo_buffer out of
        Some p \<Rightarrow> Inr p
      | None \<Rightarrow> pool_new (le_os env) k (lo_width out) (lo_height out))"

definition repaint_output :: "lock_env \<Rightarrow> nat \<Rightarrow> lock_state \<Rightarrow> lock_state option" where
  "repaint_output env i s =
     (if \<not> i < length (ls_outputs s) then Some s
      else let out = ls_outputs s ! i in
        if \<not> lo_configured out then Some s
        else case output_pool env (ls_next s) out of
          Inl e \<Rightarrow> Some (s\<lparr>ls_next := ls_next s + 2\<rparr>)
        | Inr p \<Rightarrow>
            map_option (\<lambda>((p', t'), r).
                let s1 = s\<lparr>ls_outputs := (ls_outputs s)[i := out\<lparr>lo_buffer := Some p'\<rparr>], ls_text := t',
                           ls_next := ls_next s + 2\<rparr> in
                case (r, lo_surface out) of
                  (Inr d, Some surface) \<Rightarrow> emit (CommitBuffer surface (db_object d) (db_w d) (db_h d)) s1
                | _ \<Rightarrow> s1)
              (pool_draw (le_os env) (lock_paint (le_rast env) (lock_view_of s)) (p, ls_text s)))"

definition repaint_all :: "lock_env \<Rightarrow> lock_state \<Rightarrow> lock_state option" where
  "repaint_all env s = each [0..<length (ls_outputs s)] (repaint_output env) s"

definition submit_password :: "lock_env \<Rightarrow> lock_state \<Rightarrow> lock_state option" where
  "submit_password env s =
     (if ls_password s = [] \<or> ls_pending s then Some s
      else map_option (\<lambda>s1. (emit (SendAuth (ls_username s1) (ls_password s1)) s1)
                \<lparr>ls_requests := ls_requests s1 @ [(ls_username s1, ls_password s1)], ls_password := []\<rparr>)
             (repaint_all env (s\<lparr>ls_pending := True\<rparr>)))"

definition lock_handle_action :: "lock_env \<Rightarrow> action \<Rightarrow> lock_state \<Rightarrow> lock_state option" where
  "lock_handle_action env a s =
     (case a of
        Enter \<Rightarrow> submit_password env s
      | Backspace \<Rightarrow> repaint_all env (s\<lparr>ls_password := str_pop (ls_password s)\<rparr>)
      | Escape \<Rightarrow> repaint_all env (s\<lparr>ls_password := []\<rparr>)
      | _ \<Rightarrow> Some s)"

definition lock_handle_text :: "lock_env \<Rightarrow> rstring \<Rightarrow> lock_state \<Rightarrow> lock_state option" where
  "lock_handle_text env str s =
     (if \<not> ls_pending s then repaint_all env (s\<lparr>ls_password := ls_password s @ str\<rparr>) else Some s)"

text \<open>One result of the worker, and all that have arrived.\<close>

definition receive_auth :: "lock_env \<Rightarrow> auth_result \<Rightarrow> lock_state \<Rightarrow> lock_state option" where
  "receive_auth env r s0 =
     (let s = s0\<lparr>ls_pending := False\<rparr> in
      case r of
        AuthOk \<Rightarrow>
          Some ((if ls_lock s then emit UnlockAndDestroy s else s)\<lparr>ls_should_quit := True, ls_exit_code := 0\<rparr>)
      | AuthFail reason \<Rightarrow>
          map_option (emit (SleepMs 120))
            (repaint_all env (s\<lparr>ls_fail_count := ls_fail_count s + 1, ls_password := []\<rparr>)))"

definition poll_auth :: "lock_env \<Rightarrow> lock_state \<Rightarrow> lock_state option" where
  "poll_auth env s = each (ls_results s) (receive_auth env) (s\<lparr>ls_results := []\<rparr>)"

text \<open>The worker thread serves the oldest request.\<close>

definition worker_step :: "lock_env \<Rightarrow> lock_state \<Rightarrow> lock_state" where
  "worker_step env s =
     (case ls_requests s of
        [] \<Rightarrow> s
      | (u, p) # rest \<Rightarrow>
          s\<lparr>ls_requests := rest, ls_answered := ls_answered s + 1,
            ls_results := ls_results s @ [authenticate (le_pam env (ls_answered s)) (le_service env) u p]\<rparr>)"

section \<open>Events\<close>

datatype lock_event =
    EvLocked
  | EvFinished
  | EvConfigure nat u32 u32 u32
  | EvOutputMode nat i32 i32
  | EvSeatCapabilities bool
  | EvKeymap bool "rstring + u8 list" u32 rstring
  | EvModifiers u32 u32 u32 u32
  | EvKey u32 bool
  | EvBufferRelease nat nat

definition create_lock_surface_for :: "nat \<Rightarrow> lock_state \<Rightarrow> lock_state" where
  "create_lock_surface_for i s =
     (if \<not> i < length (ls_outputs s) then s
      else let out = ls_outputs s ! i in
        if lo_lock_surface out \<noteq> None then s
        else emit (CreateLockSurface (lo_output out) (ls_next s))
          (s\<lparr>ls_outputs := (ls_outputs s)[i := out\<lparr>lo_surface := Some (ls_next s), lo_lock_surface := Some (ls_next s)\<rparr>],
             ls_next := ls_next s + 1\<rparr>))"

definition configure_surface :: "lock_env \<Rightarrow> nat \<Rightarrow> u32 \<Rightarrow> u32 \<Rightarrow> u32 \<Rightarrow> lock_state \<Rightarrow> lock_state option" where
  "configure_surface env surf serial w h s0 =
     (let s = emit (AckConfigure serial) s0 in
      case position (\<lambda>o'. lo_lock_surface o' = Some surf) (ls_outputs s) of
        None \<Rightarrow> Some s
      | Some i \<Rightarrow>
          repaint_output env i
            (s\<lparr>ls_outputs := (ls_outputs s)[i := (ls_outputs s ! i)\<lparr>lo_width := max w 1, lo_height := max h 1,
                               lo_configured := True\<rparr>]\<rparr>))"

definition output_mode :: "nat \<Rightarrow> i32 \<Rightarrow> i32 \<Rightarrow> lock_state \<Rightarrow> lock_state" where
  "output_mode obj w h s =
     (let s1 = (case position (\<lambda>o'. lo_output o' = obj) (ls_outputs s) of
            Some i \<Rightarrow> s\<lparr>ls_outputs := (ls_outputs s)[i := (ls_outputs s ! i)\<lparr>lo_width := i32_as_u32 w,
                                       lo_height := i32_as_u32 h\<rparr>]\<rparr>
          | None \<Rightarrow> s\<lparr>ls_outputs := ls_outputs s @ [\<lparr>lo_output = obj, lo_width = i32_as_u32 w,
                       lo_height = i32_as_u32 h, lo_surface = None, lo_lock_surface = None,
                       lo_buffer = None, lo_configured = False\<rparr>]\<rparr>) in
      if ls_locked s1 \<and> ls_lock s1 then create_lock_surface_for (length (ls_outputs s1) - 1) s1 else s1)"

definition lock_dispatch :: "lock_env \<Rightarrow> lock_event \<Rightarrow> lock_state \<Rightarrow> lock_state option" where
  "lock_dispatch env ev s =
     (case ev of
        EvLocked \<Rightarrow> Some (fold create_lock_surface_for [0..<length (ls_outputs s)] (s\<lparr>ls_locked := True\<rparr>))
      | EvFinished \<Rightarrow> Some (s\<lparr>ls_should_quit := True, ls_exit_code := 1\<rparr>)
      | EvConfigure surf serial w h \<Rightarrow> configure_surface env surf serial w h s
      | EvOutputMode obj w h \<Rightarrow> Some (output_mode obj w h s)
      | EvSeatCapabilities kb \<Rightarrow> Some (if kb \<and> \<not> ls_keyboard s then s\<lparr>ls_keyboard := True\<rparr> else s)
      | EvKeymap xkb_v1 mapped n err \<Rightarrow>
          Some (if xkb_v1 then s\<lparr>ls_keymap := fst (apply_keymap (le_xkb env) mapped n err (ls_keymap s))\<rparr> else s)
      | EvModifiers d la lo g \<Rightarrow> Some (s\<lparr>ls_keymap := update_modifiers (le_xkb env) d la lo g (ls_keymap s)\<rparr>)
      | EvKey k pressed \<Rightarrow>
          (if \<not> pressed then Some s
           else case process_key (le_xkb env) k (ls_keymap s) of
             KeyAction a \<Rightarrow> lock_handle_action env a s
           | KeyText str \<Rightarrow> lock_handle_text env str s
           | KeyNone \<Rightarrow> Some s)
      | EvBufferRelease i obj \<Rightarrow>
          Some (if i < length (ls_outputs s)
                then s\<lparr>ls_outputs := (ls_outputs s)[i := (ls_outputs s ! i)
                       \<lparr>lo_buffer := map_option (mark_released obj) (lo_buffer (ls_outputs s ! i))\<rparr>]\<rparr>
                else s))"

text \<open>
  The main loop: one turn dispatches a batch of events and then polls the worker; the worker may
  run between any two of them. The loop ends once \<open>should_quit\<close> is set.
\<close>

datatype lock_input = Wayland lock_event | Worker

definition lock_input_step :: "lock_env \<Rightarrow> lock_input \<Rightarrow> lock_state \<Rightarrow> lock_state option" where
  "lock_input_step env i s = (case i of Wayland ev \<Rightarrow> lock_dispatch env ev s | Worker \<Rightarrow> Some (worker_step env s))"

definition lock_turn :: "lock_env \<Rightarrow> lock_input list \<Rightarrow> lock_state \<Rightarrow> lock_state option" where
  "lock_turn env batch s =
     (if ls_should_quit s then Some s
      else steps [each batch (lock_input_step env), poll_auth env] s)"

definition lock_run :: "lock_env \<Rightarrow> bool \<Rightarrow> rstring option \<Rightarrow> lock_input list list \<Rightarrow> lock_state option" where
  "lock_run env fonts_found entry turns = each turns (lock_turn env) (engage (lock_new fonts_found entry))"

section \<open>Repainting changes nothing else\<close>

definition output_ok :: "lock_output \<Rightarrow> bool" where
  "output_ok o' \<longleftrightarrow> dims_ok (lo_width o') (lo_height o') \<and> (\<forall>p. lo_buffer o' = Some p \<longrightarrow> pool_ok p)"

definition view_ok :: "lock_state \<Rightarrow> bool" where
  "view_ok s \<longleftrightarrow> (\<forall>o' \<in> set (ls_outputs s). output_ok o') \<and> text_cache_ok (ls_text s)"

fun is_commit :: "lock_effect \<Rightarrow> bool" where
  "is_commit (CommitBuffer _ _ _ _) = True"
| "is_commit _ = False"

text \<open>What a repaint leaves alone.\<close>

definition lock_core where
  "lock_core s = (ls_lock s, ls_locked s, ls_keymap s, ls_username s, ls_password s, ls_fail_count s,
     ls_pending s, ls_requests s, ls_results s, ls_should_quit s, ls_exit_code s, ls_answered s)"

definition repainted :: "lock_state \<Rightarrow> lock_state \<Rightarrow> bool" where
  "repainted s s' \<longleftrightarrow> lock_core s' = lock_core s \<and> length (ls_outputs s') = length (ls_outputs s) \<and>
     filter (Not \<circ> is_commit) (ls_trace s') = filter (Not \<circ> is_commit) (ls_trace s)"

lemma repainted_refl [simp]: "repainted s s"
  by (simp add: repainted_def)

lemma repainted_trans: "repainted s t \<Longrightarrow> repainted t u \<Longrightarrow> repainted s u"
  by (simp add: repainted_def)

lemma view_ok_update:
  "view_ok s \<Longrightarrow> output_ok out \<Longrightarrow> text_cache_ok t \<Longrightarrow> ls_outputs s' = (ls_outputs s)[i := out] \<Longrightarrow> ls_text s' = t \<Longrightarrow> view_ok s'"
  by (auto simp: view_ok_def dest!: set_update_subset_insert [THEN subsetD])

lemma output_pool_ok:
  "output_ok out \<Longrightarrow> output_pool env k out = Inr p \<Longrightarrow> pool_ok p"
  by (auto simp: output_pool_def output_ok_def pool_new_ok split: option.splits)

lemma repaint_output_ok:
  assumes "rast_ok (le_rast env)" and "view_ok s"
  shows "\<exists>s'. repaint_output env i s = Some s' \<and> view_ok s' \<and> repainted s s'"
proof (cases "i < length (ls_outputs s) \<and> lo_configured (ls_outputs s ! i)")
  case False
  then show ?thesis using assms(2) by (auto simp: repaint_output_def Let_def)
next
  case True
  let ?out = "ls_outputs s ! i"
  from True assms(2) have out: "output_ok ?out" by (simp add: view_ok_def)
  show ?thesis
  proof (cases "output_pool env (ls_next s) ?out")
    case (Inl e)
    then show ?thesis using True assms(2)
      by (simp add: repaint_output_def Let_def view_ok_def repainted_def lock_core_def)
  next
    case (Inr p)
    have cache: "text_cache_ok (ls_text s)" using assms(2) by (simp add: view_ok_def)
    from lock_painter.draw_ok [OF assms(1) output_pool_ok [OF out Inr] cache, of "le_os env" "lock_view_of s"]
    obtain p' t' r where d: "pool_draw (le_os env) (lock_paint (le_rast env) (lock_view_of s)) (p, ls_text s) =
        Some ((p', t'), r)" "pool_ok p'" "text_cache_ok t'" by blast
    have out': "output_ok (?out\<lparr>lo_buffer := Some p'\<rparr>)" using out d(2) by (simp add: output_ok_def)
    show ?thesis
      using True Inr d(1) view_ok_update [OF assms(2) out' d(3)]
      by (auto simp: repaint_output_def Let_def emit_def repainted_def lock_core_def
          split: sum.splits option.splits)
  qed
qed

lemma repaint_all_ok:
  assumes "rast_ok (le_rast env)" and "view_ok s"
  shows "\<exists>s'. repaint_all env s = Some s' \<and> view_ok s' \<and> repainted s s'"
proof -
  have "keeps (\<lambda>t. view_ok t \<and> repainted s t) (repaint_output env i)" for i
    using repaint_output_ok [OF assms(1)] by (fastforce simp: keeps_def intro: repainted_trans)
  then have "keeps (\<lambda>t. view_ok t \<and> repainted s t) (each [0..<length (ls_outputs s)] (repaint_output env))"
    by (intro keeping)
  from keepsD [OF this, of s] assms(2) show ?thesis by (simp add: repaint_all_def)
qed

section \<open>The invariant\<close>

text \<open>
  Somebody has given the password: PAM has accepted, in one of its conversations, a non-empty
  password that the client had sent for its own user.
\<close>

definition granted :: "lock_env \<Rightarrow> lock_state \<Rightarrow> bool" where
  "granted env s \<longleftrightarrow> (\<exists>n pw. pw \<noteq> [] \<and> SendAuth (ls_username s) pw \<in> set (ls_trace s) \<and>
     authenticate (le_pam env n) (le_service env) (ls_username s) pw = AuthOk)"

definition requests_ok :: "lock_state \<Rightarrow> bool" where
  "requests_ok s \<longleftrightarrow> length (ls_requests s) + length (ls_results s) = of_bool (ls_pending s) \<and>
     (\<forall>(u, pw) \<in> set (ls_requests s). u = ls_username s \<and> pw \<noteq> [] \<and> SendAuth u pw \<in> set (ls_trace s))"

definition unlock_ok :: "lock_env \<Rightarrow> lock_state \<Rightarrow> bool" where
  "unlock_ok env s \<longleftrightarrow> ls_lock s \<and>
     (AuthOk \<in> set (ls_results s) \<or> UnlockAndDestroy \<in> set (ls_trace s) \<longrightarrow> granted env s) \<and>
     (ls_should_quit s \<and> ls_exit_code s = 0 \<longrightarrow> UnlockAndDestroy \<in> set (ls_trace s))"

definition lock_inv :: "lock_env \<Rightarrow> lock_state \<Rightarrow> bool" where
  "lock_inv env s \<longleftrightarrow> rast_ok (le_rast env) \<and> view_ok s \<and> requests_ok s \<and> unlock_ok env s \<and>
     (ls_pending s \<longrightarrow> ls_password s = [])"

lemma commits_elsewhere:
  assumes "repainted s s'" and "\<not> is_commit e"
  shows "e \<in> set (ls_trace s') \<longleftrightarrow> e \<in> set (ls_trace s)"
proof -
  have "e \<in> set t \<longleftrightarrow> e \<in> set (filter (Not \<circ> is_commit) t)" for t using assms(2) by simp
  then show ?thesis using assms(1) unfolding repainted_def by metis
qed

lemma repainted_parts:
  assumes "repainted s s'"
  shows "requests_ok s' = requests_ok s" "unlock_ok env s' = unlock_ok env s"
    "ls_pending s' = ls_pending s" "ls_password s' = ls_password s" "ls_username s' = ls_username s"
    "ls_requests s' = ls_requests s" "ls_results s' = ls_results s"
  using assms commits_elsewhere [OF assms, of UnlockAndDestroy] commits_elsewhere [OF assms, of "SendAuth u p" for u p]
  by (simp_all add: requests_ok_def unlock_ok_def granted_def repainted_def lock_core_def)

text \<open>A change of the password buffer followed by a repaint.\<close>

lemma repaint_inv:
  assumes "rast_ok (le_rast env)" "view_ok s" "requests_ok s" "unlock_ok env s" "ls_pending s \<longrightarrow> ls_password s = []"
  shows "\<exists>s'. repaint_all env s = Some s' \<and> lock_inv env s'"
proof -
  obtain s' where s': "repaint_all env s = Some s'" "view_ok s'" "repainted s s'"
    using repaint_all_ok [OF assms(1,2)] by blast
  with assms repainted_parts [OF s'(3)] show ?thesis by (simp add: lock_inv_def)
qed

lemma password_update:
  "view_ok (s\<lparr>ls_password := x\<rparr>) = view_ok s" "requests_ok (s\<lparr>ls_password := x\<rparr>) = requests_ok s"
  "unlock_ok env (s\<lparr>ls_password := x\<rparr>) = unlock_ok env s"
  by (simp_all add: view_ok_def requests_ok_def unlock_ok_def granted_def)

lemma submit_password_inv:
  assumes "lock_inv env s"
  shows "\<exists>s'. submit_password env s = Some s' \<and> lock_inv env s'"
proof (cases "ls_password s = [] \<or> ls_pending s")
  case False
  let ?t = "s\<lparr>ls_pending := True\<rparr>"
  have "view_ok ?t" "rast_ok (le_rast env)" using assms by (simp_all add: lock_inv_def view_ok_def)
  from repaint_all_ok [OF this(2,1)] obtain s1 where
    s1: "repaint_all env ?t = Some s1" "view_ok s1" "repainted ?t s1" by blast
  note parts = repainted_parts [OF s1(3)] commits_elsewhere [OF s1(3)]
  have "requests_ok s" "unlock_ok env s" "\<not> ls_pending s" "ls_password s \<noteq> []"
    using assms False by (simp_all add: lock_inv_def)
  moreover have "ls_lock s1 = ls_lock s" "ls_should_quit s1 = ls_should_quit s" "ls_exit_code s1 = ls_exit_code s"
    using s1(3) by (simp_all add: repainted_def lock_core_def)
  ultimately show ?thesis
    using False s1(1,2) parts \<open>rast_ok (le_rast env)\<close>
    by (auto simp: submit_password_def lock_inv_def requests_ok_def unlock_ok_def granted_def view_ok_def emit_def)
qed (use assms in \<open>simp add: submit_password_def\<close>)

lemma lock_handle_action_inv:
  assumes "lock_inv env s"
  shows "\<exists>s'. lock_handle_action env a s = Some s' \<and> lock_inv env s'"
proof -
  have "\<exists>s'. repaint_all env (s\<lparr>ls_password := x\<rparr>) = Some s' \<and> lock_inv env s'"
    if "ls_pending s \<longrightarrow> x = []" for x
    using assms that by (intro repaint_inv) (simp_all add: lock_inv_def password_update)
  then show ?thesis
    using submit_password_inv [OF assms] assms
    by (cases a) (simp_all add: lock_handle_action_def lock_inv_def str_pop_def)
qed

lemma lock_handle_text_inv:
  assumes "lock_inv env s"
  shows "\<exists>s'. lock_handle_text env str s = Some s' \<and> lock_inv env s'"
  using assms repaint_inv [of env "s\<lparr>ls_password := ls_password s @ str\<rparr>"]
  by (cases "ls_pending s") (simp_all add: lock_handle_text_def lock_inv_def password_update)

text \<open>Fields that the invariant does not read, and the outputs.\<close>

lemma lock_inv_outputs:
  assumes "lock_inv env s" and "\<forall>o' \<in> set os. output_ok o'"
  shows "lock_inv env (s\<lparr>ls_outputs := os\<rparr>)"
  using assms by (simp add: lock_inv_def view_ok_def requests_ok_def unlock_ok_def granted_def)

lemma lock_inv_other:
  "lock_inv env (s\<lparr>ls_locked := b\<rparr>) = lock_inv env s"
  "lock_inv env (s\<lparr>ls_keyboard := b\<rparr>) = lock_inv env s"
  "lock_inv env (s\<lparr>ls_keymap := km\<rparr>) = lock_inv env s"
  "lock_inv env (s\<lparr>ls_next := n\<rparr>) = lock_inv env s"
  by (simp_all add: lock_inv_def view_ok_def requests_ok_def unlock_ok_def granted_def)

lemma lock_inv_emit: "lock_inv env s \<Longrightarrow> e \<noteq> UnlockAndDestroy \<Longrightarrow> lock_inv env (emit e s)"
  by (auto simp: lock_inv_def view_ok_def requests_ok_def unlock_ok_def granted_def emit_def)

lemma lock_inv_output: "lock_inv env s \<Longrightarrow> i < length (ls_outputs s) \<Longrightarrow> output_ok (ls_outputs s ! i)"
  by (simp add: lock_inv_def view_ok_def)

lemma lock_inv_set_output:
  assumes "lock_inv env s" and "output_ok out"
  shows "lock_inv env (s\<lparr>ls_outputs := (ls_outputs s)[i := out]\<rparr>)"
  using assms
  by (intro lock_inv_outputs) (auto simp: lock_inv_def view_ok_def dest!: set_update_subset_insert [THEN subsetD])

lemma create_lock_surface_inv [step_inv]:
  assumes "lock_inv env s"
  shows "lock_inv env (create_lock_surface_for i s)"
proof -
  let ?out = "(ls_outputs s ! i)\<lparr>lo_surface := Some (ls_next s), lo_lock_surface := Some (ls_next s)\<rparr>"
  have "lock_inv env (emit e (s\<lparr>ls_outputs := (ls_outputs s)[i := ?out], ls_next := ls_next s + 1\<rparr>))"
    if "i < length (ls_outputs s)" "e \<noteq> UnlockAndDestroy" for e
    using lock_inv_output [OF assms that(1)] that(2)
    by (intro lock_inv_emit) (simp_all add: lock_inv_other(4) lock_inv_set_output [OF assms] output_ok_def)
  then show ?thesis using assms by (simp add: create_lock_surface_for_def Let_def)
qed

lemma repaint_output_inv:
  assumes "lock_inv env s"
  shows "\<exists>s'. repaint_output env i s = Some s' \<and> lock_inv env s'"
proof -
  obtain s' where s': "repaint_output env i s = Some s'" "view_ok s'" "repainted s s'"
    using repaint_output_ok [of env s i] assms by (auto simp: lock_inv_def)
  with assms repainted_parts [OF s'(3)] show ?thesis by (simp add: lock_inv_def)
qed

lemma position_bound: "position P xs = Some i \<Longrightarrow> i < length xs"
  by (simp add: position_Some)

lemma configure_surface_inv:
  assumes "lock_inv env s" and "dims_ok (max w 1) (max h 1)"
  shows "\<exists>s'. configure_surface env surf serial w h s = Some s' \<and> lock_inv env s'"
proof -
  let ?s = "emit (AckConfigure serial) s"
  have inv: "lock_inv env ?s" using assms(1) by (simp add: lock_inv_emit)
  show ?thesis
  proof (cases "position (\<lambda>o'. lo_lock_surface o' = Some surf) (ls_outputs ?s)")
    case (Some i)
    from lock_inv_output [OF inv position_bound [OF Some]] assms(2)
    have "output_ok ((ls_outputs ?s ! i)\<lparr>lo_width := max w 1, lo_height := max h 1, lo_configured := True\<rparr>)"
      by (simp add: output_ok_def)
    from repaint_output_inv [OF lock_inv_set_output [OF inv this]] Some show ?thesis
      by (simp add: configure_surface_def Let_def)
  qed (use inv in \<open>simp add: configure_surface_def\<close>)
qed

lemma output_mode_inv:
  assumes "lock_inv env s" and "dims_ok (i32_as_u32 w) (i32_as_u32 h)"
  shows "lock_inv env (output_mode obj w h s)"
proof -
  have new: "lock_inv env (s\<lparr>ls_outputs := ls_outputs s @ [\<lparr>lo_output = obj, lo_width = i32_as_u32 w,
      lo_height = i32_as_u32 h, lo_surface = None, lo_lock_surface = None, lo_buffer = None, lo_configured = False\<rparr>]\<rparr>)"
    using assms by (intro lock_inv_outputs) (auto simp: lock_inv_def view_ok_def output_ok_def)
  have old: "lock_inv env (s\<lparr>ls_outputs := (ls_outputs s)[i := (ls_outputs s ! i)\<lparr>lo_width := i32_as_u32 w,
      lo_height := i32_as_u32 h\<rparr>]\<rparr>)" if "i < length (ls_outputs s)" for i
    using lock_inv_output [OF assms(1) that] assms(2)
    by (intro lock_inv_set_output [OF assms(1)]) (simp add: output_ok_def)
  show ?thesis
    using new old by (auto simp: output_mode_def Let_def position_bound split: option.splits intro!: step_inv)
qed

lemma receive_auth_inv:
  assumes "lock_inv env s" and "ls_requests s = []" "ls_results s = [r]"
  shows "\<exists>s'. receive_auth env r (s\<lparr>ls_results := []\<rparr>) = Some s' \<and> lock_inv env s'"
proof (cases r)
  case AuthOk
  with assms show ?thesis
    by (auto simp: receive_auth_def Let_def lock_inv_def view_ok_def requests_ok_def unlock_ok_def granted_def emit_def)
next
  case (AuthFail reason)
  let ?t = "s\<lparr>ls_results := [], ls_pending := False, ls_fail_count := ls_fail_count s + 1, ls_password := []\<rparr>"
  have "\<exists>s'. repaint_all env ?t = Some s' \<and> lock_inv env s'"
    using assms AuthFail
    by (intro repaint_inv) (auto simp: lock_inv_def view_ok_def requests_ok_def unlock_ok_def granted_def)
  then show ?thesis
    using AuthFail by (auto simp: receive_auth_def Let_def intro: lock_inv_emit)
qed

lemma poll_auth_inv:
  assumes "lock_inv env s"
  shows "\<exists>s'. poll_auth env s = Some s' \<and> lock_inv env s'"
proof -
  have "length (ls_requests s) + length (ls_results s) \<le> 1"
    using assms by (simp add: lock_inv_def requests_ok_def)
  then consider "ls_results s = []" | r where "ls_results s = [r]" "ls_requests s = []"
    by (cases "ls_results s") auto
  then show ?thesis
  proof cases
    case 1
    then have e: "s\<lparr>ls_results := []\<rparr> = s" by (cases s) simp
    show ?thesis using assms 1 by (simp add: poll_auth_def each_def e)
  next
    case 2
    from receive_auth_inv [OF assms 2(2,1)] 2(1) show ?thesis
      by (auto simp: poll_auth_def each_def)
  qed
qed

lemma worker_step_inv:
  assumes "lock_inv env s"
  shows "lock_inv env (worker_step env s)"
proof (cases "ls_requests s")
  case (Cons req rest)
  obtain u pw where req: "req = (u, pw)" by (cases req)
  let ?r = "authenticate (le_pam env (ls_answered s)) (le_service env) u pw"
  from assms Cons req have "u = ls_username s" "pw \<noteq> []" "SendAuth u pw \<in> set (ls_trace s)"
    by (auto simp: lock_inv_def requests_ok_def)
  then have "?r = AuthOk \<Longrightarrow> granted env s" unfolding granted_def by blast
  moreover have step: "worker_step env s = s\<lparr>ls_requests := rest, ls_answered := ls_answered s + 1,
      ls_results := ls_results s @ [?r]\<rparr>" by (simp add: worker_step_def Cons req)
  moreover have "granted env (worker_step env s) = granted env s" unfolding step granted_def by simp
  ultimately show ?thesis
    using assms Cons by (auto simp: lock_inv_def view_ok_def requests_ok_def unlock_ok_def)
qed (use assms in \<open>simp add: worker_step_def\<close>)

text \<open>
  Sizes the compositor may announce: a row of the buffer has to fit \<open>i32\<close>, as \<open>wl_shm\<close> itself
  requires.
\<close>

fun lock_input_ok :: "lock_input \<Rightarrow> bool" where
  "lock_input_ok (Wayland (EvConfigure _ _ w h)) = dims_ok (max w 1) (max h 1)"
| "lock_input_ok (Wayland (EvOutputMode _ w h)) = dims_ok (i32_as_u32 w) (i32_as_u32 h)"
| "lock_input_ok _ = True"

lemma lock_dispatch_inv:
  assumes "lock_inv env s" and "lock_input_ok (Wayland ev)"
  shows "\<exists>s'. lock_dispatch env ev s = Some s' \<and> lock_inv env s'"
proof (cases ev)
  case EvLocked
  have "lock_inv env t \<Longrightarrow> lock_inv env (fold create_lock_surface_for xs t)" for xs t
    by (induction xs arbitrary: t) (auto intro: step_inv)
  with EvLocked assms(1) show ?thesis by (simp add: lock_dispatch_def lock_inv_other)
next
  case EvFinished
  with assms show ?thesis
    by (simp add: lock_dispatch_def lock_inv_def view_ok_def requests_ok_def unlock_ok_def granted_def)
next
  case (EvKey k pressed)
  with assms show ?thesis
    by (auto simp: lock_dispatch_def lock_handle_action_inv lock_handle_text_inv split: key_symbol.split)
next
  case (EvBufferRelease i obj)
  have "output_ok (out\<lparr>lo_buffer := map_option (mark_released obj) (lo_buffer out)\<rparr>)" if "output_ok out" for out
    using that by (auto simp: output_ok_def mark_released_ok)
  with EvBufferRelease assms show ?thesis
    by (auto simp: lock_dispatch_def intro!: lock_inv_set_output dest: lock_inv_output)
qed (use assms in \<open>auto simp: lock_dispatch_def lock_inv_other configure_surface_inv output_mode_inv\<close>)

interpretation lock_machine:
  total_machine "\<lambda>s i. lock_input_step env i s" "lock_inv env" lock_input_ok for env
  by unfold_locales
     (auto simp: lock_input_step_def lock_dispatch_inv worker_step_inv split: lock_input.split)

interpretation lock_turns:
  total_machine "\<lambda>s b. lock_turn env b s" "lock_inv env" "\<lambda>b. \<forall>i \<in> set b. lock_input_ok i" for env
proof
  fix s b assume inv: "lock_inv env s" and ok: "\<forall>i \<in> set b. lock_input_ok i"
  have "\<exists>s1. each b (lock_input_step env) s = Some s1 \<and> lock_inv env s1"
    using lock_machine.run_total [OF inv ok] by (simp add: each_def)
  then show "\<exists>s'. lock_turn env b s = Some s' \<and> lock_inv env s'"
    using poll_auth_inv inv by (fastforce simp: lock_turn_def steps_def)
qed

lemma lock_inv_initial: "rast_ok (le_rast env) \<Longrightarrow> lock_inv env (engage (lock_new f entry))"
  by (simp add: lock_inv_def engage_def lock_new_def emit_def view_ok_def text_cache_ok_def cache_ok_def
      requests_ok_def unlock_ok_def granted_def)

lemma lock_run_inv:
  assumes "rast_ok (le_rast env)" and "\<forall>i \<in> set (concat turns). lock_input_ok i"
  shows "\<exists>s. lock_run env f entry turns = Some s \<and> lock_inv env s"
  using lock_turns.run_total [OF lock_inv_initial [OF assms(1)], of turns] assms(2)
  by (simp add: lock_run_def each_def)

end
