(* ===== verification/Lock_Safety.thy ===== *)
theory Lock_Safety
  imports Lock_Client
begin

text \<open>
  The properties of the screen locker \<open>crates/nx-lock\<close>, stated on runs of its main loop.
\<close>

section \<open>Unlocking\<close>

text \<open>
  C2: the session is unlocked only for somebody who gave the password. Whatever the events, in
  whatever order, and however the PAM worker is scheduled, the client never panics; if it sends
  \<open>unlock_and_destroy\<close> then PAM has accepted a non-empty password that the client had sent for
  the user it runs as; and it exits with code 0 only after unlocking.
\<close>

theorem lock_unlocks_only_authenticated:
  assumes "rast_ok (le_rast env)" and "\<forall>i \<in> set (concat turns). lock_input_ok i"
  shows "\<exists>s. lock_run env f entry turns = Some s \<and>
    (UnlockAndDestroy \<in> set (ls_trace s) \<longrightarrow>
       (\<exists>n pw. pw \<noteq> [] \<and> SendAuth (ls_username s) pw \<in> set (ls_trace s) \<and>
          authenticate (le_pam env n) (le_service env) (ls_username s) pw = AuthOk)) \<and>
    (ls_should_quit s \<and> ls_exit_code s = 0 \<longrightarrow> UnlockAndDestroy \<in> set (ls_trace s))"
  using lock_run_inv [OF assms, of f entry] by (auto simp: lock_inv_def unlock_ok_def granted_def)

text \<open>A keyboard with the letter a on key 30 and Return on key 28; PAM accepts the password a.\<close>

definition demo_xkb :: xkb where
  "demo_xkb = \<lparr>xkb_compile = (\<lambda>_. Some 0), xkb_state_new = (\<lambda>km. km), xkb_update_mask = (\<lambda>_ _ _ _ st. st),
     xkb_one_sym = (\<lambda>_ k. if k = 36 then KEY_Return else KEY_other k),
     xkb_utf8 = (\<lambda>_ k. if k = 38 then [97] else [])\<rparr>"

definition demo_pam :: pam where
  "demo_pam = \<lparr>pam_with_password = (\<lambda>_. None),
     pam_authenticate = (\<lambda>u pw. if pw = [97] then None else Some []), pam_open_session = (\<lambda>_. None)\<rparr>"

definition demo_env :: lock_env where
  "demo_env = \<lparr>le_rast = box_rasterizer, le_os = kind_os, le_xkb = demo_xkb, le_pam = (\<lambda>_. demo_pam),
     le_service = lit ''nullxes-lock''\<rparr>"

definition demo_turns :: "lock_input list list" where
  "demo_turns = [[Wayland (EvKeymap True (Inr []) 0 [])], [Wayland (EvKey 30 True), Wayland (EvKey 28 True)],
     [Worker, Wayland EvLocked]]"

lemma demo_run:
  "map_option (\<lambda>s. (ls_trace s, ls_exit_code s, ls_should_quit s))
     (lock_run demo_env False (Some [117]) demo_turns) =
   Some ([RequestLock, SendAuth [117] [97], UnlockAndDestroy], 0, True)"
  by (simp add: lock_run_def each_def demo_turns_def lock_turn_def steps_def lock_input_step_def
      lock_dispatch_def engage_def emit_def lock_new_def current_username_def apply_keymap_def
      keyboard_new_def strip_trailing_nul_def demo_env_def demo_xkb_def process_key_def
      action_from_keysym_def lock_handle_text_def lock_handle_action_def submit_password_def
      repaint_all_def poll_auth_def worker_step_def receive_auth_def authenticate_def demo_pam_def
      Let_def is_control_def)

lemma box_rast_ok: "rast_ok box_rasterizer"
  by (simp add: rast_ok_def glyph_ok_def box_rasterizer_def)

theorem lock_unlocks_only_authenticated_witness:
  "\<exists>s. lock_run demo_env False (Some [117]) demo_turns = Some s \<and> UnlockAndDestroy \<in> set (ls_trace s) \<and>
     (\<exists>pw. SendAuth (ls_username s) pw \<in> set (ls_trace s))"
proof -
  have "rast_ok (le_rast demo_env)" "\<forall>i \<in> set (concat demo_turns). lock_input_ok i"
    by (simp_all add: demo_env_def box_rast_ok demo_turns_def)
  from lock_unlocks_only_authenticated [OF this, of False "Some [117]"] demo_run show ?thesis by auto
qed

text \<open>
  C27: one question at a time. In every reachable state the worker has at most one unanswered
  request, exactly while \<open>pending\<close> is set; while one is out no typed character is kept, and no
  copy of the password stays in the client.
\<close>

theorem lock_one_question:
  assumes "rast_ok (le_rast env)" and "\<forall>i \<in> set (concat turns). lock_input_ok i"
    and "lock_run env f entry turns = Some s"
  shows "length (ls_requests s) + length (ls_results s) = of_bool (ls_pending s) \<and>
    (ls_pending s \<longrightarrow> ls_password s = [] \<and> submit_password env s = Some s \<and>
       lock_handle_text env str s = Some s)"
  using lock_run_inv [OF assms(1,2), of f entry] assms(3)
  by (auto simp: lock_inv_def requests_ok_def submit_password_def lock_handle_text_def)

text \<open>The user types a, Return and a again: the question is out, and the last character is not kept.\<close>

definition asking_turns :: "lock_input list list" where
  "asking_turns = [[Wayland (EvKeymap True (Inr []) 0 [])],
     [Wayland (EvKey 30 True), Wayland (EvKey 28 True), Wayland (EvKey 30 True)]]"

lemma asking_run:
  "map_option (\<lambda>s. (ls_pending s, ls_requests s, ls_trace s)) (lock_run demo_env False (Some [117]) asking_turns) =
   Some (True, [([117], [97])], [RequestLock, SendAuth [117] [97]])"
  by (simp add: lock_run_def each_def asking_turns_def lock_turn_def steps_def lock_input_step_def
      lock_dispatch_def engage_def emit_def lock_new_def current_username_def apply_keymap_def
      keyboard_new_def strip_trailing_nul_def demo_env_def demo_xkb_def process_key_def
      action_from_keysym_def lock_handle_text_def lock_handle_action_def submit_password_def
      repaint_all_def poll_auth_def Let_def is_control_def)

theorem lock_one_question_witness:
  "\<exists>s. lock_run demo_env False (Some [117]) asking_turns = Some s \<and> ls_pending s \<and>
     length (ls_requests s) + length (ls_results s) = 1 \<and> ls_password s = [] \<and> submit_password demo_env s = Some s"
proof -
  have ok: "rast_ok (le_rast demo_env)" "\<forall>i \<in> set (concat asking_turns). lock_input_ok i"
    by (simp_all add: demo_env_def box_rast_ok asking_turns_def)
  obtain s where s: "lock_run demo_env False (Some [117]) asking_turns = Some s" "ls_pending s"
    using asking_run by auto
  with lock_one_question [OF ok s(1)] show ?thesis by auto
qed

section \<open>What is painted\<close>

lemma repaint_output_keeps_size:
  assumes "rast_ok (le_rast env)" "view_ok s" "i < length (ls_outputs s)"
    and "lo_buffer (ls_outputs s ! i) = Some p" "lo_configured (ls_outputs s ! i)"
    and "repaint_output env i s = Some s'"
  shows "\<exists>p' cs. lo_buffer (ls_outputs s' ! i) = Some p' \<and> pool_dimensions p' = pool_dimensions p \<and>
    lo_width (ls_outputs s' ! i) = lo_width (ls_outputs s ! i) \<and>
    lo_height (ls_outputs s' ! i) = lo_height (ls_outputs s ! i) \<and>
    ls_trace s' = ls_trace s @ cs \<and> set cs \<subseteq> {CommitBuffer surf obj (sp_w p) (sp_h p) | surf obj. True}"
proof -
  have ok: "pool_ok p" "text_cache_ok (ls_text s)"
    using assms(2-4) nth_mem [OF assms(3)] by (auto simp: view_ok_def output_ok_def)
  from lock_painter.draw_ok [OF assms(1) ok, of "le_os env" "lock_view_of s"] obtain p' t' r where
    d: "pool_draw (le_os env) (lock_paint (le_rast env) (lock_view_of s)) (p, ls_text s) = Some ((p', t'), r)"
      "sp_w p' = sp_w p" "sp_h p' = sp_h p" "\<forall>d. r = Inr d \<longrightarrow> db_w d = sp_w p \<and> db_h d = sp_h p"
    by blast
  have "\<exists>cs. ls_trace s' = ls_trace s @ cs \<and>
      set cs \<subseteq> {CommitBuffer surf obj (sp_w p) (sp_h p) | surf obj. True} \<and>
      ls_outputs s' = (ls_outputs s)[i := (ls_outputs s ! i)\<lparr>lo_buffer := Some p'\<rparr>]"
    using assms(3-6) d by (cases r; cases "lo_surface (ls_outputs s ! i)")
      (auto simp: repaint_output_def output_pool_def Let_def emit_def)
  with d(2,3) assms(3) show ?thesis by (auto simp: pool_dimensions_def)
qed

text \<open>
  A lock surface is painted in the size of its first configure for ever. Once an output has
  buffers, a later configure with another size changes the recorded size only: the buffers keep
  theirs, and every buffer committed in answer still has the old size.
\<close>

lemma lock_buffer_keeps_first_size:
  assumes "lock_inv env s" and "position (\<lambda>out. lo_lock_surface out = Some surf) (ls_outputs s) = Some i"
    and "lo_buffer (ls_outputs s ! i) = Some p" and "dims_ok (max w 1) (max h 1)"
  shows "\<exists>s' p' cs. configure_surface env surf serial w h s = Some s' \<and>
    lo_buffer (ls_outputs s' ! i) = Some p' \<and> pool_dimensions p' = pool_dimensions p \<and>
    (lo_width (ls_outputs s' ! i), lo_height (ls_outputs s' ! i)) = (max w 1, max h 1) \<and>
    ls_trace s' = ls_trace s @ AckConfigure serial # cs \<and>
    set cs \<subseteq> {CommitBuffer sf obj (sp_w p) (sp_h p) | sf obj. True}"
proof -
  let ?out = "(ls_outputs s ! i)\<lparr>lo_width := max w 1, lo_height := max h 1, lo_configured := True\<rparr>"
  let ?t = "(emit (AckConfigure serial) s)\<lparr>ls_outputs := (ls_outputs s)[i := ?out]\<rparr>"
  have i: "i < length (ls_outputs s)" by (rule position_bound [OF assms(2)])
  have "output_ok ?out" using lock_inv_output [OF assms(1) i] assms(4) by (simp add: output_ok_def)
  with assms(1) have "lock_inv env ?t"
    using lock_inv_set_output [of env "emit (AckConfigure serial) s" ?out i]
    by (simp add: lock_inv_emit) (simp add: emit_def)
  from repaint_output_inv [OF this, of i] obtain s' where s': "repaint_output env i ?t = Some s'" by blast
  have c: "configure_surface env surf serial w h s = Some s'"
    using s' assms(2) by (simp add: configure_surface_def Let_def) (simp add: emit_def)
  have "\<exists>p' cs. lo_buffer (ls_outputs s' ! i) = Some p' \<and> pool_dimensions p' = pool_dimensions p \<and>
    lo_width (ls_outputs s' ! i) = lo_width (ls_outputs ?t ! i) \<and>
    lo_height (ls_outputs s' ! i) = lo_height (ls_outputs ?t ! i) \<and>
    ls_trace s' = ls_trace ?t @ cs \<and> set cs \<subseteq> {CommitBuffer surf obj (sp_w p) (sp_h p) | surf obj. True}"
    using \<open>lock_inv env ?t\<close> i assms(3) by (intro repaint_output_keeps_size [OF _ _ _ _ _ s']) (simp_all add: lock_inv_def)
  with c i show ?thesis by (auto simp: emit_def)
qed

text \<open>Without outputs nothing is ever created or painted.\<close>

fun paints :: "lock_effect \<Rightarrow> bool" where
  "paints (CreateLockSurface _ _) = True"
| "paints (CommitBuffer _ _ _ _) = True"
| "paints _ = False"

definition blank :: "lock_state \<Rightarrow> bool" where
  "blank s \<longleftrightarrow> ls_outputs s = [] \<and> (\<forall>e \<in> set (ls_trace s). \<not> paints e)"

fun announces_output :: "lock_input \<Rightarrow> bool" where
  "announces_output (Wayland (EvOutputMode _ _ _)) = True"
| "announces_output _ = False"

lemmas blank_simps = blank_def repaint_all_def each_def emit_def

lemma blank_step: "\<not> announces_output i \<Longrightarrow> keeps blank (lock_input_step env i)"
proof (cases i)
  case (Wayland ev)
  assume "\<not> announces_output i"
  with Wayland show ?thesis
    by (cases ev) (auto simp: keeps_def lock_input_step_def lock_dispatch_def blank_simps configure_surface_def
        lock_handle_action_def lock_handle_text_def submit_password_def Let_def split: key_symbol.split action.split)
next
  case Worker
  then show ?thesis
    by (auto simp: keeps_def lock_input_step_def worker_step_def blank_def split: list.split)
qed

lemma blank_poll: "keeps blank (poll_auth env)"
proof -
  have "keeps blank (receive_auth env r)" for r
    by (cases r) (auto simp: keeps_def receive_auth_def Let_def blank_simps)
  then have "keeps blank (each rs (receive_auth env))" for rs by (intro keeping)
  then show ?thesis by (auto simp: keeps_def poll_auth_def blank_def)
qed

text \<open>
  A locker that is told of no output shows nothing. As long as no \<open>wl_output\<close> event arrives
  there is no output, no lock surface is created and nothing is painted, whatever else happens;
  and \<open>run\<close> binds no \<open>wl_output\<close>, so none arrives.
\<close>

lemma lock_without_outputs_is_blank:
  assumes "\<forall>i \<in> set (concat turns). \<not> announces_output i"
  shows "\<exists>s. lock_run env f entry turns = Some s \<and> ls_outputs s = [] \<and> (\<forall>e \<in> set (ls_trace s). \<not> paints e)"
proof -
  have "keeps blank (lock_turn env b)" if "b \<in> set turns" for b
  proof -
    have "keeps blank (each b (lock_input_step env))"
      by (intro keeps_each blank_step) (use that assms in auto)
    then have "keeps blank (steps [each b (lock_input_step env), poll_auth env])"
      by (intro keeps_steps_Cons keeps_steps_Nil blank_poll)
    then show ?thesis by (auto simp: keeps_def lock_turn_def)
  qed
  then have "keeps blank (each turns (lock_turn env))" by (intro keeping)
  from keepsD [OF this, of "engage (lock_new f entry)"] show ?thesis
    by (simp add: lock_run_def blank_def engage_def lock_new_def emit_def)
qed

end
