(* ===== verification/Client.thy ===== *)
theory Client
  imports Scene Keymap
begin

text \<open>
  What the Wayland clients with one surface have in common: \<open>nx-greet\<close>, \<open>nx-settings\<close>, \<open>slate\<close> and
  \<open>launcher\<close> each carry a copy of the same surface state, redraw function and event handlers in
  their \<open>state.rs\<close>. The state of each of them extends the record below; what differs, painting,
  keys and resizing, is an argument.
\<close>

section \<open>The state\<close>

text \<open>\<open>ClInit title app_id fullscreen\<close>: the toplevel is created, set up and committed.\<close>

datatype client_effect =
    ClInit rstring rstring bool
  | ClLayer rstring u32 u32
  | ClPong u32
  | ClAckConfigure u32
  | ClCommit nat u32 u32

record client =
  cl_surface :: bool
  cl_keyboard :: bool
  cl_keymap :: keyboard_state
  cl_buffer :: "shm_pool option"
  cl_text :: "glyph_cache option"
  cl_width :: u32
  cl_height :: u32
  cl_configured :: bool
  cl_should_close :: bool
  cl_next :: nat
  cl_trace :: "client_effect list"

record client_env =
  ce_rast :: rasterizer
  ce_os :: shm_os
  ce_xkb :: xkb

definition client_new :: "bool \<Rightarrow> u32 \<Rightarrow> u32 \<Rightarrow> client" where
  "client_new fonts_found w h =
     \<lparr>cl_surface = False, cl_keyboard = False, cl_keymap = keyboard_new, cl_buffer = None,
      cl_text = (if fonts_found then Some Map.empty else None), cl_width = w, cl_height = h,
      cl_configured = False, cl_should_close = False, cl_next = 0, cl_trace = []\<rparr>"

definition cl_emit :: "client_effect \<Rightarrow> 'x client_scheme \<Rightarrow> 'x client_scheme" where
  "cl_emit e s = s\<lparr>cl_trace := cl_trace s @ [e]\<rparr>"

definition client_init_surface :: "rstring \<Rightarrow> rstring \<Rightarrow> bool \<Rightarrow> 'x client_scheme \<Rightarrow> 'x client_scheme" where
  "client_init_surface title app_id fullscreen s = (cl_emit (ClInit title app_id fullscreen) s)\<lparr>cl_surface := True\<rparr>"

section \<open>Drawing\<close>

definition client_pool :: "shm_os \<Rightarrow> 'x client_scheme \<Rightarrow> wl_client_error + shm_pool" where
  "client_pool os s =
     (case cl_buffer s of
        Some p \<Rightarrow> Inr p
      | None \<Rightarrow> pool_new os (cl_next s) (cl_width s) (cl_height s))"

definition client_redraw ::
  "shm_os \<Rightarrow> glyph_cache option painting \<Rightarrow> 'x client_scheme \<Rightarrow> 'x client_scheme option" where
  "client_redraw os paint s =
     (if \<not> cl_configured s then Some s
      else case client_pool os s of
        Inl e \<Rightarrow> Some (s\<lparr>cl_next := cl_next s + 2\<rparr>)
      | Inr p \<Rightarrow>
          map_option (\<lambda>((p', t'), r).
              let s1 = s\<lparr>cl_buffer := Some p', cl_text := t', cl_next := cl_next s + 2\<rparr> in
              case r of
                Inl e \<Rightarrow> s1
              | Inr d \<Rightarrow> if cl_surface s then cl_emit (ClCommit (db_object d) (db_w d) (db_h d)) s1 else s1)
            (pool_draw os paint (p, cl_text s)))"

section \<open>Events\<close>

datatype client_event =
    ClPing u32
  | ClSurfaceConfigure u32
  | ClToplevelConfigure i32 i32
  | ClClose
  | ClSeatCapabilities bool
  | ClKeymap bool "rstring + u8 list" u32 rstring
  | ClModifiers u32 u32 u32 u32
  | ClKey u32 bool
  | ClBufferRelease nat

definition client_dispatch where
  "client_dispatch x redraw on_resize on_action on_text ev s =
     (case ev of
        ClPing serial \<Rightarrow> Some (cl_emit (ClPong serial) s)
      | ClSurfaceConfigure serial \<Rightarrow> redraw ((cl_emit (ClAckConfigure serial) s)\<lparr>cl_configured := True\<rparr>)
      | ClToplevelConfigure w h \<Rightarrow> on_resize w h s
      | ClClose \<Rightarrow> Some (s\<lparr>cl_should_close := True\<rparr>)
      | ClSeatCapabilities kb \<Rightarrow> Some (if kb \<and> \<not> cl_keyboard s then s\<lparr>cl_keyboard := True\<rparr> else s)
      | ClKeymap xkb_v1 mapped n err \<Rightarrow>
          Some (if xkb_v1 then s\<lparr>cl_keymap := fst (apply_keymap x mapped n err (cl_keymap s))\<rparr> else s)
      | ClModifiers d la lo g \<Rightarrow> Some (s\<lparr>cl_keymap := update_modifiers x d la lo g (cl_keymap s)\<rparr>)
      | ClKey k pressed \<Rightarrow>
          (if \<not> pressed then Some s
           else case process_key x k (cl_keymap s) of
             KeyAction a \<Rightarrow> on_action a s
           | KeyText str \<Rightarrow> on_text str s
           | KeyNone \<Rightarrow> Some s)
      | ClBufferRelease obj \<Rightarrow> Some (s\<lparr>cl_buffer := map_option (mark_released obj) (cl_buffer s)\<rparr>))"

text \<open>
  A turn of the main loop: \<open>blocking_dispatch\<close> hands every event of the batch it has read to its
  handler, and the loop ends before the next batch when the client wants to close.
\<close>

definition surface_loop ::
  "('e \<Rightarrow> 'x client_scheme \<Rightarrow> 'x client_scheme option) \<Rightarrow> 'e list \<Rightarrow> 'x client_scheme \<Rightarrow> 'x client_scheme option" where
  "surface_loop dispatch batch = guarded_by (\<lambda>s. \<not> cl_should_close s) (each batch dispatch)"

section \<open>The invariant\<close>

definition client_ok :: "'x client_scheme \<Rightarrow> bool" where
  "client_ok s \<longleftrightarrow> dims_ok (cl_width s) (cl_height s) \<and> (\<forall>p. cl_buffer s = Some p \<longrightarrow> pool_ok p) \<and>
     text_cache_ok (cl_text s)"

text \<open>The part of the state that drawing may change; everything else, the extension included, it keeps.\<close>

definition redrawn :: "'x client_scheme \<Rightarrow> 'x client_scheme \<Rightarrow> bool" where
  "redrawn s s' \<longleftrightarrow> (\<exists>b t n tr. s' = s\<lparr>cl_buffer := b, cl_text := t, cl_next := n, cl_trace := tr\<rparr>)"

text \<open>The size the next frame is drawn in.\<close>

definition drawn_size :: "'x client_scheme \<Rightarrow> u32 \<times> u32" where
  "drawn_size s = (case cl_buffer s of None \<Rightarrow> (cl_width s, cl_height s) | Some p \<Rightarrow> pool_dimensions p)"

definition frames_of :: "u32 \<times> u32 \<Rightarrow> client_effect list \<Rightarrow> bool" where
  "frames_of dims tr \<longleftrightarrow> (\<forall>e \<in> set tr. \<exists>obj. e = ClCommit obj (fst dims) (snd dims))"

lemma redrawnI: "s' = s\<lparr>cl_buffer := b, cl_text := t, cl_next := n, cl_trace := tr\<rparr> \<Longrightarrow> redrawn s s'"
  unfolding redrawn_def by blast

context painter
begin

text \<open>
  Redrawing never panics, keeps the state well formed, changes only the buffers, the glyph cache and
  the trace, and commits at most frames of the size of the buffers, which it keeps.
\<close>

lemma redraw_ok:
  assumes "rast_ok rast" and "client_ok s"
  shows "\<exists>s'. client_redraw os (paint rast a) s = Some s' \<and> client_ok s' \<and> redrawn s s' \<and>
    drawn_size s' = drawn_size s \<and> (\<exists>cs. cl_trace s' = cl_trace s @ cs \<and> frames_of (drawn_size s) cs)"
proof (cases "cl_configured s")
  case False
  have "redrawn s s" by (rule redrawnI [where b = "cl_buffer s" and t = "cl_text s" and n = "cl_next s" and tr = "cl_trace s"]) simp
  with False assms(2) show ?thesis by (simp add: client_redraw_def frames_of_def)
next
  case True
  show ?thesis
  proof (cases "client_pool os s")
    case (Inl e)
    have "redrawn s (s\<lparr>cl_next := cl_next s + 2\<rparr>)"
      by (rule redrawnI [where b = "cl_buffer s" and t = "cl_text s" and n = "cl_next s + 2" and tr = "cl_trace s"]) simp
    with True Inl assms(2) show ?thesis
      by (simp add: client_redraw_def client_ok_def drawn_size_def frames_of_def split: option.split)
  next
    case (Inr p)
    have p: "pool_ok p" "text_cache_ok (cl_text s)" "pool_dimensions p = drawn_size s"
      using Inr assms(2) by (auto simp: client_pool_def client_ok_def pool_new_ok drawn_size_def pool_dimensions_def
          split: option.splits)
    from draw_ok [OF assms(1) p(1,2), of os a] obtain p' t' r where
      d: "pool_draw os (paint rast a) (p, cl_text s) = Some ((p', t'), r)" "pool_ok p'" "text_cache_ok t'"
        "pool_dimensions p' = drawn_size s" "\<And>d. r = Inr d \<Longrightarrow> (db_w d, db_h d) = drawn_size s"
      using p(3) by (fastforce simp: pool_dimensions_def)
    let ?s1 = "s\<lparr>cl_buffer := Some p', cl_text := t', cl_next := cl_next s + 2\<rparr>"
    have "redrawn s ?s1" "redrawn s (cl_emit e ?s1)" for e
      by (rule redrawnI [where b = "Some p'" and t = t' and n = "cl_next s + 2" and tr = "cl_trace s"], simp)
         (rule redrawnI [where b = "Some p'" and t = t' and n = "cl_next s + 2" and tr = "cl_trace s @ [e]"], simp add: cl_emit_def)
    moreover have "client_ok ?s1" "client_ok (cl_emit e ?s1)" for e
      using assms(2) d(2,3) by (simp_all add: client_ok_def cl_emit_def)
    ultimately show ?thesis using True Inr d(1,4) d(5) [symmetric]
      by (cases r) (auto simp: client_redraw_def Let_def drawn_size_def cl_emit_def frames_of_def)
  qed
qed

end

text \<open>
  The compositor may announce any width whose rows fit \<open>i32\<close>, as \<open>wl_shm\<close> requires.
\<close>

fun client_event_ok :: "client_event \<Rightarrow> bool" where
  "client_event_ok (ClToplevelConfigure w h) \<longleftrightarrow> w < 2 ^ 29"
| "client_event_ok _ \<longleftrightarrow> True"

lemma resize_dims: "0 < w \<Longrightarrow> w < 2 ^ 29 \<Longrightarrow> dims_ok (i32_as_u32 w) h"
  by (simp add: dims_ok_def i32_as_u32_small)

text \<open>
  The contract of a client: what its own handlers have to keep, so that the shared dispatch keeps
  it for every event and never panics; first for the events that draw nothing, then for the
  configure events too.
\<close>

locale event_client =
  fixes on_resize :: "i32 \<Rightarrow> i32 \<Rightarrow> 'x client_scheme \<Rightarrow> 'x client_scheme option"
    and on_action :: "action \<Rightarrow> 'x client_scheme \<Rightarrow> 'x client_scheme option"
    and on_text :: "rstring \<Rightarrow> 'x client_scheme \<Rightarrow> 'x client_scheme option"
    and inv :: "'x client_scheme \<Rightarrow> bool"
    and ok :: "client_event \<Rightarrow> bool"
  assumes resize_inv: "ok (ClToplevelConfigure w h) \<Longrightarrow> keeps inv (on_resize w h)"
    and action_inv: "ok (ClKey k True) \<Longrightarrow> keeps inv (on_action a)"
    and text_inv: "ok (ClKey k True) \<Longrightarrow> keeps inv (on_text str)"
    and inv_answer: "inv s \<Longrightarrow> inv (cl_emit (ClPong serial) s)"
    and inv_close: "ok ClClose \<Longrightarrow> inv s \<Longrightarrow> inv (s\<lparr>cl_should_close := True\<rparr>)"
    and inv_keyboard: "inv s \<Longrightarrow> inv (s\<lparr>cl_keyboard := b\<rparr>)"
    and inv_keymap: "inv s \<Longrightarrow> inv (s\<lparr>cl_keymap := km\<rparr>)"
    and inv_release: "inv s \<Longrightarrow> inv (s\<lparr>cl_buffer := map_option (mark_released obj) (cl_buffer s)\<rparr>)"
begin

lemma event_keeps:
  assumes "ok ev" and "\<And>serial. ev \<noteq> ClSurfaceConfigure serial"
  shows "keeps inv (client_dispatch x redraw on_resize on_action on_text ev)"
proof (cases ev)
  case (ClToplevelConfigure w h)
  with assms resize_inv show ?thesis by (simp add: keeps_def client_dispatch_def)
next
  case (ClKey k pressed)
  with assms(1) action_inv [of k] text_inv [of k] show ?thesis
    by (cases pressed) (auto simp: keeps_def client_dispatch_def split: key_symbol.split)
next
  case ClClose
  with assms(1) show ?thesis by (simp add: keeps_def client_dispatch_def inv_close)
next
  case (ClSurfaceConfigure serial)
  with assms(2) [of serial] show ?thesis by simp
qed (simp_all add: keeps_def client_dispatch_def inv_answer inv_keyboard inv_keymap inv_release)

end

locale surface_client = event_client on_resize on_action on_text inv client_event_ok
  for on_resize :: "i32 \<Rightarrow> i32 \<Rightarrow> 'x client_scheme \<Rightarrow> 'x client_scheme option"
    and on_action on_text inv +
  fixes redraw :: "'x client_scheme \<Rightarrow> 'x client_scheme option"
  assumes redraw_inv: "keeps inv redraw"
    and inv_configure: "inv s \<Longrightarrow> inv ((cl_emit (ClAckConfigure serial) s)\<lparr>cl_configured := True\<rparr>)"
begin

lemma dispatch_keeps:
  assumes "client_event_ok ev"
  shows "keeps inv (client_dispatch x redraw on_resize on_action on_text ev)"
proof (cases "\<exists>serial. ev = ClSurfaceConfigure serial")
  case True
  then show ?thesis using redraw_inv by (auto simp: keeps_def client_dispatch_def inv_configure)
next
  case False
  with assms show ?thesis by (intro event_keeps) auto
qed

end

end
