(* ===== verification/Greeter.thy ===== *)
theory Greeter
  imports Client
begin

text \<open>
  The login screen \<open>crates/nx-greet\<close>: the greetd dialogue (\<open>ipc.rs\<close>), the screen (\<open>render.rs\<close>)
  and the client (\<open>state.rs\<close>). The greetd daemon is a parameter that answers the n-th request;
  its protocol types are those the sources name. The kind of a prompt is only passed on and is a
  number here. Coordinates that stay within \<open>i32\<close> are written without the wrap-around.
\<close>

section \<open>The screen\<close>

definition GREET_W :: u32 where "GREET_W = 1920"
definition GREET_H :: u32 where "GREET_H = 1080"

record background_image =
  bg_width :: u32
  bg_height :: u32
  bg_pixels :: "u8 list"

definition bg_sample :: "background_image \<Rightarrow> u32 \<Rightarrow> u32 \<Rightarrow> u8 \<times> u8 \<times> u8 \<times> u8" where
  "bg_sample bg x y =
     (if bg_width bg = 0 \<or> bg_height bg = 0 then (0, 0, 0, 255)
      else let sx = min x (bg_width bg - 1); sy = min y (bg_height bg - 1);
               idx = unat ((sy * bg_width bg + sx) * 4); px = bg_pixels bg in
        if length px \<le> idx + 3 then (0, 0, 0, 255)
        else (px ! idx, px ! (idx + 1), px ! (idx + 2), px ! (idx + 3)))"

definition background_path :: "rstring option \<Rightarrow> rstring" where
  "background_path env =
     (case env of
        Some p \<Rightarrow> if str_trim p \<noteq> [] then p else lit ''/usr/share/nullxes/backgrounds/default.png''
      | None \<Rightarrow> lit ''/usr/share/nullxes/backgrounds/default.png'')"

definition load_background_image ::
  "(rstring \<Rightarrow> background_image option) \<Rightarrow> rstring option \<Rightarrow> background_image option" where
  "load_background_image decode_file env = decode_file (background_path env)"

text \<open>\<open>x.round() as u32\<close>, \<open>x as f32\<close> and the cropped size of the background.\<close>

definition f32_round_u32 :: "rat \<Rightarrow> u32" where
  "f32_round_u32 x = word_of_int (max 0 (min (2 ^ 32 - 1) (round_away x)))"

definition u32_as_f32 :: "u32 \<Rightarrow> rat" where
  "u32_as_f32 w = fl 24 (of_nat (unat w))"

definition crop_size :: "u32 \<Rightarrow> u32 \<Rightarrow> background_image \<Rightarrow> u32 \<times> u32" where
  "crop_size w h bg =
     (let out_aspect = fl 24 (u32_as_f32 w / u32_as_f32 h);
          bg_aspect = fl 24 (u32_as_f32 (bg_width bg) / u32_as_f32 (bg_height bg)) in
      if out_aspect < bg_aspect
      then (max (f32_round_u32 (fl 24 (u32_as_f32 (bg_height bg) * out_aspect))) 1, bg_height bg)
      else (bg_width bg, max (f32_round_u32 (fl 24 (u32_as_f32 (bg_width bg) / out_aspect))) 1))"

definition u32_saturating_sub :: "u32 \<Rightarrow> u32 \<Rightarrow> u32" where
  "u32_saturating_sub x y = (if x \<le> y then 0 else x - y)"

definition paint_scaled_background ::
  "nat \<Rightarrow> u32 \<Rightarrow> u32 \<Rightarrow> background_image \<Rightarrow> u8 list \<Rightarrow> u8 list option" where
  "paint_scaled_background stride w h bg =
     (if w = 0 \<or> h = 0 \<or> bg_width bg = 0 \<or> bg_height bg = 0 then wipe BG
      else let (crop_w, crop_h) = crop_size w h bg;
               x_off = u32_saturating_sub (bg_width bg) crop_w div 2;
               y_off = u32_saturating_sub (bg_height bg) crop_h div 2 in
        each [0..<unat h] (\<lambda>y.
          let src_y = y_off + of_nat (y * unat crop_h div unat h); row = y * stride in
          each [0..<unat w] (\<lambda>x.
            let src_x = x_off + of_nat (x * unat crop_w div unat w) in
            case bg_sample bg src_x src_y of (r, g, b, _) \<Rightarrow>
              let idx = row + x * 4 in
              guarded_by (\<lambda>px. idx + 3 < length px) (paint_cell (opaque_bytes r g b 0xff) idx))))"

datatype focused_field = UsernameField | PasswordField

definition draw_field ::
  "rasterizer \<Rightarrow> nat \<Rightarrow> u32 \<Rightarrow> u32 \<Rightarrow> i32 \<Rightarrow> i32 \<Rightarrow> i32 \<Rightarrow> rstring \<Rightarrow> rstring \<Rightarrow> bool \<Rightarrow> bool \<Rightarrow>
   text_state \<Rightarrow> text_state option" where
  "draw_field rast stride bw bh x y w lbl val focused pending =
     (let h = 36;
          bar = (if focused then if pending then TEXT_DISABLED else ACCENT else DIVIDER) in
      steps
        [put_text rast stride bw bh x (y - 6) lbl 11 TEXT_DISABLED Regular,
         on_pixels (fill_rect stride bw bh x y (i32_as_u32 w) (i32_as_u32 h) SURFACE_3),
         on_pixels (hline stride bw bh (y + h) x (x + w) bar),
         put_text rast stride bw bh (x + 12) (y + i32_quot h 2 + 5) val 14
           (if pending then TEXT_DISABLED else TEXT_PRIMARY) Regular])"

record greet_view =
  gv_background :: "background_image option"
  gv_username :: rstring
  gv_password_len :: nat
  gv_prompt :: "rstring option"
  gv_error :: "rstring option"
  gv_focus :: focused_field
  gv_pending :: bool

definition greet_text :: "rasterizer \<Rightarrow> greet_view \<Rightarrow> nat \<Rightarrow> u32 \<Rightarrow> u32 \<Rightarrow> i32 \<Rightarrow> i32 \<Rightarrow> text_state \<Rightarrow> text_state option" where
  "greet_text rast v stride w h px py =
     steps
       [put_text rast stride w h (px + 24) (py + 36) (lit ''NULLXES OS'') 18 TEXT_PRIMARY Medium,
        put_text rast stride w h (px + 24) (py + 80) (lit ''Sign in'') 14 TEXT_SECONDARY Regular,
        draw_field rast stride w h (px + 24) (py + 100) (480 - 48) (lit ''Username'') (gv_username v)
          (gv_focus v = UsernameField) (gv_pending v),
        draw_field rast stride w h (px + 24) (py + 170) (480 - 48)
          (case gv_prompt v of Some p \<Rightarrow> p | None \<Rightarrow> lit ''Password'')
          (replicate (min (gv_password_len v) 64) 0x2022) (gv_focus v = PasswordField) (gv_pending v),
        (case gv_error v of
           None \<Rightarrow> Some
         | Some e \<Rightarrow> put_text rast stride w h (px + 24) (py + 320 - 24) e 12 DESTRUCTIVE Regular)]"

definition greet_paint :: "rasterizer \<Rightarrow> greet_view \<Rightarrow> nat \<Rightarrow> u32 \<Rightarrow> u32 \<Rightarrow> scene \<Rightarrow> scene option" where
  "greet_paint rast v stride w h =
     (let px = i32_quot (i32_wrap (u32_as_i32 w - 480)) 2;
          py = i32_quot (i32_wrap (u32_as_i32 h - 320)) 2 in
      steps
        [on_pixels (case gv_background v of
             Some bg \<Rightarrow> paint_scaled_background stride w h bg
           | None \<Rightarrow> wipe BG),
         on_pixels (fill_rect stride w h px py 480 320 SURFACE_2),
         with_text (greet_text rast v stride w h px py)])"

lemma paint_cell_guarded: "keeps (sized stride w h) (guarded_by (\<lambda>px. i + 3 < length px) (paint_cell f i))"
  by (auto simp: keeps_def guarded_by_def paint_cell_def sized_def buffer_ok_def)

lemma background_keeps [keeping]: "keeps (sized stride w h) (paint_scaled_background stride w h bg)"
  unfolding paint_scaled_background_def Let_def
  by (auto intro!: keeping paint_cell_guarded split: prod.split)

lemma draw_field_keeps [keeping]:
  "rast_ok rast \<Longrightarrow> keeps (text_ok stride w h) (draw_field rast stride w h x y fw lbl val fo pe)"
  unfolding draw_field_def Let_def by (intro keeping)

interpretation greet_painter: painter greet_paint
  by unfold_locales (unfold greet_paint_def greet_text_def Let_def, intro keeping)

section \<open>The greetd dialogue\<close>

datatype gd_error_type = GdAuthError | GdError

datatype gd_request =
    CreateSession rstring
  | PostAuthMessageResponse "rstring option"
  | StartSession "rstring list" "rstring list"
  | CancelSession

datatype gd_response =
    GdSuccess
  | GdAuthMessage nat rstring
  | GdErrorResponse gd_error_type rstring

datatype flow_outcome =
    Prompt rstring nat
  | Success
  | Failure rstring
  | Cancelled

definition classify :: "gd_response \<Rightarrow> flow_outcome" where
  "classify resp =
     (case resp of
        GdSuccess \<Rightarrow> Success
      | GdAuthMessage ty msg \<Rightarrow> Prompt msg ty
      | GdErrorResponse ty descr \<Rightarrow>
          Failure ((case ty of GdAuthError \<Rightarrow> lit ''auth'' | GdError \<Rightarrow> lit ''error'') @ lit '': '' @ descr))"

definition SESSION_CMD :: "rstring list" where "SESSION_CMD = [lit ''/usr/bin/frame'']"

section \<open>The client\<close>

text \<open>
  \<open>gs_log\<close> is the dialogue so far, every request with the answer or the error of the exchange;
  \<open>gs_calls\<close> counts what was asked of the outside world.
\<close>

record greet_state = client +
  gs_greetd :: bool
  gs_background :: "background_image option"
  gs_username :: rstring
  gs_password :: rstring
  gs_prompt :: "rstring option"
  gs_error :: "rstring option"
  gs_focus :: focused_field
  gs_pending :: bool
  gs_awaiting_response :: bool
  gs_calls :: nat
  gs_log :: "(gd_request \<times> (rstring + gd_response)) list"

record greet_env =
  ge_client :: client_env
  ge_sock :: "rstring option"
  ge_connect :: "nat \<Rightarrow> bool"
  ge_reply :: "nat \<Rightarrow> gd_request \<Rightarrow> rstring + gd_response"

definition greet_new :: "bool \<Rightarrow> background_image option \<Rightarrow> greet_state" where
  "greet_new fonts_found bg =
     client.extend (client_new fonts_found GREET_W GREET_H)
       (greet_state.fields False bg [] [] None None UsernameField False False 0 [])"

definition greet_init :: "bool \<Rightarrow> background_image option \<Rightarrow> greet_state" where
  "greet_init fonts_found bg =
     client_init_surface (lit ''NULLXES Greeter'') (lit ''os.nullxes.Greet'') True (greet_new fonts_found bg)"

definition greet_view_of :: "greet_state \<Rightarrow> greet_view" where
  "greet_view_of s = \<lparr>gv_background = gs_background s, gv_username = gs_username s,
     gv_password_len = str_len (gs_password s), gv_prompt = gs_prompt s, gv_error = gs_error s,
     gv_focus = gs_focus s, gv_pending = gs_pending s\<rparr>"

definition greet_redraw :: "greet_env \<Rightarrow> greet_state \<Rightarrow> greet_state option" where
  "greet_redraw env s =
     client_redraw (ce_os (ge_client env)) (greet_paint (ce_rast (ge_client env)) (greet_view_of s)) s"

definition greetd_connect :: "greet_env \<Rightarrow> nat \<Rightarrow> rstring + unit" where
  "greetd_connect env n =
     (case ge_sock env of
        None \<Rightarrow> Inl (lit ''GREETD_SOCK not set'')
      | Some path \<Rightarrow> if ge_connect env n then Inr () else Inl (lit ''connect greetd socket '' @ path))"

definition greetd_call :: "greet_env \<Rightarrow> gd_request \<Rightarrow> greet_state \<Rightarrow> greet_state" where
  "greetd_call env req s =
     s\<lparr>gs_calls := gs_calls s + 1, gs_log := gs_log s @ [(req, ge_reply env (gs_calls s) req)]\<rparr>"

text \<open>What \<open>submit\<close> does with an outcome, or with the error of the exchange.\<close>

definition greet_outcome :: "greet_env \<Rightarrow> rstring + flow_outcome \<Rightarrow> greet_state \<Rightarrow> greet_state" where
  "greet_outcome env r s =
     (case r of
        Inr (Prompt msg ty) \<Rightarrow>
          s\<lparr>gs_prompt := Some msg, gs_awaiting_response := True, gs_focus := PasswordField,
            gs_error := None, gs_pending := False\<rparr>
      | Inr Success \<Rightarrow> (greetd_call env (StartSession SESSION_CMD []) s)\<lparr>cl_should_close := True\<rparr>
      | Inr (Failure reason) \<Rightarrow>
          (greetd_call env CancelSession (s\<lparr>gs_error := Some reason, gs_password := [],
             gs_awaiting_response := False, gs_focus := PasswordField\<rparr>))\<lparr>gs_pending := False\<rparr>
      | Inr Cancelled \<Rightarrow> s\<lparr>gs_pending := False\<rparr>
      | Inl e \<Rightarrow> s\<lparr>gs_error := Some (lit ''greetd protocol error: '' @ e), gs_pending := False\<rparr>)"

definition greet_request :: "greet_state \<Rightarrow> gd_request" where
  "greet_request s =
     (if \<not> gs_awaiting_response s then CreateSession (gs_username s)
      else PostAuthMessageResponse (if gs_password s = [] then None else Some (gs_password s)))"

definition greet_exchange :: "greet_env \<Rightarrow> greet_state \<Rightarrow> greet_state" where
  "greet_exchange env s =
     (let req = greet_request s;
          s1 = greetd_call env req
                 (s\<lparr>gs_pending := True, gs_password := if gs_awaiting_response s then [] else gs_password s\<rparr>) in
      greet_outcome env (map_sum id classify (ge_reply env (gs_calls s) req)) s1)"

definition greet_submit :: "greet_env \<Rightarrow> greet_state \<Rightarrow> greet_state option" where
  "greet_submit env s =
     (if gs_pending s then Some s
      else if str_trim (gs_username s) = [] \<and> gs_focus s = UsernameField
      then greet_redraw env (s\<lparr>gs_error := Some (lit ''username required'')\<rparr>)
      else case (if gs_greetd s then Inr () else greetd_connect env (gs_calls s)) of
        Inl e \<Rightarrow> greet_redraw env (s\<lparr>gs_calls := gs_calls s + 1, gs_error := Some (lit ''greetd unreachable: '' @ e)\<rparr>)
      | Inr _ \<Rightarrow>
          greet_redraw env (greet_exchange env
            (if gs_greetd s then s else s\<lparr>gs_greetd := True, gs_calls := gs_calls s + 1\<rparr>)))"

definition greet_handle_action :: "greet_env \<Rightarrow> action \<Rightarrow> greet_state \<Rightarrow> greet_state option" where
  "greet_handle_action env a s =
     (case a of
        Tab \<Rightarrow> greet_redraw env (s\<lparr>gs_focus :=
            (case gs_focus s of UsernameField \<Rightarrow> PasswordField | PasswordField \<Rightarrow> UsernameField)\<rparr>)
      | Backspace \<Rightarrow> greet_redraw env
            (case gs_focus s of
               UsernameField \<Rightarrow> s\<lparr>gs_username := str_pop (gs_username s)\<rparr>
             | PasswordField \<Rightarrow> s\<lparr>gs_password := str_pop (gs_password s)\<rparr>)
      | Enter \<Rightarrow>
          if gs_focus s = UsernameField \<and> \<not> gs_awaiting_response s
          then greet_redraw env (s\<lparr>gs_focus := PasswordField\<rparr>)
          else greet_submit env s
      | Escape \<Rightarrow>
          (let s1 = s\<lparr>gs_username := [], gs_password := [], gs_awaiting_response := False, gs_error := None\<rparr> in
           greet_redraw env (if gs_greetd s1 then greetd_call env CancelSession s1 else s1))
      | _ \<Rightarrow> greet_redraw env s)"

definition greet_handle_text :: "greet_env \<Rightarrow> rstring \<Rightarrow> greet_state \<Rightarrow> greet_state option" where
  "greet_handle_text env str s =
     (if gs_pending s then Some s
      else greet_redraw env
        (case gs_focus s of
           UsernameField \<Rightarrow> s\<lparr>gs_username := gs_username s @ str\<rparr>
         | PasswordField \<Rightarrow> s\<lparr>gs_password := gs_password s @ str\<rparr>))"

definition greet_resize :: "i32 \<Rightarrow> i32 \<Rightarrow> greet_state \<Rightarrow> greet_state option" where
  "greet_resize w h s =
     (let s1 = (if 0 < w then s\<lparr>cl_width := i32_as_u32 w\<rparr> else s) in
      Some (if 0 < h then s1\<lparr>cl_height := i32_as_u32 h\<rparr> else s1))"

definition greet_dispatch :: "greet_env \<Rightarrow> client_event \<Rightarrow> greet_state \<Rightarrow> greet_state option" where
  "greet_dispatch env =
     client_dispatch (ce_xkb (ge_client env)) (greet_redraw env) greet_resize (greet_handle_action env)
       (greet_handle_text env)"

definition greet_run :: "greet_env \<Rightarrow> bool \<Rightarrow> background_image option \<Rightarrow> client_event list list \<Rightarrow> greet_state option" where
  "greet_run env fonts_found bg turns = each turns (surface_loop (greet_dispatch env)) (greet_init fonts_found bg)"

end
