(* ===== verification/Greeter_Safety.thy ===== *)
theory Greeter_Safety
  imports Greeter
begin

text \<open>
  The properties of the login screen: the order of its dialogue with greetd, and that no event
  makes it panic.
\<close>

section \<open>A well-ordered dialogue\<close>

text \<open>An exchange of the login itself that greetd answered with a prompt, and an answer of the user that was lost.\<close>

fun prompted :: "gd_request \<times> (rstring + gd_response) \<Rightarrow> bool" where
  "prompted (CreateSession _, Inr (GdAuthMessage _ _)) = True"
| "prompted (PostAuthMessageResponse _, Inr (GdAuthMessage _ _)) = True"
| "prompted _ = False"

fun lost :: "gd_request \<times> (rstring + gd_response) \<Rightarrow> bool" where
  "lost (PostAuthMessageResponse _, Inl _) = True"
| "lost _ = False"

text \<open>
  A prompt is open when it is the last that was said, apart from answers that were lost in a failed exchange.
\<close>

definition prompt_open :: "(gd_request \<times> (rstring + gd_response)) list \<Rightarrow> bool" where
  "prompt_open xs \<longleftrightarrow> (\<exists>us x vs. xs = us @ x # vs \<and> prompted x \<and> (\<forall>v \<in> set vs. lost v))"

lemma prompt_open_Nil [simp]: "\<not> prompt_open []"
  by (simp add: prompt_open_def)

lemma prompt_open_snoc: "prompt_open (xs @ [x]) \<longleftrightarrow> prompted x \<or> lost x \<and> prompt_open xs"
proof
  assume "prompt_open (xs @ [x])"
  then obtain us y vs where e: "xs @ [x] = us @ y # vs" "prompted y" "\<forall>v \<in> set vs. lost v"
    by (auto simp: prompt_open_def)
  show "prompted x \<or> lost x \<and> prompt_open xs"
  proof (cases vs rule: rev_cases)
    case (snoc ws z)
    with e have "xs = us @ y # ws" "z = x" by simp_all
    moreover have "\<forall>v \<in> set ws. lost v" "lost z" using e(3) snoc by simp_all
    ultimately show ?thesis using e(2) unfolding prompt_open_def by blast
  qed (use e in simp)
next
  assume "prompted x \<or> lost x \<and> prompt_open xs"
  then show "prompt_open (xs @ [x])"
  proof
    assume "lost x \<and> prompt_open xs"
    then obtain us y vs where "xs = us @ y # vs" "prompted y" "\<forall>v \<in> set vs. lost v" "lost x"
      by (auto simp: prompt_open_def)
    then have "xs @ [x] = us @ y # (vs @ [x])" "\<forall>v \<in> set (vs @ [x]). lost v" by auto
    with \<open>prompted y\<close> show ?thesis unfolding prompt_open_def by blast
  next
    assume "prompted x"
    then show ?thesis unfolding prompt_open_def by (intro exI [of _ xs] exI [of _ x] exI [of _ "[]"]) simp
  qed
qed

lemma prompt_open_snoc2: "prompt_open (xs @ [x, y]) \<longleftrightarrow> prompted y \<or> lost y \<and> (prompted x \<or> lost x \<and> prompt_open xs)"
  using prompt_open_snoc [of "xs @ [x]" y] prompt_open_snoc [of xs x] by simp

fun accepted :: "gd_request \<times> (rstring + gd_response) \<Rightarrow> bool" where
  "accepted (CreateSession _, Inr GdSuccess) = True"
| "accepted (PostAuthMessageResponse _, Inr GdSuccess) = True"
| "accepted _ = False"

text \<open>When a request may follow the dialogue \<open>xs\<close>.\<close>

definition may_follow :: "(gd_request \<times> (rstring + gd_response)) list \<Rightarrow> gd_request \<Rightarrow> bool" where
  "may_follow xs req \<longleftrightarrow>
     (case req of
        StartSession cmd env \<Rightarrow> cmd = SESSION_CMD \<and> env = [] \<and> xs \<noteq> [] \<and> accepted (last xs)
      | PostAuthMessageResponse _ \<Rightarrow> prompt_open xs
      | CreateSession _ \<Rightarrow> \<not> prompt_open xs
      | CancelSession \<Rightarrow> True)"

definition dialogue_ok :: "(gd_request \<times> (rstring + gd_response)) list \<Rightarrow> bool" where
  "dialogue_ok lg \<longleftrightarrow> (\<forall>xs req r ys. lg = xs @ (req, r) # ys \<longrightarrow> may_follow xs req)"

lemma dialogue_ok_Nil [simp]: "dialogue_ok []"
  by (simp add: dialogue_ok_def)

lemma dialogue_ok_snoc: "dialogue_ok (lg @ [(req, r)]) \<longleftrightarrow> dialogue_ok lg \<and> may_follow lg req"
proof
  assume d: "dialogue_ok (lg @ [(req, r)])"
  have "may_follow xs q" if "lg = xs @ (q, r') # zs" for xs q r' zs
    using d that unfolding dialogue_ok_def by (metis append_Cons append_assoc)
  moreover have "may_follow lg req" using d unfolding dialogue_ok_def by blast
  ultimately show "dialogue_ok lg \<and> may_follow lg req" unfolding dialogue_ok_def by blast
next
  assume d: "dialogue_ok lg \<and> may_follow lg req"
  show "dialogue_ok (lg @ [(req, r)])"
    unfolding dialogue_ok_def
  proof (intro allI impI)
    fix xs q r' ys assume e: "lg @ [(req, r)] = xs @ (q, r') # ys"
    show "may_follow xs q"
    proof (cases ys rule: rev_cases)
      case Nil
      with e d show ?thesis by simp
    next
      case (snoc zs z)
      with e have "lg = xs @ (q, r') # zs" by simp
      with d show ?thesis unfolding dialogue_ok_def by blast
    qed
  qed
qed

lemma dialogue_ok_snoc2:
  "dialogue_ok (lg @ [x, (req, r)]) \<longleftrightarrow> dialogue_ok (lg @ [x]) \<and> may_follow (lg @ [x]) req"
  using dialogue_ok_snoc [of "lg @ [x]"] by simp

fun starts_session :: "gd_request \<times> (rstring + gd_response) \<Rightarrow> bool" where
  "starts_session (StartSession _ _, _) = True"
| "starts_session _ = False"

definition greet_core :: "greet_state \<Rightarrow> bool" where
  "greet_core s \<longleftrightarrow> dialogue_ok (gs_log s) \<and>
     (\<not> gs_pending s \<longrightarrow> gs_awaiting_response s = prompt_open (gs_log s)) \<and>
     (\<not> gs_greetd s \<longrightarrow> gs_log s = []) \<and>
     ((\<exists>x \<in> set (gs_log s). starts_session x) \<longrightarrow> cl_should_close s) \<and>
     (gs_pending s \<longrightarrow> cl_should_close s)"

definition greet_inv :: "greet_env \<Rightarrow> greet_state \<Rightarrow> bool" where
  "greet_inv env s \<longleftrightarrow> rast_ok (ce_rast (ge_client env)) \<and> client_ok s \<and> greet_core s"

text \<open>Fields the two halves of the invariant do not read.\<close>

lemma greet_core_redrawn: "redrawn s s' \<Longrightarrow> greet_core s' = greet_core s"
  by (auto simp: redrawn_def greet_core_def)

lemma greet_redraw_inv: "keeps (greet_inv env) (greet_redraw env)"
proof (rule keepsI)
  fix s assume "greet_inv env s"
  then show "\<exists>s'. greet_redraw env s = Some s' \<and> greet_inv env s'"
    using greet_painter.redraw_ok [of "ce_rast (ge_client env)" s "ce_os (ge_client env)" "greet_view_of s"]
      greet_core_redrawn by (auto simp: greet_redraw_def greet_inv_def)
qed

lemma greet_redraw_after: "greet_inv env s \<Longrightarrow> \<exists>s'. greet_redraw env s = Some s' \<and> greet_inv env s'"
  by (rule keepsD [OF greet_redraw_inv])

lemma greet_exchange_inv:
  assumes "greet_inv env s" and "\<not> gs_pending s" and "gs_greetd s"
  shows "greet_inv env (greet_exchange env s)"
proof -
  let ?req = "greet_request s" and ?r = "ge_reply env (gs_calls s) (greet_request s)"
  have follow: "may_follow (gs_log s) ?req"
    using assms by (auto simp: greet_inv_def greet_core_def may_follow_def greet_request_def)
  have open_after: "prompt_open (gs_log s @ [(?req, ?r)]) = (case ?r of
      Inr (GdAuthMessage ty msg) \<Rightarrow> True | Inl e \<Rightarrow> gs_awaiting_response s | _ \<Rightarrow> False)"
    using assms by (auto simp: prompt_open_snoc greet_request_def greet_inv_def greet_core_def
        split: sum.split gd_response.split)
  have cancelled: "\<not> prompt_open (xs @ [x, (CancelSession, y)])" for xs x y by (simp add: prompt_open_snoc2)
  have acc: "?r = Inr GdSuccess \<Longrightarrow> accepted (?req, ?r)"
    by (simp add: greet_request_def)
  have base: "dialogue_ok (gs_log s)" "dialogue_ok (gs_log s @ [(?req, ?r)])"
    using assms follow by (simp_all add: greet_inv_def greet_core_def dialogue_ok_snoc)
  have starts: "\<not> starts_session (?req, x)" for x by (simp add: greet_request_def)
  have client: "client_ok (greet_exchange env s)"
    using assms by (auto simp: greet_inv_def greet_exchange_def greet_outcome_def greetd_call_def client_ok_def
        Let_def split: sum.split flow_outcome.split)
  have "greet_core (greet_exchange env s)"
  proof (cases ?r)
    case (Inl e)
    with base starts assms open_after show ?thesis
      by (auto simp: greet_inv_def greet_exchange_def greet_outcome_def greetd_call_def greet_core_def Let_def)
  next
    case (Inr resp)
    then show ?thesis
    proof (cases resp)
      case GdSuccess
      have "may_follow (gs_log s @ [(?req, ?r)]) (StartSession SESSION_CMD [])"
        using acc Inr GdSuccess by (simp add: may_follow_def)
      with Inr GdSuccess base starts assms show ?thesis
        by (auto simp: greet_inv_def greet_exchange_def greet_outcome_def greetd_call_def greet_core_def
            classify_def dialogue_ok_snoc2 Let_def)
    next
      case (GdAuthMessage ty msg)
      with Inr base starts assms open_after show ?thesis
        by (auto simp: greet_inv_def greet_exchange_def greet_outcome_def greetd_call_def greet_core_def
            classify_def Let_def)
    next
      case (GdErrorResponse ty descr)
      have "may_follow xs CancelSession" for xs by (simp add: may_follow_def)
      with Inr GdErrorResponse base starts assms cancelled show ?thesis
        by (auto simp: greet_inv_def greet_exchange_def greet_outcome_def greetd_call_def greet_core_def
            classify_def dialogue_ok_snoc2 Let_def)
    qed
  qed
  with client assms show ?thesis by (simp add: greet_inv_def)
qed

text \<open>Changes of the user interface alone.\<close>

lemma greet_inv_ui:
  assumes "greet_inv env s" and "client.truncate s' = client.truncate s" and "gs_log s' = gs_log s"
    and "gs_awaiting_response s' = gs_awaiting_response s" and "gs_pending s' = gs_pending s"
    and "gs_greetd s \<longrightarrow> gs_greetd s'"
  shows "greet_inv env s'"
proof -
  have "cl_width s' = cl_width s" "cl_height s' = cl_height s" "cl_buffer s' = cl_buffer s"
    "cl_text s' = cl_text s" "cl_should_close s' = cl_should_close s"
    using assms(2) by (simp_all add: client.truncate_def)
  with assms show ?thesis by (auto simp: greet_inv_def client_ok_def greet_core_def)
qed

lemma greet_submit_inv:
  assumes "greet_inv env s"
  shows "\<exists>s'. greet_submit env s = Some s' \<and> greet_inv env s'"
proof -
  have "greet_inv env (s\<lparr>gs_greetd := True, gs_calls := gs_calls s + 1\<rparr>)"
    by (rule greet_inv_ui [OF assms]) (simp_all add: client.truncate_def)
  then have "\<not> gs_pending s \<Longrightarrow> greet_inv env (greet_exchange env (s\<lparr>gs_greetd := True, gs_calls := Suc (gs_calls s)\<rparr>))"
    by (simp add: greet_exchange_inv)
  moreover have "\<not> gs_pending s \<Longrightarrow> gs_greetd s \<Longrightarrow> greet_inv env (greet_exchange env s)"
    by (rule greet_exchange_inv [OF assms])
  moreover have "greet_inv env (s\<lparr>gs_error := e\<rparr>)" "greet_inv env (s\<lparr>gs_calls := n, gs_error := e\<rparr>)" for e n
    by (rule greet_inv_ui [OF assms]; simp add: client.truncate_def)+
  ultimately show ?thesis
    using assms unfolding greet_submit_def
    by (auto intro!: greet_redraw_after split: sum.split)
qed

text \<open>Escape ends the dialogue, if there is one.\<close>

lemma greet_escape_inv:
  assumes "greet_inv env s"
  defines "s1 \<equiv> s\<lparr>gs_username := [], gs_password := [], gs_awaiting_response := False, gs_error := None\<rparr>"
  shows "greet_inv env (if gs_greetd s1 then greetd_call env CancelSession s1 else s1)"
  using assms(1)
  by (auto simp: s1_def greet_inv_def greetd_call_def client_ok_def greet_core_def dialogue_ok_snoc may_follow_def
      prompt_open_snoc)

lemma greet_handle_action_inv: "keeps (greet_inv env) (greet_handle_action env a)"
proof (rule keepsI)
  fix s assume s: "greet_inv env s"
  then show "\<exists>s'. greet_handle_action env a s = Some s' \<and> greet_inv env s'"
  proof (cases "a = Escape")
    case True
    with greet_redraw_after [OF greet_escape_inv [OF s]] show ?thesis by (simp add: greet_handle_action_def Let_def)
  next
    case False
    with s show ?thesis
      by (cases a) (auto simp: greet_handle_action_def client.truncate_def
          intro!: greet_redraw_after greet_submit_inv elim!: greet_inv_ui split: focused_field.split)
  qed
qed

lemma greet_handle_text_inv: "keeps (greet_inv env) (greet_handle_text env str)"
  by (rule keepsI)
     (auto simp: greet_handle_text_def client.truncate_def intro!: greet_redraw_after elim!: greet_inv_ui
      split: focused_field.split)

interpretation greeter: surface_client greet_resize "greet_handle_action env"
  "greet_handle_text env" "greet_inv env" "greet_redraw env" for env
proof
  show "keeps (greet_inv env) (greet_resize w h)" if "client_event_ok (ClToplevelConfigure w h)" for w h
    using that by (auto simp: keeps_def greet_resize_def greet_inv_def client_ok_def greet_core_def Let_def
        resize_dims) (auto simp: dims_ok_def)
qed (auto simp: greet_inv_def client_ok_def greet_core_def mark_released_ok cl_emit_def
    intro: greet_redraw_inv greet_handle_action_inv greet_handle_text_inv)

lemma greet_run_inv:
  assumes "rast_ok (ce_rast (ge_client env))" and "\<forall>ev \<in> set (concat turns). client_event_ok ev"
  shows "\<exists>s. greet_run env f bg turns = Some s \<and> greet_inv env s"
proof -
  have "keeps (greet_inv env) (each turns (surface_loop (greet_dispatch env)))"
    using assms(2) unfolding surface_loop_def greet_dispatch_def
    by (intro keeping greeter.dispatch_keeps) auto
  moreover have "greet_inv env (greet_init f bg)"
    using assms(1) by (simp add: greet_inv_def greet_init_def greet_new_def client_init_surface_def cl_emit_def
        client_new_def client.defs greet_state.defs client_ok_def text_cache_ok_def cache_ok_def greet_core_def
        dims_ok_def GREET_W_def)
  ultimately show ?thesis unfolding greet_run_def by (rule keepsD)
qed

section \<open>Properties\<close>

text \<open>
  C7: the login screen starts a session only when greetd has accepted the user, and answers only
  prompts. Whatever the events and whatever greetd answers, the screen never panics. Every \<open>StartSession\<close> it
  sends is for the compositor and comes right after a request of the dialogue that greetd answered with
  success, and the screen then closes. A password is sent only while a prompt is open: since the last prompt
  of greetd nothing was said but passwords lost in failed exchanges. A new dialogue is begun only
  while no prompt is open.
\<close>

theorem greet_starts_only_accepted:
  assumes "rast_ok (ce_rast (ge_client env))" and "\<forall>ev \<in> set (concat turns). client_event_ok ev"
  shows "\<exists>s. greet_run env f bg turns = Some s \<and>
    (\<forall>xs cmd vars r ys. gs_log s = xs @ (StartSession cmd vars, r) # ys \<longrightarrow>
       cmd = SESSION_CMD \<and> xs \<noteq> [] \<and> accepted (last xs) \<and> cl_should_close s) \<and>
    (\<forall>xs pw r ys. gs_log s = xs @ (PostAuthMessageResponse pw, r) # ys \<longrightarrow> prompt_open xs) \<and>
    (\<forall>xs user r ys. gs_log s = xs @ (CreateSession user, r) # ys \<longrightarrow> \<not> prompt_open xs)"
proof -
  obtain s where s: "greet_run env f bg turns = Some s" "greet_core s"
    using greet_run_inv [OF assms] by (auto simp: greet_inv_def)
  then have d: "gs_log s = xs @ (q, r) # ys \<Longrightarrow> may_follow xs q" for xs q r ys
    unfolding greet_core_def dialogue_ok_def by blast
  have "cl_should_close s" if "gs_log s = xs @ (StartSession cmd vars, r) # ys" for xs cmd vars r ys
    using s(2) that unfolding greet_core_def by (metis in_set_conv_decomp starts_session.simps(1))
  moreover have "cmd = SESSION_CMD \<and> xs \<noteq> [] \<and> accepted (last xs)"
    if "gs_log s = xs @ (StartSession cmd vars, r) # ys" for xs cmd vars r ys
    using d [OF that] by (simp add: may_follow_def)
  moreover have "prompt_open xs" if "gs_log s = xs @ (PostAuthMessageResponse pw, r) # ys" for xs pw r ys
    using d [OF that] by (simp add: may_follow_def)
  moreover have "\<not> prompt_open xs" if "gs_log s = xs @ (CreateSession user, r) # ys" for xs user r ys
    using d [OF that] by (simp add: may_follow_def)
  ultimately show ?thesis using s(1) by blast
qed

text \<open>A login: the user a types the password b.\<close>

definition login_xkb :: xkb where
  "login_xkb = \<lparr>xkb_compile = (\<lambda>_. Some 0), xkb_state_new = (\<lambda>km. km), xkb_update_mask = (\<lambda>_ _ _ _ st. st),
     xkb_one_sym = (\<lambda>_ k. if k = 36 then KEY_Return else KEY_other k),
     xkb_utf8 = (\<lambda>_ k. if k = 38 then [97] else if k = 56 then [98] else [])\<rparr>"

fun login_reply :: "nat \<Rightarrow> gd_request \<Rightarrow> rstring + gd_response" where
  "login_reply n (CreateSession u) = Inr (GdAuthMessage 1 [58])"
| "login_reply n (PostAuthMessageResponse pw) =
     Inr (if pw = Some [98] then GdSuccess else GdErrorResponse GdAuthError [])"
| "login_reply n (StartSession cmd vars) = Inr GdSuccess"
| "login_reply n CancelSession = Inr GdSuccess"

definition login_env :: greet_env where
  "login_env = \<lparr>ge_client = \<lparr>ce_rast = box_rasterizer, ce_os = kind_os, ce_xkb = login_xkb\<rparr>,
     ge_sock = Some [], ge_connect = (\<lambda>_. True), ge_reply = login_reply\<rparr>"

definition login_events :: "client_event list list" where
  "login_events = [[ClKeymap True (Inr []) 0 [], ClKey 30 True], [ClKey 28 True, ClKey 28 True],
     [ClKey 48 True, ClKey 28 True], [ClKey 28 True]]"

lemmas login_run_simps = greet_run_def each_def login_events_def surface_loop_def guarded_by_def
  greet_dispatch_def client_dispatch_def greet_init_def greet_new_def client_new_def client_init_surface_def
  cl_emit_def client.defs greet_state.defs apply_keymap_def keyboard_new_def strip_trailing_nul_def
  login_env_def login_xkb_def process_key_def action_from_keysym_def is_control_def greet_handle_text_def
  greet_redraw_def client_redraw_def greet_handle_action_def greet_submit_def greetd_connect_def
  greet_exchange_def greet_request_def greetd_call_def greet_outcome_def classify_def Let_def

lemma login_run:
  "map_option gs_log (greet_run login_env False None login_events) =
   Some [(CreateSession [97], Inr (GdAuthMessage 1 [58])), (PostAuthMessageResponse (Some [98]), Inr GdSuccess),
     (StartSession SESSION_CMD [], Inr GdSuccess)]"
  by (simp add: login_run_simps)

theorem greet_starts_only_accepted_witness:
  "\<exists>s. greet_run login_env False None login_events = Some s \<and> cl_should_close s \<and> length (gs_log s) = 3"
proof -
  have "rast_ok (ce_rast (ge_client login_env))" "\<forall>ev \<in> set (concat login_events). client_event_ok ev"
    by (simp_all add: login_env_def rast_ok_def glyph_ok_def box_rasterizer_def login_events_def)
  from greet_starts_only_accepted [OF this, of False None] obtain s where
    s: "greet_run login_env False None login_events = Some s"
    "\<forall>xs cmd vars r ys. gs_log s = xs @ (StartSession cmd vars, r) # ys \<longrightarrow>
       cmd = SESSION_CMD \<and> xs \<noteq> [] \<and> accepted (last xs) \<and> cl_should_close s"
    by (elim exE conjE)
  moreover have "gs_log s = [(CreateSession [97], Inr (GdAuthMessage 1 [58])),
      (PostAuthMessageResponse (Some [98]), Inr GdSuccess)] @ (StartSession SESSION_CMD [], Inr GdSuccess) # []"
    using login_run s(1) by simp
  ultimately show ?thesis by (metis (no_types, lifting) length_append list.size(3,4) add_Suc_right
      add.right_neutral numeral_3_eq_3)
qed

text \<open>
  After an answer was lost the prompt stays open: Return sends a second answer, the empty one unless the user
  has typed again, although greetd may have taken the first.
\<close>

lemma greet_answers_again:
  assumes "gs_awaiting_response s" and "ge_reply env (gs_calls s) (greet_request s) = Inl e"
  shows "\<not> gs_pending (greet_exchange env s) \<and> greet_request (greet_exchange env s) = PostAuthMessageResponse None"
  using assms by (simp add: greet_exchange_def greet_outcome_def greetd_call_def greet_request_def Let_def)

text \<open>
  The check for an empty user name never guards a login. While greetd has asked nothing,
  Return in the user name field only moves to the password field, and Return there sends the user
  name as it is, the empty one included.
\<close>

lemma greet_sends_any_username:
  assumes "greet_inv env s" and "\<not> gs_awaiting_response s" "\<not> gs_pending s" "gs_greetd s"
    and "gs_focus s = UsernameField"
  shows "\<exists>s1 s2 rest. greet_handle_action env Enter s = Some s1 \<and> gs_log s1 = gs_log s \<and>
    gs_error s1 = gs_error s \<and> greet_handle_action env Enter s1 = Some s2 \<and>
    gs_log s2 = gs_log s @ (CreateSession (gs_username s), ge_reply env (gs_calls s) (CreateSession (gs_username s))) # rest"
proof -
  let ?t = "s\<lparr>gs_focus := PasswordField\<rparr>"
  have "greet_inv env ?t" by (rule greet_inv_ui [OF assms(1)]) (simp_all add: client.truncate_def)
  then obtain s1 where s1: "greet_redraw env ?t = Some s1" "greet_inv env s1" "redrawn ?t s1"
    using greet_painter.redraw_ok [of "ce_rast (ge_client env)" ?t "ce_os (ge_client env)" "greet_view_of ?t"]
      greet_core_redrawn by (auto simp: greet_redraw_def greet_inv_def)
  then have f: "gs_log s1 = gs_log s" "gs_error s1 = gs_error s" "gs_focus s1 = PasswordField"
    "gs_username s1 = gs_username s" "gs_calls s1 = gs_calls s" "\<not> gs_awaiting_response s1" "\<not> gs_pending s1" "gs_greetd s1"
    using assms by (auto simp: redrawn_def)
  let ?u = "greet_exchange env s1"
  obtain s2 where s2: "greet_redraw env ?u = Some s2" "redrawn ?u s2"
    using greet_exchange_inv [OF s1(2) f(7,8)]
      greet_painter.redraw_ok [of "ce_rast (ge_client env)" ?u "ce_os (ge_client env)" "greet_view_of ?u"]
    by (auto simp: greet_redraw_def greet_inv_def)
  have "\<exists>rest. gs_log ?u = gs_log s @ (CreateSession (gs_username s), ge_reply env (gs_calls s) (CreateSession (gs_username s))) # rest"
    using f by (auto simp: greet_exchange_def greet_request_def greetd_call_def greet_outcome_def Let_def
        split: sum.split flow_outcome.split)
  moreover have "gs_log s2 = gs_log ?u" using s2(2) by (auto simp: redrawn_def)
  ultimately show ?thesis
    using s1(1) s2(1) f assms by (auto simp: greet_handle_action_def greet_submit_def)
qed

end
