(* ===== verification/Settings.thy ===== *)
theory Settings
  imports Client Ipc_Wire Frame_Config
begin

text \<open>
  The settings application \<open>crates/nx-settings\<close>: its view of the configuration (\<open>conf.rs\<close>), the
  window (\<open>render.rs\<close>) and the client (\<open>state.rs\<close>). The TOML library, the file system and the
  environment are parameters. \<open>conf.rs\<close> declares its own records with the fields of those of
  \<open>frame/src/config.rs\<close>, but derives other defaults for them.
\<close>

section \<open>The configuration as the settings see it\<close>

text \<open>\<open>#[derive(Default)]\<close>: false, zero and the empty string.\<close>

definition conf_compositor_default :: compositor_config where
  "conf_compositor_default = \<lparr>cc_xwayland = False, cc_target_fps = 0, cc_vrr = False, cc_lock_on_suspend = False\<rparr>"

definition conf_input_default :: input_config where
  "conf_input_default = \<lparr>ic_natural_scroll = False, ic_tap_to_click = False, ic_pointer_accel = 0,
     ic_repeat_delay = 0, ic_repeat_rate = 0, ic_xkb_layout = [], ic_xkb_variant = [], ic_xkb_options = []\<rparr>"

definition conf_workspace_default :: workspace_config where
  "conf_workspace_default = \<lparr>wc_count = 0, wc_wrap = False\<rparr>"

definition conf_idle_default :: idle_config where
  "conf_idle_default = \<lparr>dim_ms = 0, lock_ms = 0, suspend_ms = 0\<rparr>"

definition conf_keybindings_default :: keybinding_config where
  "conf_keybindings_default = \<lparr>kc_launcher_binary = [], kc_lock_binary = []\<rparr>"

definition conf_default :: frame_config where
  "conf_default = \<lparr>fc_compositor = conf_compositor_default, fc_input = conf_input_default,
     fc_workspace = conf_workspace_default, fc_idle = conf_idle_default, fc_keybindings = conf_keybindings_default\<rparr>"

definition config_file :: "string \<Rightarrow> rstring option \<Rightarrow> rstring" where
  "config_file name dir =
     path_join (path_join (case dir of Some d \<Rightarrow> d | None \<Rightarrow> lit ''.'') (lit ''nullxes'')) (lit name)"

definition frame_path :: "rstring option \<Rightarrow> rstring" where
  "frame_path dir = config_file ''frame.toml'' dir"

definition theme_path :: "rstring option \<Rightarrow> rstring" where
  "theme_path dir = config_file ''theme.toml'' dir"

definition load_frame :: "rstring option \<Rightarrow> (rstring \<Rightarrow> rstring option) \<Rightarrow> (rstring \<Rightarrow> frame_config option) \<Rightarrow> frame_config" where
  "load_frame dir read parse =
     (case read (frame_path dir) of
        Some content \<Rightarrow> (case parse content of Some cfg \<Rightarrow> cfg | None \<Rightarrow> conf_default)
      | None \<Rightarrow> conf_default)"

section \<open>Writing the configuration\<close>

text \<open>
  \<open>path.with_extension(ext)\<close>: the extension of the last component, from its last dot that is not
  its first character, is replaced.
\<close>

definition file_stem :: "rstring \<Rightarrow> rstring" where
  "file_stem name =
     (let ext = takeWhile (\<lambda>c. c \<noteq> 46) (rev name); n = length name - length ext in
      if n \<le> 1 then name else take (n - 1) name)"

definition with_extension :: "rstring \<Rightarrow> rstring \<Rightarrow> rstring" where
  "with_extension ext path =
     (let name = rev (takeWhile (\<lambda>c. c \<noteq> 47) (rev path)) in
      take (length path - length name) path @ file_stem name @ 46 # ext)"

text \<open>
  The file system maps paths to contents. \<open>fs_write k\<close> is the state of a write of the bytes that
  stopped after \<open>k\<close> of them, \<open>write_ok\<close> and \<open>rename_ok\<close> the answers of the kernel.
  \<open>write_atomic_states\<close> are the states of the file system during the call, the last one the state
  it leaves.
\<close>

type_synonym file_system = "rstring \<Rightarrow> u8 list option"

definition fs_write :: "nat \<Rightarrow> rstring \<Rightarrow> u8 list \<Rightarrow> file_system \<Rightarrow> file_system" where
  "fs_write k path bytes fs = fs(path \<mapsto> take k bytes)"

definition fs_rename :: "rstring \<Rightarrow> rstring \<Rightarrow> file_system \<Rightarrow> file_system" where
  "fs_rename old new fs = (if old = new then fs else (fs(new := fs old))(old := None))"

definition write_atomic_states ::
  "nat option \<Rightarrow> bool \<Rightarrow> rstring \<Rightarrow> u8 list \<Rightarrow> file_system \<Rightarrow> file_system list \<times> bool" where
  "write_atomic_states write_stops rename_ok path bytes fs =
     (let tmp = with_extension (lit ''tmp'') path in
      case write_stops of
        Some k \<Rightarrow> (map (\<lambda>i. fs_write i tmp bytes fs) [0..<k + 1], False)
      | None \<Rightarrow>
          let during = map (\<lambda>i. fs_write i tmp bytes fs) [0..<length bytes + 1];
              written = fs_write (length bytes) tmp bytes fs in
          if rename_ok then (during @ [fs_rename tmp path written], True) else (during, False))"

definition save_frame_states where
  "save_frame_states dir mkdir_ok to_toml write_stops rename_ok cfg fs =
     (if \<not> mkdir_ok then ([], False)
      else case to_toml cfg of
        None \<Rightarrow> ([], False)
      | Some content \<Rightarrow>
          write_atomic_states write_stops rename_ok (frame_path dir) (map of_nat (utf8_encode content)) fs)"

section \<open>The window\<close>

datatype settings_section = SecTheme | SecInput | SecIdle | SecAbout

fun section_label :: "settings_section \<Rightarrow> rstring" where
  "section_label SecTheme = lit ''Theme''"
| "section_label SecInput = lit ''Input''"
| "section_label SecIdle = lit ''Idle''"
| "section_label SecAbout = lit ''About''"

fun section_title :: "settings_section \<Rightarrow> rstring" where
  "section_title SecTheme = lit ''Theme''"
| "section_title SecInput = lit ''Input''"
| "section_title SecIdle = lit ''Idle & Lock''"
| "section_title SecAbout = lit ''About''"

text \<open>\<open>{}\<close> of an \<open>i32\<close> and a \<open>bool\<close>, and \<open>{:?}\<close> of a string; \<open>quoted c\<close> are the characters the
  standard library escapes by their code.\<close>

definition i32_display :: "i32 \<Rightarrow> rstring" where
  "i32_display x = (if x < 0 then 45 # dec (nat (- x)) else dec (nat x))"

definition bool_display :: "bool \<Rightarrow> rstring" where
  "bool_display b = (if b then lit ''true'' else lit ''false'')"

fun hex_digits :: "nat \<Rightarrow> rstring" where
  "hex_digits n = (if n < 16 then [if n < 10 then 48 + n else 87 + n]
     else hex_digits (n div 16) @ [if n mod 16 < 10 then 48 + n mod 16 else 87 + n mod 16])"

declare hex_digits.simps [simp del]

definition char_debug :: "(rchar \<Rightarrow> bool) \<Rightarrow> rchar \<Rightarrow> rstring" where
  "char_debug quoted c =
     (if c = 0 then [92, 48] else if c = 9 then [92, 116] else if c = 13 then [92, 114] else if c = 10 then [92, 110]
      else if c = 34 \<or> c = 92 then [92, c]
      else if quoted c then [92, 117, 123] @ hex_digits c @ [125]
      else [c])"

definition str_debug :: "(rchar \<Rightarrow> bool) \<Rightarrow> rstring \<Rightarrow> rstring" where
  "str_debug quoted s = 34 # concat (map (char_debug quoted) s) @ [34]"

text \<open>What the window shows depends on the environment at the time it is painted.\<close>

record settings_env =
  se_client :: client_env
  se_config_dir :: "rstring option"
  se_read :: "rstring \<Rightarrow> rstring option"
  se_parse :: "rstring \<Rightarrow> frame_config option"
  se_quoted :: "rchar \<Rightarrow> bool"
  se_version :: rstring
  se_socket :: rstring

definition body_lines :: "settings_env \<Rightarrow> settings_section \<Rightarrow> rstring list" where
  "body_lines env sec =
     (let cfg = load_frame (se_config_dir env) (se_read env) (se_parse env);
          inp = fc_input cfg; idl = fc_idle cfg in
      case sec of
        SecTheme \<Rightarrow>
          [lit ''Theme file: '' @ theme_path (se_config_dir env),
           lit ''Edit theme.toml to change accent and surface colours.'',
           lit ''After saving, press Enter to push reload to FRAME.'']
      | SecInput \<Rightarrow>
          [lit ''xkb_layout      = '' @ str_debug (se_quoted env) (ic_xkb_layout inp),
           lit ''xkb_variant     = '' @ str_debug (se_quoted env) (ic_xkb_variant inp),
           lit ''repeat_delay_ms = '' @ i32_display (ic_repeat_delay inp),
           lit ''repeat_rate_hz  = '' @ i32_display (ic_repeat_rate inp),
           lit ''natural_scroll  = '' @ bool_display (ic_natural_scroll inp),
           lit ''tap_to_click    = '' @ bool_display (ic_tap_to_click inp)]
      | SecIdle \<Rightarrow>
          [lit ''dim_ms     = '' @ dec (unat (dim_ms idl)),
           lit ''lock_ms    = '' @ dec (unat (lock_ms idl)),
           lit ''suspend_ms = '' @ dec (unat (suspend_ms idl)),
           lit ''(Edit values in frame.toml then press Enter to reload.)'']
      | SecAbout \<Rightarrow>
          [lit ''NX-SETTINGS '' @ se_version env,
           lit ''FRAME socket: '' @ se_socket env,
           lit ''Press Enter to ping FRAME for state.''])"

definition SETTINGS_W :: u32 where "SETTINGS_W = 720"
definition SETTINGS_H :: u32 where "SETTINGS_H = 520"
definition SIDEBAR_W :: i32 where "SIDEBAR_W = 200"
definition SETTINGS_ROW_H :: i32 where "SETTINGS_ROW_H = 40"
definition SETTINGS_PAD :: i32 where "SETTINGS_PAD = 16"

record settings_view =
  sv_section :: settings_section
  sv_lines :: "rstring list"
  sv_status :: "rstring option"

definition section_row ::
  "rasterizer \<Rightarrow> nat \<Rightarrow> u32 \<Rightarrow> u32 \<Rightarrow> settings_section \<Rightarrow> nat \<times> settings_section \<Rightarrow> text_state \<Rightarrow> text_state option" where
  "section_row rast stride w h current = (\<lambda>(i, sec).
     let y = 60 + int i * SETTINGS_ROW_H; highlighted = (current = sec) in
     steps
       [guarded highlighted (steps
          [on_pixels (fill_rect stride w h 0 y (i32_as_u32 SIDEBAR_W) (i32_as_u32 SETTINGS_ROW_H) SELECTION_BG),
           on_pixels (vline stride w h 0 y (y + SETTINGS_ROW_H) ACCENT)]),
        put_text rast stride w h SETTINGS_PAD (y + i32_quot SETTINGS_ROW_H 2 + 5) (section_label sec) 13
          (if highlighted then TEXT_PRIMARY else TEXT_SECONDARY) Regular])"

definition settings_paint :: "rasterizer \<Rightarrow> settings_view \<Rightarrow> nat \<Rightarrow> u32 \<Rightarrow> u32 \<Rightarrow> scene \<Rightarrow> scene option" where
  "settings_paint rast v stride w h =
     (let body_x = SIDEBAR_W + SETTINGS_PAD in
      steps
        [on_pixels (wipe SURFACE_2),
         on_pixels (fill_rect stride w h 0 0 (i32_as_u32 SIDEBAR_W) h SURFACE_3),
         on_pixels (vline stride w h SIDEBAR_W 0 (u32_as_i32 h) DIVIDER),
         with_text (steps
           [put_text rast stride w h SETTINGS_PAD 28 (lit ''NULLXES Settings'') 14 TEXT_PRIMARY Medium,
            each (zip [0..<4] [SecTheme, SecInput, SecIdle, SecAbout]) (section_row rast stride w h (sv_section v)),
            put_text rast stride w h body_x 32 (section_title (sv_section v)) 18 TEXT_PRIMARY Medium,
            each (zip [0..<length (sv_lines v)] (sv_lines v)) (\<lambda>(i, line).
              put_text rast stride w h body_x (i32_wrap (64 + 22 * int i)) line 13 TEXT_SECONDARY Regular),
            (case sv_status v of
               None \<Rightarrow> Some
             | Some status \<Rightarrow>
                 put_text rast stride w h body_x (i32_wrap (u32_as_i32 h - 16)) status 12 SUCCESS Regular)])])"

lemma section_row_keeps [keeping]:
  "rast_ok rast \<Longrightarrow> keeps (text_ok stride w h) (section_row rast stride w h cur p)"
  by (cases p) (simp add: section_row_def Let_def keeping)

interpretation settings_painter: painter settings_paint
  by unfold_locales (unfold settings_paint_def Let_def, intro keeping)

section \<open>The client\<close>

text \<open>\<open>ss_reloads\<close> counts the reload tasks that have been started and have not answered.\<close>

record settings_state = client +
  ss_section :: settings_section
  ss_status :: "rstring option"
  ss_reloads :: nat

definition settings_new :: "bool \<Rightarrow> settings_state" where
  "settings_new fonts_found =
     client.extend (client_new fonts_found SETTINGS_W SETTINGS_H) (settings_state.fields SecTheme None 0)"

definition settings_init :: "bool \<Rightarrow> settings_state" where
  "settings_init fonts_found =
     client_init_surface (lit ''NULLXES Settings'') (lit ''os.nullxes.Settings'') False (settings_new fonts_found)"

definition settings_view_of :: "settings_env \<Rightarrow> settings_state \<Rightarrow> settings_view" where
  "settings_view_of env s = \<lparr>sv_section = ss_section s, sv_lines = body_lines env (ss_section s),
     sv_status = ss_status s\<rparr>"

definition settings_redraw :: "settings_env \<Rightarrow> settings_state \<Rightarrow> settings_state option" where
  "settings_redraw env s =
     client_redraw (ce_os (se_client env)) (settings_paint (ce_rast (se_client env)) (settings_view_of env s)) s"

fun section_up :: "settings_section \<Rightarrow> settings_section" where
  "section_up SecTheme = SecAbout"
| "section_up SecInput = SecTheme"
| "section_up SecIdle = SecInput"
| "section_up SecAbout = SecIdle"

fun section_down :: "settings_section \<Rightarrow> settings_section" where
  "section_down SecTheme = SecInput"
| "section_down SecInput = SecIdle"
| "section_down SecIdle = SecAbout"
| "section_down SecAbout = SecTheme"

definition settings_handle_action :: "settings_env \<Rightarrow> action \<Rightarrow> settings_state \<Rightarrow> settings_state option" where
  "settings_handle_action env a s = settings_redraw env
     (case a of
        Up \<Rightarrow> s\<lparr>ss_section := section_up (ss_section s)\<rparr>
      | Down \<Rightarrow> s\<lparr>ss_section := section_down (ss_section s)\<rparr>
      | Enter \<Rightarrow> s\<lparr>ss_status := Some (lit ''Reloading FRAME'' @ [0x2026]), ss_reloads := ss_reloads s + 1\<rparr>
      | Escape \<Rightarrow> s\<lparr>cl_should_close := True\<rparr>
      | _ \<Rightarrow> s)"

text \<open>\<open>reload_frame\<close> and the task that stores its result; the request is \<open>ReloadConfig\<close>.\<close>

definition supported_display :: "u8 list \<Rightarrow> rstring" where
  "supported_display vs =
     91 # concat (map (\<lambda>(i, v). (if i = 0 then [] else lit '', '') @ dec (unat v)) (zip [0..<length vs] vs)) @ [93]"

fun ipc_error_display :: "ipc_error \<Rightarrow> rstring" where
  "ipc_error_display (VersionMismatch vs) =
     lit ''protocol version mismatch (server supports '' @ supported_display vs @ lit '')''"
| "ipc_error_display Busy = lit ''server is busy; try again later''"
| "ipc_error_display (InvalidRequest m) = lit ''invalid request: '' @ m"
| "ipc_error_display UnknownKind = lit ''unknown request kind''"
| "ipc_error_display (Internal m) = lit ''internal compositor error: '' @ m"
| "ipc_error_display NotImplemented = lit ''not implemented''"

definition reload_frame :: "(nat \<Rightarrow> bool) \<Rightarrow> client_error + response \<Rightarrow> rstring + unit" where
  "reload_frame up reply =
     (case fst (client_connect up) of
        None \<Rightarrow> Inl (lit ''connect to FRAME ipc'')
      | Some _ \<Rightarrow>
          (case reply of
             Inl _ \<Rightarrow> Inl (lit ''send ReloadConfig'')
           | Inr (RespOk _) \<Rightarrow> Inr ()
           | Inr (RespErr e) \<Rightarrow> Inl (ipc_error_display e)))"

definition reload_done :: "rstring + unit \<Rightarrow> settings_state \<Rightarrow> settings_state" where
  "reload_done r s =
     (if ss_reloads s = 0 then s
      else s\<lparr>ss_reloads := ss_reloads s - 1,
             ss_status := Some (case r of Inr _ \<Rightarrow> lit ''FRAME reloaded''
                                | Inl e \<Rightarrow> lit ''FRAME reload failed: '' @ e)\<rparr>)"

definition settings_dispatch :: "settings_env \<Rightarrow> client_event \<Rightarrow> settings_state \<Rightarrow> settings_state option" where
  "settings_dispatch env =
     client_dispatch (ce_xkb (se_client env)) (settings_redraw env) (\<lambda>w h s. Some s) (settings_handle_action env)
       (\<lambda>str s. Some s)"

datatype settings_input = SettingsEvent client_event | ReloadDone "rstring + unit"

definition settings_step :: "settings_env \<Rightarrow> settings_input \<Rightarrow> settings_state \<Rightarrow> settings_state option" where
  "settings_step env i =
     (case i of
        SettingsEvent ev \<Rightarrow> settings_dispatch env ev
      | ReloadDone r \<Rightarrow> \<lambda>s. Some (reload_done r s))"

text \<open>A reload task may answer at any moment, also between two events of a batch.\<close>

definition settings_run :: "settings_env \<Rightarrow> bool \<Rightarrow> settings_input list list \<Rightarrow> settings_state option" where
  "settings_run env fonts_found turns =
     each turns (surface_loop (settings_step env)) (settings_init fonts_found)"

section \<open>The invariant\<close>

text \<open>The status says that a reload is running only while a reload task has not answered.\<close>

definition settings_inv :: "settings_env \<Rightarrow> settings_state \<Rightarrow> bool" where
  "settings_inv env s \<longleftrightarrow> rast_ok (ce_rast (se_client env)) \<and> client_ok s \<and>
     (ss_status s = Some (lit ''Reloading FRAME'' @ [0x2026]) \<longrightarrow> 0 < ss_reloads s)"

lemma settings_redraw_inv: "keeps (settings_inv env) (settings_redraw env)"
proof (rule keepsI)
  fix s assume "settings_inv env s"
  then show "\<exists>s'. settings_redraw env s = Some s' \<and> settings_inv env s'"
    using settings_painter.redraw_ok [of "ce_rast (se_client env)" s "ce_os (se_client env)" "settings_view_of env s"]
    by (auto simp: settings_redraw_def settings_inv_def redrawn_def)
qed

lemma settings_redraw_after: "settings_inv env s \<Longrightarrow> \<exists>s'. settings_redraw env s = Some s' \<and> settings_inv env s'"
  by (rule keepsD [OF settings_redraw_inv])

lemma settings_handle_action_inv: "keeps (settings_inv env) (settings_handle_action env a)"
proof (rule keepsI)
  fix s assume "settings_inv env s"
  then show "\<exists>s'. settings_handle_action env a s = Some s' \<and> settings_inv env s'"
    unfolding settings_handle_action_def
    by (intro settings_redraw_after) (auto simp: settings_inv_def client_ok_def split: action.split)
qed

interpretation settings: surface_client "\<lambda>w h s. Some s" "settings_handle_action env"
  "\<lambda>str s. Some s" "settings_inv env" "settings_redraw env" for env
  by unfold_locales
     (auto simp: settings_inv_def client_ok_def mark_released_ok cl_emit_def intro: settings_redraw_inv settings_handle_action_inv keeps_pure)

lemma reload_done_inv: "settings_inv env s \<Longrightarrow> settings_inv env (reload_done r s)"
  by (auto simp: reload_done_def settings_inv_def client_ok_def lit_def split: sum.splits)

fun settings_input_ok :: "settings_input \<Rightarrow> bool" where
  "settings_input_ok (SettingsEvent ev) = client_event_ok ev"
| "settings_input_ok (ReloadDone r) = True"

lemma settings_step_keeps: "settings_input_ok i \<Longrightarrow> keeps (settings_inv env) (settings_step env i)"
  by (cases i) (auto simp: settings_step_def settings_dispatch_def reload_done_inv
      intro!: keeping settings.dispatch_keeps)

lemma settings_init_inv: "rast_ok (ce_rast (se_client env)) \<Longrightarrow> settings_inv env (settings_init f)"
  by (simp add: settings_inv_def settings_init_def settings_new_def client_init_surface_def cl_emit_def
      client_new_def client.defs settings_state.defs client_ok_def text_cache_ok_def cache_ok_def
      dims_ok_def SETTINGS_W_def)

lemma settings_run_inv:
  assumes "rast_ok (ce_rast (se_client env))" and "\<forall>i \<in> set (concat turns). settings_input_ok i"
  shows "\<exists>s. settings_run env f turns = Some s \<and> settings_inv env s"
proof -
  have "keeps (settings_inv env) (each turns (surface_loop (settings_step env)))"
    using assms(2) unfolding surface_loop_def by (intro keeping settings_step_keeps) auto
  from keepsD [OF this settings_init_inv [OF assms(1), of f]] show ?thesis by (simp add: settings_run_def)
qed

section \<open>The path of the configuration\<close>

lemma last_with_extension: "ext \<noteq> [] \<Longrightarrow> last (with_extension ext path) = last ext"
  by (simp add: with_extension_def Let_def)

lemma last_path_join: "p \<noteq> [] \<Longrightarrow> last (path_join d p) = last p"
  by (simp add: path_join_def)

lemma frame_path_not_tmp: "with_extension (lit ''tmp'') (frame_path dir) \<noteq> frame_path dir"
proof
  assume e: "with_extension (lit ''tmp'') (frame_path dir) = frame_path dir"
  have "last (frame_path dir) = 108" by (simp add: frame_path_def config_file_def last_path_join lit_def)
  moreover have "last (with_extension (lit ''tmp'') (frame_path dir)) = 112"
    by (simp add: last_with_extension lit_def)
  ultimately show False using e by simp
qed

lemma write_atomic_states_files:
  assumes "tmp = with_extension (lit ''tmp'') path" "tmp \<noteq> path"
    and "write_atomic_states ws rn path bytes fs = (states, ok)" "st \<in> set states"
  shows "(\<forall>p. p \<noteq> path \<and> p \<noteq> tmp \<longrightarrow> st p = fs p) \<and>
    (st path = fs path \<or> ok \<and> st = last states \<and> st path = Some bytes)"
  using assms by (auto simp: write_atomic_states_def fs_write_def fs_rename_def Let_def
      split: option.splits if_splits)

lemma write_atomic_states_ok:
  assumes "with_extension (lit ''tmp'') path \<noteq> path" "write_atomic_states ws rn path bytes fs = (states, True)"
  shows "states \<noteq> [] \<and> last states path = Some bytes \<and> last states (with_extension (lit ''tmp'') path) = None"
  using assms by (auto simp: write_atomic_states_def fs_write_def fs_rename_def Let_def
      split: option.splits if_splits)

section \<open>Properties\<close>

text \<open>
  Saving the configuration is atomic. At every moment of the call, also when the write stops
  half way, the configuration file holds its old contents, or the call succeeds and it holds the
  complete new contents at the end; no file but it and the temporary one changes; and after a
  success the temporary file is gone.
\<close>

lemma save_frame_atomic:
  assumes "save_frame_states dir mk to_toml ws rn cfg fs = (states, ok)"
  shows "(\<forall>st \<in> set states.
      (\<forall>p. p \<noteq> frame_path dir \<and> p \<noteq> with_extension (lit ''tmp'') (frame_path dir) \<longrightarrow> st p = fs p) \<and>
      (st (frame_path dir) = fs (frame_path dir) \<or> ok \<and> st = last states)) \<and>
    (ok \<longrightarrow> states \<noteq> [] \<and> (\<exists>content. to_toml cfg = Some content \<and>
      last states (frame_path dir) = Some (map of_nat (utf8_encode content)) \<and>
      last states (with_extension (lit ''tmp'') (frame_path dir)) = None))"
proof (cases "mk \<and> to_toml cfg \<noteq> None")
  case False
  with assms show ?thesis by (auto simp: save_frame_states_def split: if_splits)
next
  case True
  then obtain content where c: "to_toml cfg = Some content" "mk" by auto
  with assms have w: "write_atomic_states ws rn (frame_path dir) (map of_nat (utf8_encode content)) fs = (states, ok)"
    by (simp add: save_frame_states_def)
  show ?thesis
    using write_atomic_states_files [OF refl frame_path_not_tmp w]
      write_atomic_states_ok [OF frame_path_not_tmp, of ws rn dir _ fs states] w c by auto
qed

text \<open>
  The settings window never panics, whatever the events and whenever the reload tasks answer,
  and its status says that a reload is running only while one is.
\<close>

lemma settings_status_is_current:
  assumes "rast_ok (ce_rast (se_client env))" and "\<forall>i \<in> set (concat turns). settings_input_ok i"
  shows "\<exists>s. settings_run env f turns = Some s \<and>
    (ss_status s = Some (lit ''Reloading FRAME'' @ [0x2026]) \<longrightarrow> 0 < ss_reloads s)"
  using settings_run_inv [OF assms, of f] by (auto simp: settings_inv_def)

definition settings_example_env :: settings_env where
  "settings_example_env = \<lparr>se_client = \<lparr>ce_rast = box_rasterizer, ce_os = kind_os,
     ce_xkb = \<lparr>xkb_compile = (\<lambda>_. Some 0), xkb_state_new = (\<lambda>km. km), xkb_update_mask = (\<lambda>_ _ _ _ st. st),
       xkb_one_sym = (\<lambda>_ _. KEY_Return), xkb_utf8 = (\<lambda>_ _. [])\<rparr>\<rparr>,
     se_config_dir = None, se_read = (\<lambda>_. None), se_parse = (\<lambda>_. None), se_quoted = (\<lambda>_. False),
     se_version = [], se_socket = []\<rparr>"

text \<open>
  Without a configuration file the settings do not show what the compositor uses: the
  compositor starts with its own defaults, the settings show zero, false and the empty string,
  so that the repeat rates, the touchpad flags and the idle times are other ones. They ignore a
  system-wide file as well: with \<open>/etc/nullxes/frame.toml\<close> alone the compositor uses it and the
  settings still show their own defaults.
\<close>

lemma settings_show_other_defaults:
  assumes "\<And>p. p \<noteq> lit ''/etc/nullxes/frame.toml'' \<Longrightarrow> read p = None"
    and "frame_path dir \<noteq> lit ''/etc/nullxes/frame.toml''"
  shows "load_frame dir read parse = conf_default \<and>
    config_load None dir read parse =
      (case Option.bind (read (lit ''/etc/nullxes/frame.toml'')) parse of
         Some cfg \<Rightarrow> cfg | None \<Rightarrow> frame_config_default) \<and>
    (\<forall>x \<in> {ic_repeat_delay, ic_repeat_rate}. x (fc_input conf_default) \<noteq> x (fc_input frame_config_default)) \<and>
    (\<forall>x \<in> {ic_tap_to_click, ic_natural_scroll}. x (fc_input conf_default) \<noteq> x (fc_input frame_config_default)) \<and>
    (\<forall>x \<in> {dim_ms, lock_ms, suspend_ms}. x (fc_idle conf_default) \<noteq> x (fc_idle frame_config_default))"
proof -
  have "read (frame_path dir) = None" using assms by blast
  moreover have "config_paths None dir =
      (case dir of Some d \<Rightarrow> [frame_path dir] | None \<Rightarrow> []) @ [lit ''/etc/nullxes/frame.toml'']"
    by (simp add: config_paths_def frame_path_def config_file_def split: option.split)
  ultimately show ?thesis
    by (auto simp: load_frame_def config_load_def conf_default_def conf_input_default_def conf_idle_default_def
        frame_config_default_def input_config_default_def idle_config_default_def split: option.split)
qed

end
