(* ===== verification/Slate.thy ===== *)
theory Slate
  imports Client
begin

text \<open>
  The terminal emulator \<open>crates/slate\<close>: painting the cell grid (\<open>render.rs\<close>), the session with the
  pseudo terminal (\<open>term.rs\<close>) and the client (\<open>state.rs\<close>). The terminal library is a parameter: what
  the source reads from it is a \<open>term_view\<close>, what it tells it is recorded in the session.
\<close>

section \<open>Cells\<close>

datatype named_color =
    Foreground | Background | Black | Red | Green | Yellow | Blue | Magenta | Cyan | White | OtherNamed nat

datatype ansi_color = Named named_color | Spec u8 u8 u8 | Indexed u8

record grid_cell =
  gc_char :: rchar
  gc_fg :: ansi_color
  gc_bg :: ansi_color
  gc_underline :: bool

definition CELL_W :: u32 where "CELL_W = 8"
definition CELL_H :: u32 where "CELL_H = 18"
definition PADDING :: u32 where "PADDING = 8"
definition FONT_PX :: rat where "FONT_PX = 13"

definition spec_color :: "u8 \<Rightarrow> u8 \<Rightarrow> u8 \<Rightarrow> color" where
  "spec_color r g b = rgb (fl 24 (of_nat (unat r) / 255)) (fl 24 (of_nat (unat g) / 255)) (fl 24 (of_nat (unat b) / 255))"

definition ansi_fg :: "grid_cell \<Rightarrow> color" where
  "ansi_fg cell =
     (case gc_fg cell of
        Named Foreground \<Rightarrow> TEXT_PRIMARY
      | Named Background \<Rightarrow> SURFACE_2
      | Named Black \<Rightarrow> SURFACE_1
      | Named Red \<Rightarrow> DESTRUCTIVE
      | Named Green \<Rightarrow> SUCCESS
      | Named Yellow \<Rightarrow> WARNING
      | Named Blue \<Rightarrow> from_hex 0x4B7BC9
      | Named Magenta \<Rightarrow> from_hex 0xA557C9
      | Named Cyan \<Rightarrow> from_hex 0x4CC0C9
      | Named White \<Rightarrow> TEXT_PRIMARY
      | Spec r g b \<Rightarrow> spec_color r g b
      | Indexed _ \<Rightarrow> TEXT_PRIMARY
      | _ \<Rightarrow> TEXT_PRIMARY)"

definition ansi_bg :: "grid_cell \<Rightarrow> color" where
  "ansi_bg cell =
     (case gc_bg cell of
        Named Background \<Rightarrow> SURFACE_2
      | Named Black \<Rightarrow> SURFACE_1
      | Spec r g b \<Rightarrow> spec_color r g b
      | _ \<Rightarrow> SURFACE_2)"

text \<open>\<open>as u16\<close> keeps the low 16 bits.\<close>

definition cells_along :: "u32 \<Rightarrow> u32 \<Rightarrow> u16" where
  "cells_along px cell = of_nat (max ((unat px - 2 * unat PADDING) div unat cell) 1)"

definition cell_grid_for_window :: "u32 \<Rightarrow> u32 \<Rightarrow> u16 \<times> u16" where
  "cell_grid_for_window w h = (cells_along w CELL_W, cells_along h CELL_H)"

section \<open>Painting\<close>

record term_view =
  tv_cols :: nat
  tv_rows :: nat
  tv_cell :: "nat \<Rightarrow> nat \<Rightarrow> grid_cell"
  tv_cursor :: "nat \<times> nat"

definition snapshot_grid :: "term_view \<Rightarrow> grid_cell list list" where
  "snapshot_grid v = map (\<lambda>line. map (tv_cell v line) [0..<tv_cols v]) [0..<tv_rows v]"

record slate_view =
  sv_grid :: "grid_cell list list"
  sv_cursor :: "nat \<times> nat"
  sv_blink :: rat

definition cell_x :: "nat \<Rightarrow> i32" where
  "cell_x col = i32_wrap (8 + i32_wrap (i32_wrap (int col) * 8))"

definition cell_y :: "nat \<Rightarrow> i32" where
  "cell_y row = i32_wrap (8 + i32_wrap (i32_wrap (int row) * 18))"

definition baseline_offset :: i32 where "baseline_offset = i32_quot (18 * 3) 4"

definition paint_grid_cell ::
  "rasterizer \<Rightarrow> nat \<Rightarrow> u32 \<Rightarrow> u32 \<Rightarrow> i32 \<Rightarrow> i32 \<Rightarrow> grid_cell \<Rightarrow> text_state \<Rightarrow> text_state option" where
  "paint_grid_cell rast stride w h x y cell = steps
     [on_pixels (fill_rect stride w h x y CELL_W CELL_H (ansi_bg cell)),
      guarded (\<not> is_control (gc_char cell) \<and> gc_char cell \<noteq> 32)
        (put_text rast stride w h x (i32_wrap (y + baseline_offset)) [gc_char cell] FONT_PX (ansi_fg cell) Mono),
      guarded (gc_underline cell)
        (on_pixels (hline stride w h (i32_wrap (y + baseline_offset + 2)) x (i32_wrap (x + 8)) (ansi_fg cell)))]"

definition paint_cursor :: "nat \<Rightarrow> u32 \<Rightarrow> u32 \<Rightarrow> nat \<times> nat \<Rightarrow> text_state \<Rightarrow> text_state option" where
  "paint_cursor stride w h = (\<lambda>(col, row).
     on_pixels (fill_rect stride w h (cell_x col) (cell_y row) CELL_W CELL_H (with_alpha ACCENT (1 / 2))))"

definition slate_paint :: "rasterizer \<Rightarrow> slate_view \<Rightarrow> nat \<Rightarrow> u32 \<Rightarrow> u32 \<Rightarrow> scene \<Rightarrow> scene option" where
  "slate_paint rast v stride w h = steps
     [on_pixels (wipe SURFACE_2),
      with_text (steps
        [each (zip [0..<length (sv_grid v)] (sv_grid v)) (\<lambda>(row_idx, row).
           each (zip [0..<length row] row) (\<lambda>(col_idx, cell).
             paint_grid_cell rast stride w h (cell_x col_idx) (cell_y row_idx) cell)),
         guarded (1 / 2 < sv_blink v) (paint_cursor stride w h (sv_cursor v))])]"

lemma paint_grid_cell_keeps [keeping]:
  "rast_ok rast \<Longrightarrow> keeps (text_ok stride w h) (paint_grid_cell rast stride w h x y cell)"
  unfolding paint_grid_cell_def by (intro keeping)

lemma paint_cursor_keeps [keeping]: "keeps (text_ok stride w h) (paint_cursor stride w h cur)"
  unfolding paint_cursor_def by (intro keeping)

interpretation slate_painter: painter slate_paint
  by unfold_locales (unfold slate_paint_def, intro keeping)

section \<open>The session\<close>

datatype pty_msg =
    PtyInput "u8 list"
  | PtyResize u16 u16 u16 u16

text \<open>
  \<open>ts_window\<close> is the size the pseudo terminal was opened with, \<open>ts_msgs\<close> what was sent to its
  thread since, \<open>ts_dims\<close> the columns and rows the emulator was last given.
\<close>

record term_session =
  ts_window :: "u16 \<times> u16 \<times> u16 \<times> u16"
  ts_dims :: "nat \<times> nat"
  ts_msgs :: "pty_msg list"

definition session_new :: "bool \<Rightarrow> u16 \<times> u16 \<Rightarrow> term_session option" where
  "session_new opened = (\<lambda>(cols, rows).
     if opened
     then Some \<lparr>ts_window = (cols, rows, ucast CELL_W, ucast CELL_H), ts_dims = (unat cols, unat rows), ts_msgs = []\<rparr>
     else None)"

definition session_write :: "u8 list \<Rightarrow> term_session \<Rightarrow> term_session" where
  "session_write bytes t = t\<lparr>ts_msgs := ts_msgs t @ [PtyInput bytes]\<rparr>"

definition session_resize :: "u16 \<times> u16 \<Rightarrow> term_session \<Rightarrow> term_session" where
  "session_resize = (\<lambda>(cols, rows) t.
     t\<lparr>ts_msgs := ts_msgs t @ [PtyResize cols rows (ucast CELL_W) (ucast CELL_H)],
       ts_dims := (unat cols, unat rows)\<rparr>)"

text \<open>The events of the terminal library that wake the client.\<close>

datatype alac_event =
    Wakeup | Title rstring | ResetTitle | ColorRequest | Bell | ChildExit int | ClipboardLoad | ClipboardStore rstring
  | OtherAlac nat

fun send_event :: "alac_event \<Rightarrow> bool" where
  "send_event (OtherAlac _) = False"
| "send_event _ = True"

section \<open>The client\<close>

definition DEFAULT_W :: u32 where "DEFAULT_W = 800"
definition DEFAULT_H :: u32 where "DEFAULT_H = 500"

text \<open>
  \<open>sl_redraws\<close> counts the redraws; whether the terminal could be opened, what it showed and the
  milliseconds since the start are given for each of them. \<open>sl_dirty\<close> are the wake-ups
  not received yet.
\<close>

record slate_state = client +
  sl_term :: "term_session option"
  sl_dirty :: nat
  sl_redraws :: nat

record slate_env =
  sle_client :: client_env
  sle_opens :: "nat \<Rightarrow> bool"
  sle_view :: "nat \<Rightarrow> term_view"
  sle_elapsed_ms :: "nat \<Rightarrow> nat"

definition slate_new :: "bool \<Rightarrow> slate_state" where
  "slate_new fonts_found =
     client.extend (client_new fonts_found DEFAULT_W DEFAULT_H) (slate_state.fields None 0 0)"

definition slate_init :: "bool \<Rightarrow> slate_state" where
  "slate_init fonts_found =
     client_init_surface (lit ''NULLXES SLATE'') (lit ''os.nullxes.Slate'') False (slate_new fonts_found)"

definition ensure_term :: "slate_env \<Rightarrow> slate_state \<Rightarrow> slate_state" where
  "ensure_term env s =
     (if sl_term s \<noteq> None then s
      else case session_new (sle_opens env (sl_redraws s)) (cell_grid_for_window (cl_width s) (cl_height s)) of
        Some t \<Rightarrow> s\<lparr>sl_term := Some t, sl_dirty := 0\<rparr>
      | None \<Rightarrow> s)"

definition slate_view_of :: "slate_env \<Rightarrow> slate_state \<Rightarrow> slate_view" where
  "slate_view_of env s =
     (let v = sle_view env (sl_redraws s);
          blink = fl 24 (of_nat (sle_elapsed_ms env (sl_redraws s) mod 1000) / 1000) in
      case sl_term s of
        Some _ \<Rightarrow> \<lparr>sv_grid = snapshot_grid v, sv_cursor = tv_cursor v, sv_blink = blink\<rparr>
      | None \<Rightarrow> \<lparr>sv_grid = [], sv_cursor = (0, 0), sv_blink = blink\<rparr>)"

definition slate_redraw :: "slate_env \<Rightarrow> slate_state \<Rightarrow> slate_state option" where
  "slate_redraw env s =
     (if \<not> cl_configured s then Some s
      else let s1 = ensure_term env s in
        client_redraw (ce_os (sle_client env)) (slate_paint (ce_rast (sle_client env)) (slate_view_of env s1))
          (s1\<lparr>sl_redraws := sl_redraws s1 + 1\<rparr>))"

fun action_bytes :: "action \<Rightarrow> u8 list" where
  "action_bytes Enter = [0x0D]"
| "action_bytes Backspace = [0x7F]"
| "action_bytes Delete = [0x1B, 0x5B, 0x33, 0x7E]"
| "action_bytes Tab = [0x09]"
| "action_bytes Up = [0x1B, 0x5B, 0x41]"
| "action_bytes Down = [0x1B, 0x5B, 0x42]"
| "action_bytes Right = [0x1B, 0x5B, 0x43]"
| "action_bytes Left = [0x1B, 0x5B, 0x44]"
| "action_bytes Home = [0x1B, 0x5B, 0x48]"
| "action_bytes EndKey = [0x1B, 0x5B, 0x46]"
| "action_bytes PageUp = [0x1B, 0x5B, 0x35, 0x7E]"
| "action_bytes PageDown = [0x1B, 0x5B, 0x36, 0x7E]"
| "action_bytes Escape = [0x1B]"

definition slate_handle_action :: "action \<Rightarrow> slate_state \<Rightarrow> slate_state option" where
  "slate_handle_action a s = Some (s\<lparr>sl_term := map_option (session_write (action_bytes a)) (sl_term s)\<rparr>)"

definition slate_handle_text :: "rstring \<Rightarrow> slate_state \<Rightarrow> slate_state option" where
  "slate_handle_text str s =
     Some (s\<lparr>sl_term := map_option (session_write (map of_nat (utf8_encode str))) (sl_term s)\<rparr>)"

definition slate_resize :: "slate_env \<Rightarrow> i32 \<Rightarrow> i32 \<Rightarrow> slate_state \<Rightarrow> slate_state option" where
  "slate_resize env w h s =
     (let new_w = (if 0 < w then i32_as_u32 w else DEFAULT_W);
          new_h = (if 0 < h then i32_as_u32 h else DEFAULT_H) in
      Some (if new_w \<noteq> cl_width s \<or> new_h \<noteq> cl_height s
        then s\<lparr>cl_width := new_w, cl_height := new_h,
               cl_buffer := map_option (\<lambda>b. fst (pool_resize (ce_os (sle_client env)) new_w new_h b)) (cl_buffer s),
               sl_term := map_option (session_resize (cell_grid_for_window new_w new_h)) (sl_term s)\<rparr>
        else s))"

definition slate_dispatch :: "slate_env \<Rightarrow> client_event \<Rightarrow> slate_state \<Rightarrow> slate_state option" where
  "slate_dispatch env =
     client_dispatch (ce_xkb (sle_client env)) (slate_redraw env) (slate_resize env) slate_handle_action slate_handle_text"

text \<open>Between the events the thread of the terminal reports its own; a turn ends with the drain of its wake-ups.\<close>

datatype slate_input = SlateEvent client_event | TermEvent alac_event

definition slate_step :: "slate_env \<Rightarrow> slate_input \<Rightarrow> slate_state \<Rightarrow> slate_state option" where
  "slate_step env i =
     (case i of
        SlateEvent ev \<Rightarrow> slate_dispatch env ev
      | TermEvent ev \<Rightarrow> \<lambda>s. Some (if send_event ev \<and> sl_term s \<noteq> None then s\<lparr>sl_dirty := sl_dirty s + 1\<rparr> else s))"

definition slate_drain :: "slate_env \<Rightarrow> slate_state \<Rightarrow> slate_state option" where
  "slate_drain env s =
     (if sl_term s \<noteq> None \<and> 0 < sl_dirty s then slate_redraw env (s\<lparr>sl_dirty := 0\<rparr>) else Some s)"

definition slate_turn :: "slate_env \<Rightarrow> slate_input list \<Rightarrow> slate_state \<Rightarrow> slate_state option" where
  "slate_turn env batch =
     guarded_by (\<lambda>s. \<not> cl_should_close s) (steps [each batch (slate_step env), slate_drain env])"

definition slate_run :: "slate_env \<Rightarrow> bool \<Rightarrow> slate_input list list \<Rightarrow> slate_state option" where
  "slate_run env fonts_found turns = each turns (slate_turn env) (slate_init fonts_found)"

end
