(* ===== verification/Slate_Safety.thy ===== *)
theory Slate_Safety
  imports Slate
begin

text \<open>
  The properties of the terminal emulator: the sizes of the window, its buffers, the emulator and the
  pseudo terminal agree, the cell grid fits the window, keys reach the shell as the right bytes.
\<close>

section \<open>The cell grid\<close>

lemma cells_along_small:
  assumes "(unat px - 16) div unat cell < 2 ^ 16"
  shows "unat (cells_along px cell) = max ((unat px - 16) div unat cell) 1"
proof -
  have "max ((unat px - 16) div unat cell) 1 < 2 ^ LENGTH(16)" using assms by simp
  then show ?thesis by (simp add: cells_along_def PADDING_def unat_of_nat take_bit_nat_eq_self)
qed

section \<open>The invariant\<close>

text \<open>The size the pseudo terminal has been told last.\<close>

fun told :: "pty_msg \<Rightarrow> u16 \<times> u16 \<times> u16 \<times> u16 \<Rightarrow> u16 \<times> u16 \<times> u16 \<times> u16" where
  "told (PtyInput _) sz = sz"
| "told (PtyResize c r cw ch) sz = (c, r, cw, ch)"

definition pty_size :: "term_session \<Rightarrow> u16 \<times> u16 \<times> u16 \<times> u16" where
  "pty_size t = fold told (ts_msgs t) (ts_window t)"

definition session_fits :: "u32 \<Rightarrow> u32 \<Rightarrow> term_session \<Rightarrow> bool" where
  "session_fits w h t \<longleftrightarrow>
     (case cell_grid_for_window w h of (cols, rows) \<Rightarrow>
        ts_dims t = (unat cols, unat rows) \<and> pty_size t = (cols, rows, ucast CELL_W, ucast CELL_H))"

lemma session_fits_new: "session_new b (cell_grid_for_window w h) = Some t \<Longrightarrow> session_fits w h t"
  by (auto simp: session_new_def session_fits_def pty_size_def split: prod.splits if_splits)

lemma session_fits_write: "session_fits w h (session_write bytes t) = session_fits w h t"
  by (simp add: session_fits_def session_write_def pty_size_def)

lemma session_fits_resize: "session_fits w h (session_resize (cell_grid_for_window w h) t)"
  by (simp add: session_fits_def session_resize_def pty_size_def split: prod.split)

text \<open>\<open>extends t s\<close>: the session of \<open>s\<close> is the session \<open>t\<close>, some messages later.\<close>

definition extends :: "term_session option \<Rightarrow> slate_state \<Rightarrow> bool" where
  "extends t0 s \<longleftrightarrow> (\<forall>t. t0 = Some t \<longrightarrow>
     (\<exists>t' ms. sl_term s = Some t' \<and> ts_window t' = ts_window t \<and> ts_msgs t' = ts_msgs t @ ms))"

definition slate_inv :: "slate_env \<Rightarrow> term_session option \<Rightarrow> slate_state \<Rightarrow> bool" where
  "slate_inv env t0 s \<longleftrightarrow> rast_ok (ce_rast (sle_client env)) \<and> client_ok s \<and>
     drawn_size s = (cl_width s, cl_height s) \<and>
     (\<forall>t. sl_term s = Some t \<longrightarrow> session_fits (cl_width s) (cl_height s) t) \<and> extends t0 s"

lemma ensure_term_inv: "slate_inv env t0 s \<Longrightarrow> slate_inv env t0 (ensure_term env s)"
  by (auto simp: ensure_term_def slate_inv_def client_ok_def drawn_size_def extends_def session_fits_new
      split: option.splits)

lemma slate_redraw_inv: "keeps (slate_inv env t0) (slate_redraw env)"
proof (rule keepsI)
  fix s assume inv: "slate_inv env t0 s"
  let ?s1 = "ensure_term env s"
  let ?s2 = "?s1\<lparr>sl_redraws := sl_redraws ?s1 + 1\<rparr>"
  have inv2: "slate_inv env t0 ?s2"
    using ensure_term_inv [OF inv] by (simp add: slate_inv_def client_ok_def drawn_size_def extends_def split: option.splits)
  then obtain s' where "client_redraw (ce_os (sle_client env))
      (slate_paint (ce_rast (sle_client env)) (slate_view_of env ?s1)) ?s2 = Some s'" "client_ok s'" "redrawn ?s2 s'"
      "drawn_size s' = drawn_size ?s2"
    using slate_painter.redraw_ok by (fastforce simp: slate_inv_def)
  with inv inv2 show "\<exists>s'. slate_redraw env s = Some s' \<and> slate_inv env t0 s'"
    by (auto simp: slate_redraw_def Let_def slate_inv_def redrawn_def extends_def)
qed

lemma slate_write_inv:
  "slate_inv env t0 s \<Longrightarrow> slate_inv env t0 (s\<lparr>sl_term := map_option (session_write bytes) (sl_term s)\<rparr>)"
  by (auto simp: slate_inv_def client_ok_def drawn_size_def extends_def session_fits_write split: option.splits)
     (auto simp: session_write_def)

lemma slate_resize_inv:
  assumes "client_event_ok (ClToplevelConfigure w h)"
  shows "keeps (slate_inv env t0) (slate_resize env w h)"
proof (rule keepsI)
  fix s assume inv: "slate_inv env t0 s"
  let ?w = "if 0 < w then i32_as_u32 w else DEFAULT_W" and ?h = "if 0 < h then i32_as_u32 h else DEFAULT_H"
  have d: "dims_ok ?w ?h" using assms resize_dims [of w ?h] by (auto simp: dims_ok_def DEFAULT_W_def)
  have "pool_ok p" if "cl_buffer s = Some p" for p using inv that by (simp add: slate_inv_def client_ok_def)
  note b = pool_resize_ok [OF this d, of _ "ce_os (sle_client env)"]
  have "extends t0 (s\<lparr>sl_term := map_option (session_resize g) (sl_term s)\<rparr>)" for g
    using inv by (cases t0) (auto simp: slate_inv_def extends_def session_resize_def split: prod.split)
  with inv d b show "\<exists>s'. slate_resize env w h s = Some s' \<and> slate_inv env t0 s'"
    by (auto simp: slate_resize_def Let_def slate_inv_def client_ok_def drawn_size_def pool_dimensions_def
        session_fits_resize extends_def split: option.splits)
qed

interpretation slate: surface_client "slate_resize env" slate_handle_action slate_handle_text
  "slate_inv env t0" "slate_redraw env" for env t0
proof
  show "keeps (slate_inv env t0) (slate_handle_action a)" for a
    by (auto simp: keeps_def slate_handle_action_def slate_write_inv)
  show "keeps (slate_inv env t0) (slate_handle_text str)" for str
    by (auto simp: keeps_def slate_handle_text_def slate_write_inv)
qed (auto simp: slate_inv_def client_ok_def drawn_size_def extends_def mark_released_ok pool_dimensions_def cl_emit_def
    slate_redraw_inv slate_resize_inv split: option.split)

fun slate_input_ok :: "slate_input \<Rightarrow> bool" where
  "slate_input_ok (SlateEvent ev) = client_event_ok ev"
| "slate_input_ok (TermEvent ev) = True"

lemma slate_step_keeps: "slate_input_ok i \<Longrightarrow> keeps (slate_inv env t0) (slate_step env i)"
proof (cases i)
  case (TermEvent ev)
  then show ?thesis
    by (auto simp: slate_step_def slate_inv_def client_ok_def drawn_size_def extends_def intro!: keeping
        split: option.splits)
qed (use slate.dispatch_keeps in \<open>auto simp: slate_step_def slate_dispatch_def\<close>)

lemma slate_drain_keeps: "keeps (slate_inv env t0) (slate_drain env)"
proof (rule keepsI)
  fix s assume "slate_inv env t0 s"
  moreover from this have "slate_inv env t0 (s\<lparr>sl_dirty := 0\<rparr>)"
    by (auto simp: slate_inv_def client_ok_def drawn_size_def extends_def split: option.splits)
  ultimately show "\<exists>s'. slate_drain env s = Some s' \<and> slate_inv env t0 s'"
    using keepsD [OF slate_redraw_inv, of env t0 "s\<lparr>sl_dirty := 0\<rparr>"] by (auto simp: slate_drain_def)
qed

lemma slate_turns_keep:
  "\<forall>i \<in> set (concat turns). slate_input_ok i \<Longrightarrow> keeps (slate_inv env t0) (each turns (slate_turn env))"
  unfolding slate_turn_def by (intro keeping slate_step_keeps slate_drain_keeps) auto

lemma slate_init_inv: "rast_ok (ce_rast (sle_client env)) \<Longrightarrow> slate_inv env None (slate_init f)"
  by (simp add: slate_inv_def slate_init_def slate_new_def client_init_surface_def cl_emit_def
      client_new_def client.defs slate_state.defs client_ok_def text_cache_ok_def cache_ok_def
      dims_ok_def DEFAULT_W_def drawn_size_def extends_def)

lemma slate_run_inv:
  assumes "rast_ok (ce_rast (sle_client env))" and "\<forall>i \<in> set (concat turns). slate_input_ok i"
  shows "\<exists>s. slate_run env f turns = Some s \<and> slate_inv env None s"
  unfolding slate_run_def by (rule keepsD [OF slate_turns_keep [OF assms(2)] slate_init_inv [OF assms(1)]])

section \<open>Only the compositor closes the window\<close>

lemma client_redraw_close:
  assumes "client_redraw os p s = Some s'"
  shows "cl_should_close s' = cl_should_close s"
proof (cases "cl_configured s \<and> (\<exists>q. client_pool os s = Inr q)")
  case True
  then obtain q where q: "client_pool os s = Inr q" "cl_configured s" by blast
  with assms obtain X where X: "pool_draw os p (q, cl_text s) = Some X" by (auto simp: client_redraw_def)
  obtain q' t' r where "X = ((q', t'), r)" by (metis prod.exhaust)
  with assms q X show ?thesis
    by (cases r) (auto simp: client_redraw_def cl_emit_def Let_def split: if_splits)
next
  case False
  with assms show ?thesis by (cases "client_pool os s") (auto simp: client_redraw_def split: if_splits)
qed

lemma slate_redraw_close: "slate_redraw env s = Some s' \<Longrightarrow> cl_should_close s' = cl_should_close s"
  by (auto simp: slate_redraw_def Let_def ensure_term_def dest!: client_redraw_close split: if_splits option.splits)

lemma slate_step_close:
  "slate_step env i s = Some s' \<Longrightarrow> i \<noteq> SlateEvent ClClose \<Longrightarrow> cl_should_close s' = cl_should_close s"
  by (auto simp: slate_step_def slate_dispatch_def client_dispatch_def slate_resize_def Let_def
      slate_handle_action_def slate_handle_text_def cl_emit_def dest!: slate_redraw_close
      split: slate_input.splits client_event.splits key_symbol.splits if_splits)

lemma slate_drain_close: "slate_drain env s = Some s' \<Longrightarrow> cl_should_close s' = cl_should_close s"
  by (auto simp: slate_drain_def dest!: slate_redraw_close split: if_splits)

lemma slate_turns_keep_open:
  assumes "\<forall>i \<in> set (concat turns). slate_input_ok i \<and> i \<noteq> SlateEvent ClClose"
  shows "keeps (\<lambda>s. slate_inv env t0 s \<and> \<not> cl_should_close s) (each turns (slate_turn env))"
  unfolding slate_turn_def using assms
  by (intro keeping keeps_and slate_step_keeps slate_drain_keeps) (auto simp: slate_step_close slate_drain_close)

section \<open>Properties\<close>

text \<open>
  C19: the sizes agree. The terminal never panics; after any run the buffers have the size of the
  window, and the emulator and the pseudo terminal have the number of columns and rows that the
  window holds, whatever the order of the resizes and the start of the shell.
\<close>

theorem slate_sizes_agree:
  assumes "rast_ok (ce_rast (sle_client env))" and "\<forall>i \<in> set (concat turns). slate_input_ok i"
  shows "\<exists>s. slate_run env f turns = Some s \<and>
    (\<forall>p. cl_buffer s = Some p \<longrightarrow> pool_dimensions p = (cl_width s, cl_height s)) \<and>
    (\<forall>t. sl_term s = Some t \<longrightarrow> session_fits (cl_width s) (cl_height s) t)"
  using slate_run_inv [OF assms, of f] by (auto simp: slate_inv_def drawn_size_def)

text \<open>A machine whose kernel serves no memory file, so that nothing is painted.\<close>

definition slate_example_env :: slate_env where
  "slate_example_env = \<lparr>sle_client = \<lparr>ce_rast = box_rasterizer, ce_os = kind_os\<lparr>os_memfd_create := (\<lambda>_. False)\<rparr>,
     ce_xkb = \<lparr>xkb_compile = (\<lambda>_. Some 0), xkb_state_new = (\<lambda>km. km), xkb_update_mask = (\<lambda>_ _ _ _ st. st),
       xkb_one_sym = (\<lambda>_ _. KEY_other 0), xkb_utf8 = (\<lambda>_ _. [0xE9])\<rparr>\<rparr>,
     sle_opens = (\<lambda>_. True),
     sle_view = (\<lambda>_. \<lparr>tv_cols = 0, tv_rows = 0,
       tv_cell = (\<lambda>_ _. \<lparr>gc_char = 32, gc_fg = Named Foreground, gc_bg = Named Background, gc_underline = False\<rparr>),
       tv_cursor = (0, 0)\<rparr>),
     sle_elapsed_ms = (\<lambda>_. 0)\<rparr>"

lemmas slate_run_simps = slate_run_def each_def slate_turn_def guarded_by_def steps_def slate_step_def
  slate_dispatch_def client_dispatch_def slate_resize_def slate_redraw_def client_redraw_def client_pool_def
  pool_new_def allocate_two_def allocate_one_def create_shm_fd_def MAX_BUFFERS_def ensure_term_def
  slate_drain_def slate_init_def slate_new_def client_new_def client_init_surface_def cl_emit_def
  client.defs slate_state.defs Let_def

definition slate_example :: "slate_input list list" where
  "slate_example = [[SlateEvent (ClToplevelConfigure 400 300), SlateEvent (ClSurfaceConfigure 1)],
     [SlateEvent (ClToplevelConfigure 800 500), SlateEvent (ClSurfaceConfigure 2), TermEvent (ChildExit 0)]]"

theorem slate_sizes_agree_witness:
  "\<exists>s t. slate_run slate_example_env False slate_example = Some s \<and> sl_term s = Some t \<and> pty_size t = (98, 26, 8, 18)"
proof -
  have "rast_ok (ce_rast (sle_client slate_example_env))" "\<forall>i \<in> set (concat slate_example). slate_input_ok i"
    by (simp_all add: slate_example_env_def slate_example_def rast_ok_def glyph_ok_def box_rasterizer_def)
  from slate_sizes_agree [OF this, of False] obtain s where
    s: "slate_run slate_example_env False slate_example = Some s"
    "\<forall>t. sl_term s = Some t \<longrightarrow> session_fits (cl_width s) (cl_height s) t" by blast
  have "map_option (\<lambda>s. (sl_term s \<noteq> None, cl_width s, cl_height s))
      (slate_run slate_example_env False slate_example) = Some (True, 800, 500)"
    by (simp add: slate_run_simps slate_example_env_def slate_example_def kind_os_def session_new_def
        i32_as_u32_def cell_grid_for_window_def)
  with s obtain t where t: "sl_term s = Some t" "session_fits 800 500 t" by auto
  then have "pty_size t = (98, 26, 8, 18)"
    by (simp add: session_fits_def cell_grid_for_window_def cells_along_def PADDING_def CELL_W_def CELL_H_def)
  with s(1) t(1) show ?thesis by blast
qed

text \<open>
  C29: the cell grid fits the window. In a window of at least one cell, every cell of the grid lies
  inside the window with the padding around it, and no further column or row would. Above
  524303 pixels the cast to 16 bits loses this: a window of 524304 pixels gets no column.
\<close>

theorem slate_grid_fits_window:
  assumes "24 \<le> unat w" "unat w < 524304" and "34 \<le> unat h" "unat h < 1179648"
    and "cell_grid_for_window w h = (cols, rows)"
  shows "0 < cols \<and> 0 < rows \<and>
    (\<forall>col < unat cols. 8 \<le> cell_x col \<and> cell_x col + 8 + 8 \<le> int (unat w)) \<and>
    (\<forall>row < unat rows. 8 \<le> cell_y row \<and> cell_y row + 18 + 8 \<le> int (unat h)) \<and>
    int (unat w) < cell_x (unat cols) + 8 + 8 \<and> int (unat h) < cell_y (unat rows) + 18 + 8 \<and>
    fst (cell_grid_for_window 524304 h) = 0"
proof -
  have d: "(unat w - 16) div 8 < 2 ^ 16" "(unat h - 16) div 18 < 2 ^ 16" using assms by (simp_all add: div_less_iff_less_mult)
  have "max ((unat w - 16) div 8) 1 = (unat w - 16) div 8" "max ((unat h - 16) div 18) 1 = (unat h - 16) div 18"
    using assms(1,3) by (simp_all add: max_absorb1 less_eq_div_iff_mult_less_eq)
  with assms d cells_along_small [of w CELL_W] cells_along_small [of h CELL_H]
  have c: "unat cols = (unat w - 16) div 8" "unat rows = (unat h - 16) div 18"
    by (auto simp: cell_grid_for_window_def CELL_W_def CELL_H_def)
  have x: "cell_x n = 8 + 8 * int n" "cell_y n = 8 + 18 * int n" if "n < 131072" for n
    using that by (simp_all add: cell_x_def cell_y_def i32_arith i32_min_def i32_max_def)
  have fit: "8 * (n div 8) \<le> n" "n < 8 * (n div 8 + 1)" "18 * (n div 18) \<le> n" "n < 18 * (n div 18 + 1)" for n :: nat
    by (simp_all add: dividend_less_times_div)
  have "8 * unat cols + 16 \<le> unat w" "unat w < 8 * (unat cols + 1) + 16"
    "18 * unat rows + 16 \<le> unat h" "unat h < 18 * (unat rows + 1) + 16"
    using assms(1,3) fit(1,2) [of "unat w - 16"] fit(3,4) [of "unat h - 16"] unfolding c [symmetric] by linarith+
  moreover from this assms have "unat cols < 131072" "unat rows < 131072" "unat cols \<noteq> 0" "unat rows \<noteq> 0" by auto
  ultimately show ?thesis
    by (auto simp: x word_greater_zero_iff cell_grid_for_window_def cells_along_def CELL_W_def PADDING_def
        simp del: of_nat_unat)
qed

theorem slate_grid_fits_window_witness:
  "cell_grid_for_window 800 500 = (98, 26) \<and> 8 \<le> cell_x 97 \<and> cell_x 97 + 8 + 8 \<le> 800 \<and>
     8 \<le> cell_y 25 \<and> cell_y 25 + 18 + 8 \<le> 500"
  using slate_grid_fits_window [of 800 500 98 26]
  by (simp add: cell_grid_for_window_def cells_along_def PADDING_def CELL_W_def CELL_H_def)

text \<open>
  C20: what the user types reaches the shell. With a session running, a key that yields text sends
  the shell one message that decodes to exactly this text, a control key sends the escape
  sequence of its action, and no two actions share a sequence; nothing else of the state changes.
\<close>

theorem slate_keys_reach_shell:
  assumes "sl_term s = Some t"
  shows "\<exists>m. slate_dispatch env (ClKey code True) s = Some (s\<lparr>sl_term := Some (t\<lparr>ts_msgs := ts_msgs t @ m\<rparr>)\<rparr>) \<and>
    (case process_key (ce_xkb (sle_client env)) code (cl_keymap s) of
       KeyText str \<Rightarrow> (\<forall>c \<in> set str. scalar c) \<longrightarrow> (\<exists>bytes. m = [PtyInput bytes] \<and> utf8_decode (map unat bytes) = Some str)
     | KeyAction a \<Rightarrow> (\<exists>bytes. m = [PtyInput bytes] \<and> (\<forall>a'. action_bytes a' = bytes \<longleftrightarrow> a' = a))
     | KeyNone \<Rightarrow> m = [])"
proof (cases "process_key (ce_xkb (sle_client env)) code (cl_keymap s)")
  case (KeyText str)
  with assms show ?thesis
    using bytes_of_text utf8_roundtrip
    by (auto simp: slate_dispatch_def client_dispatch_def slate_handle_text_def session_write_def
        intro!: exI [of _ "[PtyInput (map of_nat (utf8_encode str))]"])
next
  case (KeyAction a)
  have "action_bytes a' = action_bytes a \<longleftrightarrow> a' = a" for a' by (cases a; cases a') simp_all
  with KeyAction assms show ?thesis
    by (auto simp: slate_dispatch_def client_dispatch_def slate_handle_action_def session_write_def)
qed (use assms in \<open>auto simp: slate_dispatch_def client_dispatch_def intro!: exI [of _ "[]"]\<close>)

definition typing_slate :: slate_state where
  "typing_slate = (slate_init False)\<lparr>sl_term := Some \<lparr>ts_window = (98, 26, 8, 18), ts_dims = (98, 26), ts_msgs = []\<rparr>,
     cl_keymap := \<lparr>kb_keymap = Some 0, kb_state = Some 0\<rparr>\<rparr>"

theorem slate_keys_reach_shell_witness:
  "\<exists>s bytes. slate_dispatch slate_example_env (ClKey 18 True) typing_slate = Some s \<and>
     map_option ts_msgs (sl_term s) = Some [PtyInput bytes] \<and> utf8_decode (map unat bytes) = Some [0xE9]"
proof -
  have t: "sl_term typing_slate = Some \<lparr>ts_window = (98, 26, 8, 18), ts_dims = (98, 26), ts_msgs = []\<rparr>"
    by (simp add: typing_slate_def)
  have "process_key (ce_xkb (sle_client slate_example_env)) 18 (cl_keymap typing_slate) = KeyText [0xE9]"
    by (simp add: process_key_def typing_slate_def slate_example_env_def action_from_keysym_def is_control_def Let_def)
  with slate_keys_reach_shell [OF t, of slate_example_env 18] show ?thesis
    by (auto simp: scalar_def)
qed

text \<open>
  The terminal has one shell for its life and never closes by itself. Once a session has been
  started it is kept, and only receives more messages; and as long as the compositor does not ask
  the window to close it stays open, also when the shell has exited.
\<close>

lemma slate_outlives_its_shell:
  assumes "rast_ok (ce_rast (sle_client env))"
    and "\<forall>i \<in> set (concat (turns @ later)). slate_input_ok i \<and> i \<noteq> SlateEvent ClClose"
  shows "\<exists>s s'. slate_run env f turns = Some s \<and> slate_run env f (turns @ later) = Some s' \<and>
    \<not> cl_should_close s' \<and>
    (\<forall>t. sl_term s = Some t \<longrightarrow>
      (\<exists>t' ms. sl_term s' = Some t' \<and> ts_window t' = ts_window t \<and> ts_msgs t' = ts_msgs t @ ms))"
proof -
  have "slate_inv env None (slate_init f) \<and> \<not> cl_should_close (slate_init f)"
    using slate_init_inv [OF assms(1)] by (simp add: slate_init_def slate_new_def client_init_surface_def cl_emit_def
        client_new_def client.defs slate_state.defs)
  from keepsD [OF slate_turns_keep_open this, of turns] assms(2) obtain s where
    s: "slate_run env f turns = Some s" "slate_inv env None s" "\<not> cl_should_close s"
    by (auto simp: slate_run_def)
  then have "slate_inv env (sl_term s) s \<and> \<not> cl_should_close s"
    by (auto simp: slate_inv_def extends_def)
  from keepsD [OF slate_turns_keep_open this, of later] assms(2) obtain s' where
    "each later (slate_turn env) s = Some s'" "extends (sl_term s) s'" "\<not> cl_should_close s'"
    by (auto simp: slate_inv_def)
  with s show ?thesis by (auto simp: slate_run_def each_def fold_opt_append extends_def)
qed

end
