(* ===== verification/Theme.thy ===== *)
theory Theme
  imports Color
begin

text \<open>
  The user's theme (\<open>crates/theme/src/config.rs\<close>): the accent colour as a string of hexadecimal
  digits, and its fallback. The TOML parser and the file system are parameters.
\<close>

record theme =
  accent_hex :: rstring

definition theme_default :: theme where
  "theme_default = \<lparr>accent_hex = lit ''C0C0C0''\<rparr>"

text \<open>
  \<open>u32::from_str_radix(s, 16)\<close>: an optional plus sign, at least one digit of either case, and a
  value below \<open>2 ^ 32\<close>.
\<close>

definition hex_value :: "rchar \<Rightarrow> nat option" where
  "hex_value c =
     (if 48 \<le> c \<and> c \<le> 57 then Some (c - 48)
      else if 65 \<le> c \<and> c \<le> 70 then Some (c - 55)
      else if 97 \<le> c \<and> c \<le> 102 then Some (c - 87)
      else None)"

fun hex_digits_value :: "nat \<Rightarrow> rstring \<Rightarrow> nat option" where
  "hex_digits_value n [] = Some n"
| "hex_digits_value n (c # cs) =
     (case hex_value c of
        None \<Rightarrow> None
      | Some d \<Rightarrow> if 16 * n + d < 2 ^ 32 then hex_digits_value (16 * n + d) cs else None)"

definition from_str_radix_16 :: "rstring \<Rightarrow> u32 option" where
  "from_str_radix_16 s =
     (let digits = (case s of c # cs \<Rightarrow> if c = 43 then cs else s | [] \<Rightarrow> s) in
      if digits = [] then None else map_option of_nat (hex_digits_value 0 digits))"

definition theme_accent :: "theme \<Rightarrow> color" where
  "theme_accent t =
     from_hex (case from_str_radix_16 (accent_hex t) of Some hex \<Rightarrow> hex | None \<Rightarrow> 0xC0C0C0)"

definition theme_load_or_default :: "(rstring \<Rightarrow> rstring option) \<Rightarrow> (rstring \<Rightarrow> theme option) \<Rightarrow> rstring \<Rightarrow> theme" where
  "theme_load_or_default read parse path =
     (case Option.bind (read path) parse of Some t \<Rightarrow> t | None \<Rightarrow> theme_default)"

end
