(* ===== verification/Launcher_Apps.thy ===== *)
theory Launcher_Apps
  imports Prelude "HOL-Library.List_Lexorder" "HOL-Library.Multiset"
begin

text \<open>
  The applications the launcher offers: the scan of the \<open>.desktop\<close> files and the search over them
  (\<open>crates/launcher/src/apps.rs\<close>, \<open>search.rs\<close>). The parser of desktop entries, \<open>shlex\<close>, the fuzzy
  matcher, the environment, the Unicode case tables and the iteration order of a \<open>HashMap\<close> are
  parameters.
\<close>

section \<open>Desktop entries\<close>

record desktop_entry =
  de_no_display :: bool
  de_only_show_in :: "rstring option"
  de_not_show_in :: "rstring option"
  de_name :: "rstring option"
  de_exec :: "rstring option"
  de_comment :: "rstring option"
  de_icon :: "rstring option"
  de_categories :: "rstring option"

record app_entry =
  app_name :: rstring
  app_comment :: "rstring option"
  app_argv :: "rstring list"
  app_icon :: "rstring option"
  app_categories :: "rstring list"
  app_source :: rstring

text \<open>
  \<open>se_shlex\<close> is \<open>shlex::split\<close>, \<open>se_lower\<close> is \<open>str::to_lowercase\<close>, \<open>se_order\<close> the order in which a
  hash map yields its values; \<open>se_files\<close> are the files the directory iterator yields, each with its
  decoded entry if it could be read and decoded.
\<close>

record scan_env =
  se_shlex :: "rstring \<Rightarrow> rstring list option"
  se_lower :: "rstring \<Rightarrow> rstring"
  se_order :: "app_entry list \<Rightarrow> app_entry list"
  se_desktop :: rstring
  se_home :: "rstring option"
  se_files :: "(rstring \<times> desktop_entry option) list"

text \<open>\<open>s.split(c)\<close>, and the same without the empty parts.\<close>

fun str_split :: "rchar \<Rightarrow> rstring \<Rightarrow> rstring list" where
  "str_split c [] = [[]]"
| "str_split c (x # xs) =
     (if x = c then [] # str_split c xs
      else case str_split c xs of p # ps \<Rightarrow> (x # p) # ps | [] \<Rightarrow> [[x]])"

definition parts_of :: "rchar \<Rightarrow> rstring \<Rightarrow> rstring list" where
  "parts_of c s = filter (\<lambda>p. p \<noteq> []) (str_split c s)"

text \<open>\<open>a.eq_ignore_ascii_case(b)\<close>.\<close>

definition ascii_lower :: "rchar \<Rightarrow> rchar" where
  "ascii_lower c = (if 65 \<le> c \<and> c \<le> 90 then c + 32 else c)"

definition eq_ignore_ascii_case :: "rstring \<Rightarrow> rstring \<Rightarrow> bool" where
  "eq_ignore_ascii_case a b \<longleftrightarrow> map ascii_lower a = map ascii_lower b"

definition names_one_of :: "rstring \<Rightarrow> rstring list \<Rightarrow> bool" where
  "names_one_of s current \<longleftrightarrow>
     list_ex (\<lambda>d. list_ex (\<lambda>c. eq_ignore_ascii_case c d) current) (parts_of 59 s)"

definition visible_in :: "desktop_entry \<Rightarrow> rstring list \<Rightarrow> bool" where
  "visible_in de current \<longleftrightarrow>
     (case de_only_show_in de of
        Some only \<Rightarrow> current \<noteq> [] \<and> names_one_of only current
      | None \<Rightarrow> True) \<and>
     (case de_not_show_in de of
        Some no \<Rightarrow> \<not> names_one_of no current
      | None \<Rightarrow> True)"

text \<open>
  \<open>p.starts_with(home)\<close> compares the components of the paths: empty components and \<open>.\<close> ones other
  than a leading one do not count.
\<close>

definition path_components :: "rstring \<Rightarrow> rstring list" where
  "path_components p =
     (if p \<noteq> [] \<and> hd p = 47 then [[47]] else []) @
     (case str_split 47 p of
        [] \<Rightarrow> []
      | first # rest \<Rightarrow> (if first = [] then [] else [first]) @ filter (\<lambda>c. c \<noteq> [] \<and> c \<noteq> [46]) rest)"

definition in_home :: "rstring option \<Rightarrow> rstring \<Rightarrow> bool" where
  "in_home home p =
     (case home of
        None \<Rightarrow> False
      | Some h \<Rightarrow> take (length (path_components h)) (path_components p) = path_components h)"

definition more_specific :: "rstring option \<Rightarrow> rstring \<Rightarrow> rstring \<Rightarrow> bool" where
  "more_specific home new_path old_path \<longleftrightarrow> in_home home new_path \<and> \<not> in_home home old_path"

definition is_field_code :: "rstring \<Rightarrow> bool" where
  "is_field_code tok \<longleftrightarrow>
     tok \<in> {lit ''%f'', lit ''%F'', lit ''%u'', lit ''%U'', lit ''%i'', lit ''%c'', lit ''%k'', lit ''%v'', lit ''%m''}"

definition parse_exec :: "(rstring \<Rightarrow> rstring list option) \<Rightarrow> rstring \<Rightarrow> rstring list" where
  "parse_exec shlex exec =
     (case shlex exec of None \<Rightarrow> [] | Some parts \<Rightarrow> filter (\<lambda>tok. \<not> is_field_code tok) parts)"

section \<open>The scan\<close>

text \<open>The body of the loop up to the insertion: the application a file stands for, if any.\<close>

definition app_of_file :: "scan_env \<Rightarrow> rstring \<times> desktop_entry option \<Rightarrow> app_entry option" where
  "app_of_file env = (\<lambda>(path, decoded).
     case decoded of
       None \<Rightarrow> None
     | Some de \<Rightarrow>
         if de_no_display de then None
         else if \<not> visible_in de (parts_of 58 (se_desktop env)) then None
         else case (de_name de, de_exec de) of
           (Some name, Some exec) \<Rightarrow>
             (let argv = parse_exec (se_shlex env) exec in
              if argv = [] then None
              else Some \<lparr>app_name = name, app_comment = de_comment de, app_argv = argv, app_icon = de_icon de,
                     app_categories = (case de_categories de of Some s \<Rightarrow> parts_of 59 s | None \<Rightarrow> []),
                     app_source = path\<rparr>)
         | _ \<Rightarrow> None)"

type_synonym app_map = "rstring \<rightharpoonup> app_entry"

definition insert_app :: "rstring option \<Rightarrow> app_entry \<Rightarrow> app_map \<Rightarrow> app_map" where
  "insert_app home app m =
     (case m (app_name app) of
        None \<Rightarrow> m(app_name app \<mapsto> app)
      | Some old \<Rightarrow> if more_specific home (app_source app) (app_source old) then m(app_name app \<mapsto> app) else m)"

definition scan_file :: "scan_env \<Rightarrow> rstring \<times> desktop_entry option \<Rightarrow> app_map \<Rightarrow> app_map" where
  "scan_file env file m = (case app_of_file env file of None \<Rightarrow> m | Some app \<Rightarrow> insert_app (se_home env) app m)"

definition scan_map :: "scan_env \<Rightarrow> app_map" where
  "scan_map env = fold (scan_file env) (se_files env) Map.empty"

text \<open>\<open>into_values\<close> yields the values in some order, \<open>sort_by\<close> is a stable sort.\<close>

definition map_values :: "scan_env \<Rightarrow> app_entry list" where
  "map_values env =
     map (\<lambda>name. the (scan_map env name)) (remdups (map app_name (List.map_filter (app_of_file env) (se_files env))))"

definition scan :: "scan_env \<Rightarrow> app_entry list" where
  "scan env = sort_key (\<lambda>a. se_lower env (app_name a)) (se_order env (map_values env))"

definition xdg_app_dirs :: "rstring option \<Rightarrow> rstring option \<Rightarrow> rstring list" where
  "xdg_app_dirs data_dir xdg_data_dirs =
     (case data_dir of Some d \<Rightarrow> [path_join d (lit ''applications'')] | None \<Rightarrow> []) @
     (case xdg_data_dirs of
        Some dirs \<Rightarrow> map (\<lambda>d. path_join d (lit ''applications'')) (parts_of 58 dirs)
      | None \<Rightarrow> [lit ''/usr/local/share/applications'', lit ''/usr/share/applications'']) @
     [lit ''/var/lib/flatpak/exports/share/applications''] @
     (case data_dir of Some d \<Rightarrow> [path_join d (lit ''flatpak/exports/share/applications'')] | None \<Rightarrow> [])"

section \<open>The search\<close>

type_synonym fuzzy = "rstring \<Rightarrow> rstring \<Rightarrow> int option"

definition scored :: "fuzzy \<Rightarrow> rstring \<Rightarrow> app_entry list \<Rightarrow> (int \<times> app_entry) list" where
  "scored fuzzy q apps =
     List.map_filter (\<lambda>app. map_option (\<lambda>score. (score, app)) (fuzzy (app_name app) q)) apps"

definition search :: "fuzzy \<Rightarrow> app_entry list \<Rightarrow> rstring \<Rightarrow> nat \<Rightarrow> app_entry list" where
  "search fuzzy apps q limit =
     (if q = [] then take limit apps
      else map snd (take limit (sort_key (\<lambda>(score, _). - score) (scored fuzzy q apps))))"

section \<open>What the scan keeps\<close>

text \<open>The applications of the files, in order, and the one of a name that is preferred.\<close>

definition candidates :: "scan_env \<Rightarrow> (rstring \<times> desktop_entry option) list \<Rightarrow> rstring \<Rightarrow> app_entry list" where
  "candidates env files name = filter (\<lambda>a. app_name a = name) (List.map_filter (app_of_file env) files)"

definition preferred :: "rstring option \<Rightarrow> app_entry list \<Rightarrow> app_entry option" where
  "preferred home cands =
     (case find (\<lambda>a. in_home home (app_source a)) cands of
        Some a \<Rightarrow> Some a
      | None \<Rightarrow> (case cands of [] \<Rightarrow> None | a # _ \<Rightarrow> Some a))"

lemma candidates_snoc:
  "candidates env (files @ [f]) name =
     candidates env files name @
       (case app_of_file env f of Some a \<Rightarrow> if app_name a = name then [a] else [] | None \<Rightarrow> [])"
  by (simp add: candidates_def List.map_filter_def split: option.split)

lemma find_mem: "find P xs = Some y \<Longrightarrow> y \<in> set xs \<and> P y"
  by (induction xs) (auto split: if_splits)

lemma find_snoc: "find P (xs @ [x]) = (case find P xs of Some y \<Rightarrow> Some y | None \<Rightarrow> if P x then Some x else None)"
  by (induction xs) auto

lemma preferred_snoc:
  "preferred home (cands @ [a]) =
     (case preferred home cands of
        None \<Rightarrow> Some a
      | Some old \<Rightarrow> if more_specific home (app_source a) (app_source old) then Some a else Some old)"
  by (cases cands)
     (auto simp: preferred_def find_snoc more_specific_def find_None_iff dest!: find_mem split: option.splits if_splits)

lemma scan_map_preferred: "fold (scan_file env) files Map.empty name = preferred (se_home env) (candidates env files name)"
proof (induction files rule: rev_induct)
  case Nil
  show ?case by (simp add: candidates_def preferred_def List.map_filter_def)
next
  case (snoc f files)
  let ?m = "fold (scan_file env) files Map.empty"
  show ?case
  proof (cases "app_of_file env f")
    case None
    then have "scan_file env f ?m = ?m" by (simp add: scan_file_def)
    with None snoc show ?thesis by (simp add: candidates_snoc)
  next
    case (Some a)
    have "insert_app (se_home env) a ?m name =
      (if app_name a = name
       then case ?m name of None \<Rightarrow> Some a
            | Some old \<Rightarrow> if more_specific (se_home env) (app_source a) (app_source old) then Some a else Some old
       else ?m name)"
      by (auto simp: insert_app_def split: option.split)
    moreover have "scan_file env f ?m = insert_app (se_home env) a ?m" using Some by (simp add: scan_file_def)
    ultimately show ?thesis using Some snoc by (simp add: candidates_snoc preferred_snoc)
  qed
qed

lemma preferred_mem: "preferred home cands = Some a \<Longrightarrow> a \<in> set cands"
  by (auto simp: preferred_def dest: find_mem split: option.splits list.splits)

lemma preferred_None: "preferred home cands = None \<longleftrightarrow> cands = []"
  by (auto simp: preferred_def split: option.split list.split)

lemma candidates_mem:
  "a \<in> set (candidates env files name) \<longleftrightarrow> app_name a = name \<and> (\<exists>f \<in> set files. app_of_file env f = Some a)"
  by (force simp: candidates_def List.map_filter_def)

lemma preferred_unique:
  "preferred (se_home env) (candidates env files n) = Some a \<Longrightarrow> app_name a = n"
  using preferred_mem candidates_mem by blast

text \<open>What is known of an application of the scan.\<close>

lemma app_of_file_argv:
  "app_of_file env f = Some a \<Longrightarrow> app_argv a \<noteq> [] \<and> (\<forall>tok \<in> set (app_argv a). \<not> is_field_code tok)"
  by (auto simp: app_of_file_def parse_exec_def Let_def split: prod.splits option.splits if_splits)

definition app_names :: "scan_env \<Rightarrow> rstring list" where
  "app_names env = remdups (map app_name (List.map_filter (app_of_file env) (se_files env)))"

lemma map_values_names: "map app_name (map_values env) = app_names env"
proof -
  have "app_name (the (scan_map env n)) = n" if "n \<in> set (app_names env)" for n
  proof -
    have "candidates env (se_files env) n \<noteq> []"
      using that by (auto simp: app_names_def candidates_def filter_empty_conv)
    then obtain a where "scan_map env n = Some a"
      using preferred_None [of "se_home env"] by (fastforce simp: scan_map_def scan_map_preferred)
    then show ?thesis using preferred_unique by (auto simp: scan_map_def scan_map_preferred)
  qed
  then show ?thesis
    unfolding map_values_def app_names_def [symmetric] map_map by (intro map_idI) simp
qed

lemma set_map_values:
  "set (map_values env) = {a. preferred (se_home env) (candidates env (se_files env) (app_name a)) = Some a}"
proof (intro equalityI subsetI)
  fix a assume "a \<in> set (map_values env)"
  then obtain n where n: "n \<in> set (app_names env)" "a = the (scan_map env n)"
    by (auto simp: map_values_def app_names_def)
  then have "candidates env (se_files env) n \<noteq> []"
    by (auto simp: app_names_def candidates_def filter_empty_conv)
  with n have "preferred (se_home env) (candidates env (se_files env) n) = Some a"
    using preferred_None [of "se_home env"] by (fastforce simp: scan_map_def scan_map_preferred)
  with preferred_unique show "a \<in> {a. preferred (se_home env) (candidates env (se_files env) (app_name a)) = Some a}"
    by auto
next
  fix a assume "a \<in> {a. preferred (se_home env) (candidates env (se_files env) (app_name a)) = Some a}"
  then have a: "scan_map env (app_name a) = Some a" by (simp add: scan_map_def scan_map_preferred)
  then have "a \<in> set (candidates env (se_files env) (app_name a))"
    using preferred_mem by (simp add: scan_map_def scan_map_preferred)
  then have "app_name a \<in> set (app_names env)" by (auto simp: app_names_def candidates_def)
  with a show "a \<in> set (map_values env)" by (force simp: map_values_def app_names_def)
qed

lemma set_scan: "(\<And>xs. mset (se_order env xs) = mset xs) \<Longrightarrow> set (scan env) = set (map_values env)"
  by (simp add: scan_def flip: set_mset_mset)

lemma scan_argv:
  assumes "\<And>xs. mset (se_order env xs) = mset xs" and "a \<in> set (scan env)"
  shows "app_argv a \<noteq> [] \<and> (\<forall>tok \<in> set (app_argv a). \<not> is_field_code tok)"
  using assms(2) preferred_mem candidates_mem app_of_file_argv
  unfolding set_scan [OF assms(1)] set_map_values by blast

section \<open>Properties\<close>

text \<open>
  C33: the scan. Whatever order the hash map yields, the list has one entry per name, in the order
  of the lower-case names; it holds for every name the first application below the home directory,
  or the first one if there is none; and every entry has a command, no token of which is as a whole a field
  code.
\<close>

theorem scan_prefers_user_entries:
  assumes "\<And>xs. mset (se_order env xs) = mset xs"
  shows "distinct (map app_name (scan env)) \<and> sorted (map (\<lambda>a. se_lower env (app_name a)) (scan env)) \<and>
    (\<forall>a. a \<in> set (scan env) \<longleftrightarrow> preferred (se_home env) (candidates env (se_files env) (app_name a)) = Some a) \<and>
    (\<forall>a \<in> set (scan env). app_argv a \<noteq> [] \<and> (\<forall>tok \<in> set (app_argv a). \<not> is_field_code tok))"
proof -
  have "mset (map app_name (scan env)) = mset (app_names env)"
    using assms by (simp add: scan_def flip: map_values_names)
  then have "distinct (map app_name (scan env))"
    by (metis app_names_def distinct_remdups mset_eq_imp_distinct_iff)
  moreover have "sorted (map (\<lambda>a. se_lower env (app_name a)) (scan env))"
    unfolding scan_def by simp
  moreover note scan_argv [OF assms]
  ultimately show ?thesis unfolding set_scan [OF assms] set_map_values by blast
qed

text \<open>
  The search returns the best matches. With a query, at most \<open>limit\<close> applications are
  returned, all of them match, the scores do not increase, and an application that matches and is
  not returned scores no higher than any returned one, while the limit is used up.
\<close>

lemma search_returns_best:
  assumes "q \<noteq> []"
  shows "length (search fuzzy apps q limit) \<le> limit \<and>
    (\<exists>hits. search fuzzy apps q limit = map snd hits \<and> sorted (map (\<lambda>h. - fst h) hits) \<and>
      (\<forall>(score, a) \<in> set hits. a \<in> set apps \<and> fuzzy (app_name a) q = Some score) \<and>
      (\<forall>a score. a \<in> set apps \<and> fuzzy (app_name a) q = Some score \<and> (score, a) \<notin> set hits \<longrightarrow>
         length hits = limit \<and> (\<forall>h \<in> set hits. score \<le> fst h)))"
proof -
  let ?key = "\<lambda>h :: int \<times> app_entry. - fst h"
  let ?s = "sort_key ?key (scored fuzzy q apps)"
  let ?hits = "take limit ?s"
  have key: "(\<lambda>(score :: int, _ :: app_entry). - score) = ?key" by auto
  have mem: "h \<in> set ?s \<longleftrightarrow> snd h \<in> set apps \<and> fuzzy (app_name (snd h)) q = Some (fst h)" for h
    by (cases h) (force simp: scored_def List.map_filter_def)
  have sorted: "sorted (map ?key ?s)" by simp
  then have hits: "sorted (map ?key ?hits)" by (metis sorted_wrt_take take_map)
  have rest: "length ?hits = limit \<and> (\<forall>h \<in> set ?hits. fst x \<le> fst h)" if "x \<in> set ?s" "x \<notin> set ?hits" for x
  proof -
    have x: "x \<in> set (drop limit ?s)" using that by (metis UnE append_take_drop_id set_append)
    have "sorted (map ?key ?hits @ map ?key (drop limit ?s))"
      using sorted by (simp flip: map_append)
    with x have "\<forall>h \<in> set ?hits. fst x \<le> fst h" by (fastforce simp: sorted_append)
    moreover have "limit < length ?s" using x by (cases "limit < length ?s") auto
    ultimately show ?thesis by simp
  qed
  have "search fuzzy apps q limit = map snd ?hits" using assms by (simp add: search_def key)
  moreover have "\<forall>(score, a) \<in> set ?hits. a \<in> set apps \<and> fuzzy (app_name a) q = Some score"
    using mem by (auto dest: in_set_takeD)
  moreover have "length ?hits = limit \<and> (\<forall>h \<in> set ?hits. score \<le> fst h)"
    if "a \<in> set apps \<and> fuzzy (app_name a) q = Some score \<and> (score, a) \<notin> set ?hits" for a score
    using rest [of "(score, a)"] that mem [of "(score, a)"] by simp
  ultimately show ?thesis using hits by (intro conjI exI [of _ ?hits]) auto
qed

text \<open>A system and a user entry of the same name, listed in this order.\<close>

definition exec_entry :: "rstring \<Rightarrow> desktop_entry" where
  "exec_entry cmd = \<lparr>de_no_display = False, de_only_show_in = None, de_not_show_in = None, de_name = Some (lit ''Files''),
     de_exec = Some cmd, de_comment = None, de_icon = None, de_categories = None\<rparr>"

definition override_env :: scan_env where
  "override_env = \<lparr>se_shlex = (\<lambda>s. Some [s, lit ''%U'']), se_lower = id, se_order = rev, se_desktop = [],
     se_home = Some (lit ''/home/u''),
     se_files = [(lit ''/usr/share/applications/files.desktop'', Some (exec_entry (lit ''files''))),
       (lit ''/home/u/.local/share/applications/files.desktop'', Some (exec_entry (lit ''myfiles'')))]\<rparr>"

theorem scan_prefers_user_entries_witness:
  "\<exists>a \<in> set (scan override_env). app_name a = lit ''Files'' \<and> app_argv a = [lit ''myfiles''] \<and>
     (\<forall>b \<in> set (scan override_env). app_name b = lit ''Files'' \<longrightarrow> b = a)"
proof -
  let ?a = "\<lparr>app_name = lit ''Files'', app_comment = None, app_argv = [lit ''myfiles''], app_icon = None,
     app_categories = [], app_source = lit ''/home/u/.local/share/applications/files.desktop''\<rparr>"
  have p: "preferred (se_home override_env) (candidates override_env (se_files override_env) (lit ''Files'')) = Some ?a"
    by (simp add: override_env_def exec_entry_def candidates_def List.map_filter_def app_of_file_def visible_in_def
        parse_exec_def is_field_code_def preferred_def in_home_def path_components_def lit_def)
  have "mset (se_order override_env xs) = mset xs" for xs by (simp add: override_env_def)
  note sc = scan_prefers_user_entries [OF this]
  with p have a: "?a \<in> set (scan override_env)" by simp
  have b: "b = ?a" if "b \<in> set (scan override_env)" "app_name b = lit ''Files''" for b
  proof -
    have "preferred (se_home override_env) (candidates override_env (se_files override_env) (app_name b)) = Some b"
      using sc that(1) by blast
    then show ?thesis using p unfolding that(2) by simp
  qed
  show ?thesis by (intro bexI [OF _ a] conjI ballI impI) (simp, simp, rule b)
qed

end
