(* ===== verification/Launcher.thy ===== *)
theory Launcher
  imports Client Theme Launcher_Apps
begin

text \<open>
  The launcher's window (\<open>crates/launcher/src/draw.rs\<close>) and client (\<open>state.rs\<close>): the query, the
  selection, and launching an application.
\<close>

section \<open>The window\<close>

definition LAUNCHER_W :: u32 where "LAUNCHER_W = 600"
definition LAUNCHER_H :: u32 where "LAUNCHER_H = 400"
definition LAUNCHER_ROW_H :: i32 where "LAUNCHER_ROW_H = 44"
definition SEARCH_H :: i32 where "SEARCH_H = 52"
definition LAUNCHER_PADDING :: i32 where "LAUNCHER_PADDING = 20"
definition ICON_SZ :: i32 where "ICON_SZ = 24"

record launcher_view =
  lv_accent :: color
  lv_query :: rstring
  lv_results :: "app_entry list"
  lv_selected :: nat

definition row_y :: "nat \<Rightarrow> i32" where
  "row_y i = i32_wrap (SEARCH_H + i32_wrap (i32_wrap (int i) * LAUNCHER_ROW_H))"

definition result_row :: "launcher_view \<Rightarrow> nat \<Rightarrow> u32 \<Rightarrow> u32 \<Rightarrow> nat \<Rightarrow> scene \<Rightarrow> scene option" where
  "result_row v stride w h i =
     (let ry = row_y i in
      steps
        [guarded (i = lv_selected v) (steps
           [on_pixels (fill_rect stride w h 0 ry LAUNCHER_W (i32_as_u32 LAUNCHER_ROW_H) SELECTION_BG),
            on_pixels (fill_rect stride w h 0 ry 2 (i32_as_u32 LAUNCHER_ROW_H) (lv_accent v))]),
         guarded (i + 1 < length (lv_results v))
           (on_pixels (hline stride w h (i32_wrap (ry + LAUNCHER_ROW_H - 1)) LAUNCHER_PADDING
              (u32_as_i32 LAUNCHER_W - LAUNCHER_PADDING) DIVIDER))])"

definition result_label ::
  "rasterizer \<Rightarrow> launcher_view \<Rightarrow> nat \<Rightarrow> u32 \<Rightarrow> u32 \<Rightarrow> nat \<times> app_entry \<Rightarrow> text_state \<Rightarrow> text_state option" where
  "result_label rast v stride w h = (\<lambda>(i, app).
     let ry = row_y i; x = LAUNCHER_PADDING + ICON_SZ + 12; mid = i32_quot LAUNCHER_ROW_H 2 in
     steps
       [put_text rast stride w h x (i32_wrap (ry + mid + 5)) (app_name app) 14
          (if i = lv_selected v then TEXT_PRIMARY else TEXT_SECONDARY) Regular,
        (case app_comment app of
           None \<Rightarrow> Some
         | Some comment \<Rightarrow>
             guarded (comment \<noteq> [])
               (put_text rast stride w h x (i32_wrap (ry + mid + 19)) (take 60 comment) 11 TEXT_DISABLED Regular))])"

definition launcher_paint :: "rasterizer \<Rightarrow> launcher_view \<Rightarrow> nat \<Rightarrow> u32 \<Rightarrow> u32 \<Rightarrow> scene \<Rightarrow> scene option" where
  "launcher_paint rast v stride w h =
     (let cursor_x = LAUNCHER_PADDING + 2 in
      steps
        [on_pixels (wipe SURFACE_3),
         on_pixels (fill_rect stride w h 0 0 LAUNCHER_W (i32_as_u32 SEARCH_H) SURFACE_4),
         on_pixels (hline stride w h SEARCH_H 0 (u32_as_i32 LAUNCHER_W) DIVIDER),
         on_pixels (fill_rect stride w h cursor_x LAUNCHER_PADDING 2 (i32_as_u32 (SEARCH_H - LAUNCHER_PADDING * 2))
           (lv_accent v)),
         each [0..<length (lv_results v)] (result_row v stride w h),
         with_text (steps
           [put_text rast stride w h (cursor_x + 8) (i32_quot SEARCH_H 2 + 6)
              (if lv_query v = [] then lit ''Type to search'' @ [0x2026] else lv_query v) 14
              (if lv_query v = [] then TEXT_DISABLED else TEXT_PRIMARY) Regular,
            each (zip [0..<length (lv_results v)] (lv_results v)) (result_label rast v stride w h)])])"

lemma result_row_keeps [keeping]: "keeps (scene_ok stride w h) (result_row v stride w h i)"
  unfolding result_row_def Let_def by (intro keeping)

lemma result_label_keeps [keeping]:
  "rast_ok rast \<Longrightarrow> keeps (text_ok stride w h) (result_label rast v stride w h p)"
  by (cases p; cases "app_comment (snd p)") (simp_all add: result_label_def Let_def keeping)

interpretation launcher_painter: painter launcher_paint
  by unfold_locales (unfold launcher_paint_def Let_def, intro keeping)

section \<open>The client\<close>

record launcher_state = client +
  la_theme :: theme
  la_query :: rstring
  la_apps :: "app_entry list"
  la_selected :: nat
  la_spawned :: "(rstring \<times> rstring list) list"

record launcher_env =
  lae_client :: client_env
  lae_fuzzy :: fuzzy

definition launcher_new :: "bool \<Rightarrow> theme \<Rightarrow> scan_env \<Rightarrow> launcher_state" where
  "launcher_new fonts_found theme senv =
     client.extend (client_new fonts_found LAUNCHER_W LAUNCHER_H)
       (launcher_state.fields theme [] (scan senv) 0 [])"

definition launcher_init :: "bool \<Rightarrow> theme \<Rightarrow> scan_env \<Rightarrow> launcher_state" where
  "launcher_init fonts_found theme senv =
     (cl_emit (ClLayer (lit ''nullxes-launcher'') LAUNCHER_W LAUNCHER_H) (launcher_new fonts_found theme senv))
       \<lparr>cl_surface := True\<rparr>"

definition results :: "launcher_env \<Rightarrow> launcher_state \<Rightarrow> app_entry list" where
  "results env s = search (lae_fuzzy env) (la_apps s) (la_query s) 8"

definition launcher_view_of :: "launcher_env \<Rightarrow> launcher_state \<Rightarrow> launcher_view" where
  "launcher_view_of env s = \<lparr>lv_accent = theme_accent (la_theme s), lv_query = la_query s,
     lv_results = results env s, lv_selected = la_selected s\<rparr>"

definition launcher_redraw :: "launcher_env \<Rightarrow> launcher_state \<Rightarrow> launcher_state option" where
  "launcher_redraw env s =
     client_redraw (ce_os (lae_client env)) (launcher_paint (ce_rast (lae_client env)) (launcher_view_of env s)) s"

definition launch_selected :: "launcher_env \<Rightarrow> launcher_state \<Rightarrow> launcher_state" where
  "launch_selected env s =
     (if la_selected s < length (results env s)
      then case app_argv (results env s ! la_selected s) of
          [] \<Rightarrow> s
        | cmd # args \<Rightarrow> s\<lparr>la_spawned := la_spawned s @ [(cmd, args)]\<rparr>
      else s)"

definition launcher_handle_action :: "launcher_env \<Rightarrow> action \<Rightarrow> launcher_state \<Rightarrow> launcher_state option" where
  "launcher_handle_action env a s =
     (case a of
        Escape \<Rightarrow> Some (s\<lparr>cl_should_close := True\<rparr>)
      | Enter \<Rightarrow> Some ((launch_selected env s)\<lparr>cl_should_close := True\<rparr>)
      | Backspace \<Rightarrow> launcher_redraw env (s\<lparr>la_query := str_pop (la_query s), la_selected := 0\<rparr>)
      | Up \<Rightarrow> if 0 < la_selected s then launcher_redraw env (s\<lparr>la_selected := la_selected s - 1\<rparr>) else Some s
      | Down \<Rightarrow>
          if la_selected s < length (results env s) - 1
          then launcher_redraw env (s\<lparr>la_selected := la_selected s + 1\<rparr>) else Some s
      | _ \<Rightarrow> Some s)"

definition launcher_handle_text :: "launcher_env \<Rightarrow> rstring \<Rightarrow> launcher_state \<Rightarrow> launcher_state option" where
  "launcher_handle_text env str s = launcher_redraw env (s\<lparr>la_query := la_query s @ str, la_selected := 0\<rparr>)"

text \<open>The launcher's surface is a layer surface: it has no ping and no toplevel configure event.\<close>

definition launcher_dispatch :: "launcher_env \<Rightarrow> client_event \<Rightarrow> launcher_state \<Rightarrow> launcher_state option" where
  "launcher_dispatch env ev s =
     (case ev of
        ClPing _ \<Rightarrow> Some s
      | _ \<Rightarrow> client_dispatch (ce_xkb (lae_client env)) (launcher_redraw env) (\<lambda>w h s. Some s)
               (launcher_handle_action env) (launcher_handle_text env) ev s)"

definition launcher_run ::
  "launcher_env \<Rightarrow> bool \<Rightarrow> theme \<Rightarrow> scan_env \<Rightarrow> client_event list list \<Rightarrow> launcher_state option" where
  "launcher_run env fonts_found theme senv turns =
     each turns (surface_loop (launcher_dispatch env)) (launcher_init fonts_found theme senv)"

section \<open>The invariant\<close>

text \<open>
  The selection is a row of the results, or the first one when there are none; only commands of
  the scanned applications have been started.
\<close>

definition launcher_inv :: "launcher_env \<Rightarrow> app_entry list \<Rightarrow> launcher_state \<Rightarrow> bool" where
  "launcher_inv env apps s \<longleftrightarrow> rast_ok (ce_rast (lae_client env)) \<and> client_ok s \<and> la_apps s = apps \<and>
     (la_selected s = 0 \<or> la_selected s < length (results env s)) \<and>
     (\<forall>(cmd, args) \<in> set (la_spawned s). \<exists>a \<in> set apps. app_argv a = cmd # args)"

lemma search_mem: "a \<in> set (search fuzzy apps q n) \<Longrightarrow> a \<in> set apps"
  by (auto simp: search_def scored_def List.map_filter_def split: if_splits dest!: in_set_takeD)

lemma launcher_redraw_inv: "keeps (launcher_inv env apps) (launcher_redraw env)"
proof (rule keepsI)
  fix s assume "launcher_inv env apps s"
  then show "\<exists>s'. launcher_redraw env s = Some s' \<and> launcher_inv env apps s'"
    using launcher_painter.redraw_ok [of "ce_rast (lae_client env)" s "ce_os (lae_client env)" "launcher_view_of env s"]
    by (auto simp: launcher_redraw_def launcher_inv_def redrawn_def results_def)
qed

lemma launcher_redraw_after:
  "launcher_inv env apps s \<Longrightarrow> \<exists>s'. launcher_redraw env s = Some s' \<and> launcher_inv env apps s'"
  by (rule keepsD [OF launcher_redraw_inv])

lemma launch_selected_inv: "launcher_inv env apps s \<Longrightarrow> launcher_inv env apps (launch_selected env s)"
  using search_mem [of "results env s ! la_selected s" "lae_fuzzy env" "la_apps s" "la_query s" 8]
  by (auto simp: launch_selected_def launcher_inv_def client_ok_def results_def split: list.split)

lemma launcher_inv_edit: "launcher_inv env apps s \<Longrightarrow> launcher_inv env apps (s\<lparr>la_query := q, la_selected := 0\<rparr>)"
  and launcher_inv_select:
    "launcher_inv env apps s \<Longrightarrow> n < length (results env s) \<Longrightarrow> launcher_inv env apps (s\<lparr>la_selected := n\<rparr>)"
  and launcher_inv_close: "launcher_inv env apps s \<Longrightarrow> launcher_inv env apps (s\<lparr>cl_should_close := True\<rparr>)"
  by (auto simp: launcher_inv_def client_ok_def results_def)

lemma launcher_handle_action_inv: "keeps (launcher_inv env apps) (launcher_handle_action env a)"
proof (rule keepsI)
  fix s assume inv: "launcher_inv env apps s"
  then have "la_selected s - 1 < length (results env s)" if "0 < la_selected s"
    using that by (auto simp: launcher_inv_def)
  with inv show "\<exists>s'. launcher_handle_action env a s = Some s' \<and> launcher_inv env apps s'"
    by (cases a) (simp_all add: launcher_handle_action_def launcher_redraw_after launcher_inv_edit
        launcher_inv_select launcher_inv_close launch_selected_inv)
qed

lemma launcher_handle_text_inv: "keeps (launcher_inv env apps) (launcher_handle_text env str)"
proof (rule keepsI)
  fix s assume "launcher_inv env apps s"
  then show "\<exists>s'. launcher_handle_text env str s = Some s' \<and> launcher_inv env apps s'"
    unfolding launcher_handle_text_def by (intro launcher_redraw_after launcher_inv_edit)
qed

interpretation launcher: surface_client "\<lambda>w h s. Some s" "launcher_handle_action env" "launcher_handle_text env"
  "launcher_inv env apps" "launcher_redraw env" for env apps
  by unfold_locales
     (auto simp: launcher_inv_def client_ok_def results_def mark_released_ok cl_emit_def
      intro: launcher_redraw_inv launcher_handle_action_inv launcher_handle_text_inv keeps_pure)

lemma launcher_dispatch_keeps: "client_event_ok ev \<Longrightarrow> keeps (launcher_inv env apps) (launcher_dispatch env ev)"
  using launcher.dispatch_keeps [of ev env apps "ce_xkb (lae_client env)"]
  by (cases ev) (auto simp: keeps_def launcher_dispatch_def)

lemma launcher_run_inv:
  assumes "rast_ok (ce_rast (lae_client env))" and "\<forall>ev \<in> set (concat turns). client_event_ok ev"
  shows "\<exists>s. launcher_run env f theme senv turns = Some s \<and> launcher_inv env (scan senv) s"
proof -
  have "keeps (launcher_inv env (scan senv)) (each turns (surface_loop (launcher_dispatch env)))"
    using assms(2) unfolding surface_loop_def by (intro keeping launcher_dispatch_keeps) auto
  moreover have "launcher_inv env (scan senv) (launcher_init f theme senv)"
    using assms(1) by (simp add: launcher_inv_def launcher_init_def launcher_new_def cl_emit_def client_new_def
        client.defs launcher_state.defs client_ok_def text_cache_ok_def cache_ok_def dims_ok_def LAUNCHER_W_def)
  ultimately show ?thesis unfolding launcher_run_def by (rule keepsD)
qed

section \<open>Properties\<close>

text \<open>
  C18: the launcher starts only what it lists. Whatever the events, it never panics, shows at most
  eight results, the selection is one of them, and every command that was started is the command
  of an application of the scan.
\<close>

theorem launcher_starts_only_listed:
  assumes "rast_ok (ce_rast (lae_client env))" and "\<forall>ev \<in> set (concat turns). client_event_ok ev"
  shows "\<exists>s. launcher_run env f theme senv turns = Some s \<and>
    length (results env s) \<le> 8 \<and> (results env s \<noteq> [] \<longrightarrow> la_selected s < length (results env s)) \<and>
    (\<forall>(cmd, args) \<in> set (la_spawned s). \<exists>a \<in> set (scan senv). app_argv a = cmd # args)"
proof -
  obtain s where "launcher_run env f theme senv turns = Some s" "launcher_inv env (scan senv) s"
    using launcher_run_inv [OF assms, of f theme senv] by blast
  moreover have "length (results env s) \<le> 8" by (simp add: results_def search_def)
  ultimately show ?thesis by (auto simp: launcher_inv_def)
qed

definition launcher_example_env :: launcher_env where
  "launcher_example_env = \<lparr>lae_client = \<lparr>ce_rast = box_rasterizer, ce_os = kind_os,
     ce_xkb = \<lparr>xkb_compile = (\<lambda>_. Some 0), xkb_state_new = (\<lambda>km. km), xkb_update_mask = (\<lambda>_ _ _ _ st. st),
       xkb_one_sym = (\<lambda>_ _. KEY_Return), xkb_utf8 = (\<lambda>_ _. [])\<rparr>\<rparr>,
     lae_fuzzy = (\<lambda>name q. Some 1)\<rparr>"

definition launcher_example :: "client_event list list" where
  "launcher_example = [[ClKeymap True (Inr []) 0 []], [ClKey 28 True]]"

lemma launcher_example_ok:
  "rast_ok (ce_rast (lae_client launcher_example_env))" "\<forall>ev \<in> set (concat launcher_example). client_event_ok ev"
  by (simp_all add: launcher_example_env_def rast_ok_def glyph_ok_def box_rasterizer_def launcher_example_def)

lemmas launcher_run_simps = launcher_run_def each_def surface_loop_def guarded_by_def launcher_dispatch_def
  client_dispatch_def launcher_init_def launcher_new_def client_new_def cl_emit_def client.defs
  launcher_state.defs apply_keymap_def keyboard_new_def strip_trailing_nul_def process_key_def
  action_from_keysym_def launcher_handle_action_def launch_selected_def results_def search_def Let_def

lemma launcher_example_spawns:
  "scan senv = [a] \<Longrightarrow> app_argv a = [cmd] \<Longrightarrow>
    map_option la_spawned (launcher_run launcher_example_env False theme_default senv launcher_example) = Some [(cmd, [])]"
  by (simp add: launcher_run_simps launcher_example_env_def launcher_example_def)

definition lone_env :: scan_env where
  "lone_env = override_env\<lparr>se_files := [(lit ''/usr/share/applications/files.desktop'', Some (exec_entry (lit ''files'')))]\<rparr>"

lemma lone_scan:
  "scan lone_env = [\<lparr>app_name = lit ''Files'', app_comment = None, app_argv = [lit ''files''], app_icon = None,
     app_categories = [], app_source = lit ''/usr/share/applications/files.desktop''\<rparr>]"
  by (simp add: scan_def map_values_def scan_map_def scan_file_def insert_app_def lone_env_def override_env_def
      exec_entry_def List.map_filter_def app_of_file_def visible_in_def parse_exec_def is_field_code_def Let_def lit_def)

theorem launcher_starts_only_listed_witness:
  "\<exists>s. launcher_run launcher_example_env False theme_default lone_env launcher_example = Some s \<and>
     la_spawned s = [(lit ''files'', [])] \<and> (\<exists>a \<in> set (scan lone_env). app_argv a = [lit ''files''])"
  using launcher_starts_only_listed [OF launcher_example_ok, of False theme_default lone_env]
    launcher_example_spawns [of lone_env _ "lit ''files''" ] lone_scan by auto

text \<open>
  C21: Return starts the highlighted application. In every state the launcher can be in with a
  result on screen, Return starts exactly the command of the row painted as selected, once, and
  closes the window.
\<close>

theorem launcher_enter_starts_highlighted:
  assumes "rast_ok (ce_rast (lae_client env))" and "\<forall>ev \<in> set (concat turns). client_event_ok ev"
    and "\<And>xs. mset (se_order senv xs) = mset xs"
    and "launcher_run env f theme senv turns = Some s" and "lv_results (launcher_view_of env s) \<noteq> []"
  shows "lv_selected (launcher_view_of env s) < length (lv_results (launcher_view_of env s)) \<and>
    (\<exists>cmd args. app_argv (lv_results (launcher_view_of env s) ! lv_selected (launcher_view_of env s)) = cmd # args \<and>
      launcher_handle_action env Enter s =
        Some (s\<lparr>la_spawned := la_spawned s @ [(cmd, args)], cl_should_close := True\<rparr>))"
proof -
  have inv: "launcher_inv env (scan senv) s"
    using launcher_run_inv [OF assms(1,2), of f theme senv] assms(4) by auto
  with assms(5) have sel: "la_selected s < length (results env s)"
    by (auto simp: launcher_view_of_def launcher_inv_def)
  then have "results env s ! la_selected s \<in> set (scan senv)"
    using inv search_mem by (metis launcher_inv_def nth_mem results_def)
  with scan_argv [OF assms(3)] obtain cmd args where "app_argv (results env s ! la_selected s) = cmd # args"
    by (metis list.exhaust)
  with sel show ?thesis by (simp add: launcher_view_of_def launcher_handle_action_def launch_selected_def)
qed

theorem launcher_enter_starts_highlighted_witness:
  "\<exists>s. launcher_run launcher_example_env False theme_default lone_env [] = Some s \<and>
     map_option la_spawned (launcher_handle_action launcher_example_env Enter s) = Some [(lit ''files'', [])]"
proof -
  let ?s = "launcher_init False theme_default lone_env"
  have r: "launcher_run launcher_example_env False theme_default lone_env [] = Some ?s"
    by (simp add: launcher_run_def each_def)
  have v: "launcher_view_of launcher_example_env ?s = \<lparr>lv_accent = theme_accent theme_default, lv_query = [],
      lv_results = scan lone_env, lv_selected = 0\<rparr>" "la_spawned ?s = []"
    by (simp_all add: launcher_view_of_def launcher_run_simps lone_scan)
  have "mset (se_order lone_env xs) = mset xs" for xs by (simp add: lone_env_def override_env_def)
  from launcher_enter_starts_highlighted [OF launcher_example_ok(1) _ this r] v r show ?thesis
    by (auto simp: lone_scan)
qed

end
