(* ===== verification/Launcher_Lock.thy ===== *)
theory Launcher_Lock
  imports Prelude
begin

text \<open>
  The single-instance guard of the launcher (\<open>acquire_lock\<close> and \<open>LockGuard\<close> of
  \<open>crates/launcher/src/main.rs\<close>) as a step relation: any number of launcher processes, each at a
  point of its program, share the lock file. The file is an inode that the path may or may not name;
  \<open>flock\<close> locks the inode, \<open>remove_file\<close> takes the name away.
\<close>

section \<open>Processes and files\<close>

type_synonym inode = nat

datatype launcher_pc =
    Starting
  | Opened inode
  | Running inode
  | RunningLockless
  | Removed inode
  | Exited

text \<open>\<open>lk_inode\<close> is the inode the path names, \<open>lk_fresh\<close> the next unused one.\<close>

record lock_world =
  lk_pc :: "nat \<Rightarrow> launcher_pc"
  lk_inode :: "inode option"
  lk_holder :: "inode \<Rightarrow> nat option"
  lk_fresh :: inode

definition lock_world_initial :: lock_world where
  "lock_world_initial = \<lparr>lk_pc = (\<lambda>_. Starting), lk_inode = None, lk_holder = (\<lambda>_. None), lk_fresh = 0\<rparr>"

definition goto :: "nat \<Rightarrow> launcher_pc \<Rightarrow> lock_world \<Rightarrow> lock_world" where
  "goto p l w = w\<lparr>lk_pc := (lk_pc w)(p := l)\<rparr>"

text \<open>\<open>open(O_CREAT)\<close>: the named inode, or a new one; on an error the launcher runs without a lock.\<close>

definition lock_open :: "nat \<Rightarrow> bool \<Rightarrow> lock_world \<Rightarrow> lock_world" where
  "lock_open p fails w =
     (if fails then goto p RunningLockless w
      else case lk_inode w of
        Some i \<Rightarrow> goto p (Opened i) w
      | None \<Rightarrow> goto p (Opened (lk_fresh w)) (w\<lparr>lk_inode := Some (lk_fresh w), lk_fresh := lk_fresh w + 1\<rparr>))"

text \<open>\<open>flock(LOCK_EX | LOCK_NB)\<close>: if the lock is held the launcher exits.\<close>

definition lock_flock :: "nat \<Rightarrow> inode \<Rightarrow> lock_world \<Rightarrow> lock_world" where
  "lock_flock p i w =
     (if lk_holder w i = None then goto p (Running i) (w\<lparr>lk_holder := (lk_holder w)(i := Some p)\<rparr>)
      else goto p Exited w)"

text \<open>Dropping the guard: the destructor removes the file, then the descriptor is closed.\<close>

definition lock_remove :: "nat \<Rightarrow> inode \<Rightarrow> lock_world \<Rightarrow> lock_world" where
  "lock_remove p i w = goto p (Removed i) (w\<lparr>lk_inode := None\<rparr>)"

definition lock_close :: "nat \<Rightarrow> inode \<Rightarrow> lock_world \<Rightarrow> lock_world" where
  "lock_close p i w = goto p Exited (w\<lparr>lk_holder := (lk_holder w)(i := None)\<rparr>)"

definition lock_step :: "nat \<times> bool \<Rightarrow> lock_world \<Rightarrow> lock_world" where
  "lock_step = (\<lambda>(p, fails) w.
     case lk_pc w p of
       Starting \<Rightarrow> lock_open p fails w
     | Opened i \<Rightarrow> lock_flock p i w
     | Running i \<Rightarrow> lock_remove p i w
     | RunningLockless \<Rightarrow> goto p Exited w
     | Removed i \<Rightarrow> lock_close p i w
     | Exited \<Rightarrow> w)"

text \<open>The worlds any interleaving of the processes reaches.\<close>

inductive lock_reach :: "lock_world \<Rightarrow> bool" where
  initial: "lock_reach lock_world_initial"
| step: "lock_reach w \<Longrightarrow> lock_reach (lock_step (p, fails) w)"

lemma lock_reach_run: "lock_reach w \<Longrightarrow> lock_reach (fold lock_step es w)"
  by (induction es arbitrary: w) (auto intro: lock_reach.step)

section \<open>The invariant\<close>

text \<open>
  The holder of an inode is the one process that has its lock, every inode in use has been handed
  out, and the inode of the path is one of them.
\<close>

fun locks :: "launcher_pc \<Rightarrow> inode option" where
  "locks (Running i) = Some i"
| "locks (Removed i) = Some i"
| "locks _ = None"

fun uses :: "launcher_pc \<Rightarrow> inode option" where
  "uses (Opened i) = Some i"
| "uses pc = locks pc"

definition lock_ok :: "lock_world \<Rightarrow> bool" where
  "lock_ok w \<longleftrightarrow> (\<forall>p i. lk_holder w i = Some p \<longleftrightarrow> locks (lk_pc w p) = Some i) \<and>
     (\<forall>p i. uses (lk_pc w p) = Some i \<longrightarrow> i < lk_fresh w) \<and> (\<forall>i. lk_inode w = Some i \<longrightarrow> i < lk_fresh w)"

lemma lock_okD:
  assumes "lock_ok w"
  shows "lk_holder w i = None \<Longrightarrow> locks (lk_pc w p) \<noteq> Some i"
    and "locks (lk_pc w p) = Some i \<Longrightarrow> locks (lk_pc w q) = Some i \<Longrightarrow> p = q"
    and "uses (lk_pc w p) = Some i \<Longrightarrow> i < lk_fresh w"
  using assms by (auto simp: lock_ok_def) (metis option.distinct(1), metis option.inject)

lemma lock_ok_step:
  assumes ok: "lock_ok w"
  shows "lock_ok (lock_step (p, fails) w)"
proof (cases "lk_pc w p")
  case (Opened i)
  have free: "\<forall>q. locks (lk_pc w q) \<noteq> Some i" if "lk_holder w i = None"
    using lock_okD(1) [OF ok that] by blast
  have "i < lk_fresh w" using Opened lock_okD(3) [OF ok, of p i] by simp
  moreover have "lock_ok (goto p Exited w)" if "lk_holder w i = Some q" for q
    using that Opened ok by (auto simp: goto_def lock_ok_def)
  moreover have "lock_ok (lock_flock p i w)" if "lk_holder w i = None"
    using free [OF that] that Opened ok \<open>i < lk_fresh w\<close>
    by (simp add: lock_flock_def goto_def lock_ok_def)
  ultimately show ?thesis using Opened by (cases "lk_holder w i") (auto simp: lock_step_def lock_flock_def)
next
  case (Running i)
  have "i < lk_fresh w" using Running lock_okD(3) [OF ok, of p i] by simp
  with Running ok show ?thesis by (auto simp: lock_step_def lock_remove_def goto_def lock_ok_def)
next
  case (Removed i)
  have "\<forall>q. locks (lk_pc w q) = Some i \<longrightarrow> q = p" using Removed lock_okD(2) [OF ok, of _ i p] by simp
  with Removed ok show ?thesis by (simp add: lock_step_def lock_close_def goto_def lock_ok_def) auto
qed (use ok in \<open>auto simp: lock_step_def lock_open_def goto_def lock_ok_def less_Suc_eq split: option.splits\<close>)

lemma lock_reach_ok: "lock_reach w \<Longrightarrow> lock_ok w"
proof (induction rule: lock_reach.induct)
  case initial
  show ?case by (simp add: lock_ok_def lock_world_initial_def)
next
  case (step w p fails)
  then show ?case by (simp add: lock_ok_step)
qed

text \<open>The processes that are past the guard.\<close>

fun runs :: "launcher_pc \<Rightarrow> bool" where
  "runs (Running _) = True"
| "runs RunningLockless = True"
| "runs _ = False"

text \<open>While no launcher with the lock has removed the file, every inode in use is the named one.\<close>

fun leaves :: "nat \<times> bool \<Rightarrow> lock_world \<Rightarrow> bool" where
  "leaves (p, fails) w \<longleftrightarrow> (case lk_pc w p of Running _ \<Rightarrow> True | _ \<Rightarrow> False)"

fun undisturbed :: "(nat \<times> bool) list \<Rightarrow> lock_world \<Rightarrow> bool" where
  "undisturbed [] w \<longleftrightarrow> True"
| "undisturbed (e # es) w \<longleftrightarrow> \<not> leaves e w \<and> undisturbed es (lock_step e w)"

definition one_file :: "lock_world \<Rightarrow> bool" where
  "one_file w \<longleftrightarrow> (\<forall>p i. lk_pc w p \<noteq> Removed i) \<and>
     (\<forall>p i. uses (lk_pc w p) = Some i \<longrightarrow> lk_inode w = Some i)"

lemma one_file_step: "one_file w \<Longrightarrow> \<not> leaves (p, fails) w \<Longrightarrow> one_file (lock_step (p, fails) w)"
proof -
  assume one: "one_file w" and quiet: "\<not> leaves (p, fails) w"
  then have named: "lk_inode w = Some i" if "uses (lk_pc w p) = Some i" for i
    using that by (auto simp: one_file_def)
  show ?thesis
  proof (cases "lk_pc w p")
    case Starting
    with one quiet show ?thesis
      by (cases fails; cases "lk_inode w") (auto simp: lock_step_def lock_open_def goto_def one_file_def)
  next
    case (Opened i)
    with one named [of i] show ?thesis
      by (auto simp: lock_step_def lock_flock_def goto_def one_file_def)
  qed (use one quiet in \<open>auto simp: lock_step_def goto_def one_file_def\<close>)
qed

lemma one_file_runs:
  assumes "one_file w" and "runs (lk_pc w p)" and "lk_pc w p \<noteq> RunningLockless"
  shows "\<exists>i. lk_inode w = Some i \<and> locks (lk_pc w p) = Some i"
proof -
  have "\<And>i. uses (lk_pc w p) = Some i \<Longrightarrow> lk_inode w = Some i" using assms(1) by (simp add: one_file_def)
  then show ?thesis using assms by (cases "lk_pc w p") (auto simp: one_file_def)
qed

lemma one_file_run: "one_file w \<Longrightarrow> undisturbed es w \<Longrightarrow> one_file (fold lock_step es w)"
proof (induction es arbitrary: w)
  case (Cons e es)
  obtain p fails where "e = (p, fails)" by (cases e)
  with Cons one_file_step show ?case by simp
qed simp

text \<open>A launcher runs without the lock only when its \<open>open\<close> failed.\<close>

lemma lockless_step: "lk_pc (lock_step (q, fails) w) p = RunningLockless \<Longrightarrow> lk_pc w p = RunningLockless \<or> (p, True) = (q, fails)"
  by (cases "lk_pc w q") (auto simp: lock_step_def lock_open_def lock_flock_def lock_remove_def lock_close_def goto_def
      split: if_splits option.splits)

lemma lockless_run:
  "lk_pc (fold lock_step es w) p = RunningLockless \<Longrightarrow> lk_pc w p = RunningLockless \<or> (p, True) \<in> set es"
proof (induction es arbitrary: w)
  case (Cons e es)
  obtain q fails where "e = (q, fails)" by (cases e)
  with Cons lockless_step show ?case by fastforce
qed simp

section \<open>Properties\<close>

text \<open>
  C23: the lock keeps a second launcher out while the first one runs. Two processes never hold the
  lock of one file. As long as no launcher that holds the lock has left, at most one launcher whose \<open>open\<close> did not
  fail is past the guard, whatever the interleaving and whichever calls of \<open>open\<close> fail; the others that are past
  it are those whose \<open>open\<close> failed, which run beside it.
\<close>

theorem launcher_lock_excludes:
  assumes "undisturbed es lock_world_initial"
  defines "w \<equiv> fold lock_step es lock_world_initial"
  shows "(\<forall>p q. runs (lk_pc w p) \<and> runs (lk_pc w q) \<and> (p, True) \<notin> set es \<and> (q, True) \<notin> set es \<longrightarrow> p = q) \<and>
    (\<forall>p. runs (lk_pc w p) \<longrightarrow> (\<exists>i. lk_inode w = Some i \<and> lk_holder w i = Some p) \<or> (p, True) \<in> set es) \<and>
    (\<forall>w' p q i. lock_reach w' \<and> locks (lk_pc w' p) = Some i \<and> locks (lk_pc w' q) = Some i \<longrightarrow> p = q)"
proof -
  have ok: "lock_ok w" unfolding w_def by (intro lock_reach_ok lock_reach_run lock_reach.initial)
  have one: "one_file w"
    using assms(1) unfolding w_def by (intro one_file_run) (simp_all add: one_file_def lock_world_initial_def)
  have locked: "lk_pc w p \<noteq> RunningLockless" if "(p, True) \<notin> set es" for p
    using lockless_run [of es lock_world_initial p] that by (auto simp: w_def lock_world_initial_def)
  have holds: "\<exists>i. lk_inode w = Some i \<and> lk_holder w i = Some p" if "runs (lk_pc w p)" "(p, True) \<notin> set es" for p
    using one_file_runs [OF one that(1) locked [OF that(2)]] ok by (auto simp: lock_ok_def)
  then have "p = q" if "runs (lk_pc w p)" "runs (lk_pc w q)" "(p, True) \<notin> set es" "(q, True) \<notin> set es" for p q
    using that by (metis option.inject)
  moreover have "p = q" if "lock_reach w'" "locks (lk_pc w' p) = Some i" "locks (lk_pc w' q) = Some i" for w' p q i
    using lock_okD(2) [OF lock_reach_ok [OF that(1)] that(2,3)] .
  ultimately show ?thesis using holds by blast
qed

text \<open>Of three launchers one takes the lock, one is turned away, and one cannot open the file.\<close>

theorem launcher_lock_excludes_witness:
  "let w = fold lock_step [(0, False), (1, False), (0, False), (1, False), (2, True)] lock_world_initial in
   lk_pc w 0 = Running 0 \<and> \<not> runs (lk_pc w 1) \<and> lk_pc w 2 = RunningLockless"
proof -
  let ?es = "[(0, False), (1, False), (0, False), (1, False), (2, True)] :: (nat \<times> bool) list" and ?w = "fold lock_step [(0, False), (1, False), (0, False), (1, False), (2, True)] lock_world_initial"
  have "undisturbed ?es lock_world_initial" and r: "lk_pc ?w 0 = Running 0" "lk_pc ?w 2 = RunningLockless"
    by (simp_all add: lock_step_def lock_open_def lock_flock_def goto_def lock_world_initial_def)
  then have "runs (lk_pc ?w 0) \<and> runs (lk_pc ?w 1) \<and> (0, True) \<notin> set ?es \<and> (1, True) \<notin> set ?es \<longrightarrow> (0 :: nat) = 1"
    using launcher_lock_excludes [of ?es] by blast
  with r show ?thesis by simp
qed

text \<open>
  The guard is not exclusive when a launcher leaves. The destructor removes the file before
  the lock is released: a launcher that has opened the old file takes its lock afterwards, and one
  that starts then creates and locks a new file, so that two of them run, each with a lock.
\<close>

lemma launcher_lock_race:
  "\<exists>w. lock_reach w \<and> lk_pc w 1 = Running 0 \<and> lk_pc w 2 = Running 1 \<and> lk_inode w = Some 1"
proof -
  let ?es = "[(0, False), (0, False), (1, False), (0, False), (0, False), (1, False), (2, False), (2, False)]"
  have "lk_pc (fold lock_step ?es lock_world_initial) 1 = Running 0 \<and>
      lk_pc (fold lock_step ?es lock_world_initial) 2 = Running 1 \<and>
      lk_inode (fold lock_step ?es lock_world_initial) = Some 1"
    by (simp add: lock_step_def lock_open_def lock_flock_def lock_remove_def lock_close_def goto_def lock_world_initial_def)
  then show ?thesis using lock_reach_run [OF lock_reach.initial] by blast
qed

end
