(* ===== verification/Notif.thy ===== *)
theory Notif
  imports Scene "HOL-Library.Multiset"
begin

text \<open>
  The toasts of the notification daemon: painting one (\<open>crates/nx-notif/src/render.rs\<close>) and the
  wayland thread that shows, replaces, expires and closes them (\<open>surface.rs\<close>). Times are
  milliseconds; every reading of the clock is an argument.
\<close>

section \<open>Notifications\<close>

datatype urgency = Low | Normal | Critical

record notif =
  nf_id :: u32
  nf_app_name :: rstring
  nf_app_icon :: rstring
  nf_summary :: rstring
  nf_body :: rstring
  nf_actions :: "rstring list"
  nf_urgency :: urgency
  nf_timeout_ms :: u32

definition close_for :: "u32 \<Rightarrow> notif" where
  "close_for i = \<lparr>nf_id = i, nf_app_name = [], nf_app_icon = [], nf_summary = [], nf_body = [], nf_actions = [],
     nf_urgency = Low, nf_timeout_ms = 1\<rparr>"

definition is_close :: "notif \<Rightarrow> bool" where
  "is_close n \<longleftrightarrow> nf_summary n = [] \<and> nf_body n = [] \<and> nf_timeout_ms n \<le> 1"

section \<open>Painting a toast\<close>

definition TOAST_W :: u32 where "TOAST_W = 360"
definition TOAST_H :: u32 where "TOAST_H = 88"
definition TOAST_PAD :: i32 where "TOAST_PAD = 14"

fun accent_for :: "urgency \<Rightarrow> color" where
  "accent_for Low = TEXT_DISABLED"
| "accent_for Normal = ACCENT"
| "accent_for Critical = DESTRUCTIVE"

text \<open>\<open>s.lines().next().unwrap_or("")\<close>: up to the first newline, less a carriage return before it.\<close>

definition first_line :: "rstring \<Rightarrow> rstring" where
  "first_line s =
     (let l = takeWhile (\<lambda>c. c \<noteq> 10) s in
      if length l < length s \<and> l \<noteq> [] \<and> last l = 13 then butlast l else l)"

definition toast_paint :: "rasterizer \<Rightarrow> notif \<Rightarrow> nat \<Rightarrow> u32 \<Rightarrow> u32 \<Rightarrow> scene \<Rightarrow> scene option" where
  "toast_paint rast n stride w h =
     (let body = take 70 (first_line (nf_body n)) in
      steps
        [on_pixels (wipe SURFACE_3),
         on_pixels (vline stride w h 0 0 (u32_as_i32 h) (accent_for (nf_urgency n))),
         with_text (steps
           [put_text rast stride w h (TOAST_PAD + 4) 24 (nf_summary n) 14 TEXT_PRIMARY Medium,
            guarded (body \<noteq> []) (put_text rast stride w h (TOAST_PAD + 4) 48 body 12 TEXT_SECONDARY Regular),
            guarded (nf_app_name n \<noteq> [])
              (put_text rast stride w h (TOAST_PAD + 4) 72 (nf_app_name n) 11 TEXT_DISABLED Regular)])])"

interpretation toast_painter: painter toast_paint
  by unfold_locales (unfold toast_paint_def Let_def, intro keeping)

section \<open>The wayland thread\<close>

definition MAX_VISIBLE :: nat where "MAX_VISIBLE = 5"

text \<open>\<open>vt_layer\<close> numbers the surface with its layer surface.\<close>

record toast =
  vt_notif :: notif
  vt_layer :: nat
  vt_buffer :: "shm_pool option"
  vt_configured :: bool
  vt_width :: u32
  vt_height :: u32
  vt_expires :: nat

datatype notif_effect =
    CreateToast nat i32
  | AckToast nat u32
  | CommitToast nat nat u32 u32

text \<open>
  \<open>nt_closed\<close> is what was sent to \<open>tx_closed\<close>; \<open>nt_accepted\<close> and \<open>nt_shown\<close> record the ids
  appended to the queue and taken from it. \<open>nt_next\<close> numbers the objects.
\<close>

record notif_state =
  nt_text :: "glyph_cache option"
  nt_visible :: "toast list"
  nt_queue :: "notif list"
  nt_closed :: "u32 list"
  nt_accepted :: "u32 list"
  nt_shown :: "u32 list"
  nt_next :: nat
  nt_trace :: "notif_effect list"

record notif_env =
  ne_rast :: rasterizer
  ne_os :: shm_os

definition notif_initial :: "bool \<Rightarrow> notif_state" where
  "notif_initial fonts_found =
     \<lparr>nt_text = (if fonts_found then Some Map.empty else None), nt_visible = [], nt_queue = [], nt_closed = [],
      nt_accepted = [], nt_shown = [], nt_next = 0, nt_trace = []\<rparr>"

definition nt_emit :: "notif_effect \<Rightarrow> notif_state \<Rightarrow> notif_state" where
  "nt_emit e s = s\<lparr>nt_trace := nt_trace s @ [e]\<rparr>"

definition expiry :: "nat \<Rightarrow> notif \<Rightarrow> nat" where
  "expiry now n = now + max (unat (nf_timeout_ms n)) 1"

definition toast_margin :: "nat \<Rightarrow> i32" where
  "toast_margin k = i32_wrap (16 + i32_wrap (i32_wrap (int k) * (u32_as_i32 TOAST_H + 12)))"

definition show_next :: "nat \<Rightarrow> notif_state \<Rightarrow> notif_state" where
  "show_next now s =
     (case nt_queue s of
        [] \<Rightarrow> s
      | n # rest \<Rightarrow>
          (nt_emit (CreateToast (nt_next s) (toast_margin (length (nt_visible s)))) s)
            \<lparr>nt_queue := rest, nt_shown := nt_shown s @ [nf_id n], nt_next := nt_next s + 1,
             nt_visible := nt_visible s @
               [\<lparr>vt_notif = n, vt_layer = nt_next s, vt_buffer = None, vt_configured = False,
                 vt_width = TOAST_W, vt_height = TOAST_H, vt_expires = expiry now n\<rparr>]\<rparr>)"

function pump_visible :: "nat \<Rightarrow> notif_state \<Rightarrow> notif_state" where
  "pump_visible now s =
     (if length (nt_visible s) < MAX_VISIBLE \<and> nt_queue s \<noteq> [] then pump_visible now (show_next now s) else s)"
  by auto
termination
  by (relation "measure (\<lambda>(now, s). length (nt_queue s))") (auto simp: show_next_def nt_emit_def neq_Nil_conv)

declare pump_visible.simps [simp del]

definition enqueue :: "nat \<Rightarrow> notif \<Rightarrow> notif_state \<Rightarrow> notif_state" where
  "enqueue now n s =
     (case position (\<lambda>v. nf_id (vt_notif v) = nf_id n) (nt_visible s) of
        Some i \<Rightarrow> s\<lparr>nt_visible := (nt_visible s)[i :=
          (nt_visible s ! i)\<lparr>vt_notif := n, vt_expires := expiry now n, vt_buffer := None\<rparr>]\<rparr>
      | None \<Rightarrow> pump_visible now (s\<lparr>nt_queue := nt_queue s @ [n], nt_accepted := nt_accepted s @ [nf_id n]\<rparr>))"

definition toast_pool :: "notif_env \<Rightarrow> nat \<Rightarrow> toast \<Rightarrow> wl_client_error + shm_pool" where
  "toast_pool env k t =
     (case vt_buffer t of Some p \<Rightarrow> Inr p | None \<Rightarrow> pool_new (ne_os env) k (vt_width t) (vt_height t))"

definition toast_redraw :: "notif_env \<Rightarrow> nat \<Rightarrow> notif_state \<Rightarrow> notif_state option" where
  "toast_redraw env i s =
     (if \<not> i < length (nt_visible s) then Some s
      else let t = nt_visible s ! i in
        if \<not> vt_configured t then Some s
        else case toast_pool env (nt_next s) t of
          Inl e \<Rightarrow> Some (s\<lparr>nt_next := nt_next s + 2\<rparr>)
        | Inr p \<Rightarrow>
            map_option (\<lambda>((p', c'), r).
                let s1 = s\<lparr>nt_visible := (nt_visible s)[i := t\<lparr>vt_buffer := Some p'\<rparr>], nt_text := c',
                           nt_next := nt_next s + 2\<rparr> in
                case r of
                  Inl e \<Rightarrow> s1
                | Inr d \<Rightarrow> nt_emit (CommitToast (vt_layer t) (db_object d) (db_w d) (db_h d)) s1)
              (pool_draw (ne_os env) (toast_paint (ne_rast env) (vt_notif t)) (p, nt_text s)))"

text \<open>\<open>retain\<close> visits the toasts in order; the ids of those it drops are sent afterwards.\<close>

definition tick_timeouts :: "nat \<Rightarrow> notif_state \<Rightarrow> notif_state" where
  "tick_timeouts now s =
     s\<lparr>nt_visible := filter (\<lambda>t. now < vt_expires t) (nt_visible s),
       nt_closed := nt_closed s @ map (\<lambda>t. nf_id (vt_notif t)) (filter (\<lambda>t. vt_expires t \<le> now) (nt_visible s))\<rparr>"

text \<open>Removing the toast of an index and sending its id.\<close>

definition close_at :: "nat \<Rightarrow> notif_state \<Rightarrow> notif_state" where
  "close_at i s =
     s\<lparr>nt_visible := take i (nt_visible s) @ drop (i + 1) (nt_visible s),
       nt_closed := nt_closed s @ [nf_id (vt_notif (nt_visible s ! i))]\<rparr>"

definition receive_notif :: "nat \<Rightarrow> notif \<Rightarrow> notif_state \<Rightarrow> notif_state" where
  "receive_notif now n s =
     (if is_close n
      then case position (\<lambda>t. nf_id (vt_notif t) = nf_id n) (nt_visible s) of
          Some i \<Rightarrow> close_at i s
        | None \<Rightarrow> s
      else enqueue now n s)"

datatype toast_event =
    ToastConfigure nat u32
  | ToastClosed nat
  | ToastRelease nat nat

definition toast_dispatch :: "notif_env \<Rightarrow> toast_event \<Rightarrow> notif_state \<Rightarrow> notif_state option" where
  "toast_dispatch env ev s =
     (case ev of
        ToastConfigure layer serial \<Rightarrow>
          (let s1 = nt_emit (AckToast layer serial) s in
           case position (\<lambda>t. vt_layer t = layer) (nt_visible s1) of
             None \<Rightarrow> Some s1
           | Some i \<Rightarrow>
               toast_redraw env i (s1\<lparr>nt_visible := (nt_visible s1)[i := (nt_visible s1 ! i)\<lparr>vt_configured := True\<rparr>]\<rparr>))
      | ToastClosed layer \<Rightarrow>
          Some (case position (\<lambda>t. vt_layer t = layer) (nt_visible s) of None \<Rightarrow> s | Some i \<Rightarrow> close_at i s)
      | ToastRelease layer obj \<Rightarrow>
          Some (s\<lparr>nt_visible := map (\<lambda>t. if vt_layer t = layer
             then t\<lparr>vt_buffer := map_option (mark_released obj) (vt_buffer t)\<rparr> else t) (nt_visible s)\<rparr>))"

text \<open>
  A turn of the loop: the messages received, each with the time it is handled at, the events that
  were already read from the connection, and the time of the tick. \<open>dispatch_pending\<close> does not
  read the connection.
\<close>

record notif_turn =
  tn_messages :: "(nat \<times> notif) list"
  tn_events :: "toast_event list"
  tn_now :: nat

definition notif_turn :: "notif_env \<Rightarrow> notif_turn \<Rightarrow> notif_state \<Rightarrow> notif_state option" where
  "notif_turn env tn = steps
     [\<lambda>s. Some (fold (\<lambda>(now, n). receive_notif now n) (tn_messages tn) s),
      each (tn_events tn) (toast_dispatch env),
      \<lambda>s. Some (tick_timeouts (tn_now tn) s)]"

definition notif_run :: "notif_env \<Rightarrow> bool \<Rightarrow> notif_turn list \<Rightarrow> notif_state option" where
  "notif_run env fonts_found turns = each turns (notif_turn env) (notif_initial fonts_found)"

section \<open>The invariant\<close>

definition toast_ok :: "toast \<Rightarrow> bool" where
  "toast_ok t \<longleftrightarrow> dims_ok (vt_width t) (vt_height t) \<and> (\<forall>p. vt_buffer t = Some p \<longrightarrow> pool_ok p)"

definition visible_ids :: "notif_state \<Rightarrow> u32 list" where
  "visible_ids s = map (\<lambda>t. nf_id (vt_notif t)) (nt_visible s)"

text \<open>
  Notifications leave the queue in the order they came, and each one that has been shown is still
  visible or its id has been sent once.
\<close>

definition notif_book :: "notif_state \<Rightarrow> bool" where
  "notif_book s \<longleftrightarrow> length (nt_visible s) \<le> MAX_VISIBLE \<and> nt_accepted s = nt_shown s @ map nf_id (nt_queue s) \<and>
     mset (nt_shown s) = mset (visible_ids s) + mset (nt_closed s)"

definition notif_inv :: "notif_env \<Rightarrow> notif_state \<Rightarrow> bool" where
  "notif_inv env s \<longleftrightarrow> rast_ok (ne_rast env) \<and> text_cache_ok (nt_text s) \<and>
     (\<forall>t \<in> set (nt_visible s). toast_ok t) \<and> notif_book s"

lemma notif_inv_emit: "notif_inv env s \<Longrightarrow> notif_inv env (nt_emit e s)"
  by (simp add: notif_inv_def notif_book_def visible_ids_def nt_emit_def)

lemma show_next_inv:
  "notif_inv env s \<Longrightarrow> length (nt_visible s) < MAX_VISIBLE \<Longrightarrow> notif_inv env (show_next now s)"
  by (auto simp: show_next_def notif_inv_def notif_book_def visible_ids_def nt_emit_def toast_ok_def dims_ok_def
      TOAST_W_def split: list.split)

lemma pump_visible_inv: "notif_inv env s \<Longrightarrow> notif_inv env (pump_visible now s)"
proof (induction now s rule: pump_visible.induct)
  case (1 now s)
  then show ?case by (subst pump_visible.simps) (auto intro: show_next_inv)
qed

lemma toast_update:
  assumes "notif_inv env s" and "i < length (nt_visible s)" and "toast_ok t"
    and "nf_id (vt_notif t) = nf_id (vt_notif (nt_visible s ! i))"
  shows "notif_inv env (s\<lparr>nt_visible := (nt_visible s)[i := t]\<rparr>)"
proof -
  have "visible_ids (s\<lparr>nt_visible := (nt_visible s)[i := t]\<rparr>) = visible_ids s"
    using assms(2,4) by (simp add: visible_ids_def map_update) (metis list_update_id map_update nth_map)
  with assms show ?thesis
    by (auto simp: notif_inv_def notif_book_def dest!: set_update_subset_insert [THEN subsetD])
qed

lemma enqueue_inv:
  assumes "notif_inv env s"
  shows "notif_inv env (enqueue now n s)"
proof (cases "position (\<lambda>v. nf_id (vt_notif v) = nf_id n) (nt_visible s)")
  case None
  have "notif_inv env (s\<lparr>nt_queue := nt_queue s @ [n], nt_accepted := nt_accepted s @ [nf_id n]\<rparr>)"
    using assms by (simp add: notif_inv_def notif_book_def visible_ids_def)
  with None show ?thesis by (simp add: enqueue_def pump_visible_inv)
next
  case (Some i)
  then have i: "i < length (nt_visible s)" "nf_id (vt_notif (nt_visible s ! i)) = nf_id n"
    by (auto dest: position_Some)
  then have "toast_ok (nt_visible s ! i)" using assms nth_mem by (fastforce simp: notif_inv_def)
  then show ?thesis using toast_update [OF assms i(1)] i(2) Some by (simp add: enqueue_def toast_ok_def)
qed

lemma close_at_inv:
  assumes "notif_inv env s" and "i < length (nt_visible s)"
  shows "notif_inv env (close_at i s)"
proof -
  let ?f = "\<lambda>t. nf_id (vt_notif t)"
  have "nt_visible s = take i (nt_visible s) @ nt_visible s ! i # drop (i + 1) (nt_visible s)"
    using assms(2) by (simp add: id_take_nth_drop)
  then have "mset (visible_ids s) = add_mset (?f (nt_visible s ! i)) (mset (visible_ids (close_at i s)))"
    by (simp add: visible_ids_def close_at_def)
       (metis (no_types, lifting) list.simps(9) map_append mset.simps(2) mset_append union_mset_add_mset_right mset_map)
  moreover have "set (nt_visible (close_at i s)) \<subseteq> set (nt_visible s)"
    by (auto simp: close_at_def dest: in_set_takeD in_set_dropD)
  ultimately show ?thesis using assms by (auto simp: notif_inv_def notif_book_def close_at_def)
qed

lemma receive_notif_inv: "notif_inv env s \<Longrightarrow> notif_inv env (receive_notif now n s)"
  by (auto simp: receive_notif_def enqueue_inv close_at_inv dest: position_Some split: option.split)

lemma mset_map_partition: "mset (map f (filter P xs)) + mset (map f (filter (\<lambda>x. \<not> P x) xs)) = mset (map f xs)"
  by (induction xs) auto

lemma tick_timeouts_inv:
  assumes "notif_inv env s"
  shows "notif_inv env (tick_timeouts now s)"
proof -
  have "mset (visible_ids s) = mset (visible_ids (tick_timeouts now s)) +
      mset (map (\<lambda>t. nf_id (vt_notif t)) (filter (\<lambda>t. vt_expires t \<le> now) (nt_visible s)))"
    using mset_map_partition [of "\<lambda>t. nf_id (vt_notif t)" "\<lambda>t. now < vt_expires t" "nt_visible s"]
    by (simp add: visible_ids_def tick_timeouts_def not_less)
  moreover have "length (filter (\<lambda>t. now < vt_expires t) (nt_visible s)) \<le> MAX_VISIBLE"
    using assms by (auto simp: notif_inv_def notif_book_def intro: order_trans [OF length_filter_le])
  ultimately show ?thesis using assms by (auto simp: notif_inv_def notif_book_def tick_timeouts_def)
qed

lemma toast_pool_ok: "toast_ok t \<Longrightarrow> toast_pool env k t = Inr p \<Longrightarrow> pool_ok p"
  by (auto simp: toast_pool_def toast_ok_def pool_new_ok split: option.splits)

lemma toast_redraw_inv: "keeps (notif_inv env) (toast_redraw env i)"
proof (rule keepsI)
  fix s assume inv: "notif_inv env s"
  let ?t = "nt_visible s ! i"
  have other: "notif_inv env (s\<lparr>nt_next := n\<rparr>)" for n
    using inv by (simp add: notif_inv_def notif_book_def visible_ids_def)
  show "\<exists>s'. toast_redraw env i s = Some s' \<and> notif_inv env s'"
  proof (cases "i < length (nt_visible s) \<and> vt_configured ?t")
    case False
    with inv show ?thesis by (auto simp: toast_redraw_def Let_def)
  next
    case True
    with inv have t: "toast_ok ?t" "text_cache_ok (nt_text s)" "rast_ok (ne_rast env)"
      by (auto simp: notif_inv_def)
    show ?thesis
    proof (cases "toast_pool env (nt_next s) ?t")
      case (Inl e)
      with True other show ?thesis by (auto simp: toast_redraw_def Let_def)
    next
      case (Inr p)
      from toast_painter.draw_ok [OF t(3) toast_pool_ok [OF t(1) Inr] t(2), of "ne_os env" "vt_notif ?t"]
      obtain p' c' r where d: "pool_draw (ne_os env) (toast_paint (ne_rast env) (vt_notif ?t)) (p, nt_text s) =
          Some ((p', c'), r)" "pool_ok p'" "text_cache_ok c'" by blast
      have "notif_inv env (s\<lparr>nt_visible := (nt_visible s)[i := ?t\<lparr>vt_buffer := Some p'\<rparr>]\<rparr>)"
        using True t(1) d(2) by (intro toast_update [OF inv]) (simp_all add: toast_ok_def)
      then have "notif_inv env (s\<lparr>nt_visible := (nt_visible s)[i := ?t\<lparr>vt_buffer := Some p'\<rparr>], nt_text := c',
          nt_next := nt_next s + 2\<rparr>)"
        using d(3) by (simp add: notif_inv_def notif_book_def visible_ids_def)
      with True Inr d(1) notif_inv_emit show ?thesis
        by (cases r) (simp_all add: toast_redraw_def Let_def)
    qed
  qed
qed

lemma toast_dispatch_inv: "keeps (notif_inv env) (toast_dispatch env ev)"
proof (rule keepsI)
  fix s assume inv: "notif_inv env s"
  show "\<exists>s'. toast_dispatch env ev s = Some s' \<and> notif_inv env s'"
  proof (cases ev)
    case (ToastConfigure layer serial)
    let ?s = "nt_emit (AckToast layer serial) s"
    have inv1: "notif_inv env ?s" by (rule notif_inv_emit [OF inv])
    have "notif_inv env (?s\<lparr>nt_visible := (nt_visible ?s)[i := (nt_visible ?s ! i)\<lparr>vt_configured := True\<rparr>]\<rparr>)"
      if "i < length (nt_visible ?s)" for i
      using inv1 that nth_mem [OF that] by (intro toast_update [OF inv1 that]) (auto simp: notif_inv_def toast_ok_def)
    with ToastConfigure inv1 keepsD [OF toast_redraw_inv] show ?thesis
      by (auto simp: toast_dispatch_def Let_def dest: position_Some split: option.split)
  next
    case (ToastClosed layer)
    with inv close_at_inv show ?thesis
      by (auto simp: toast_dispatch_def dest: position_Some split: option.split)
  next
    case (ToastRelease layer obj)
    let ?f = "\<lambda>t. if vt_layer t = layer then t\<lparr>vt_buffer := map_option (mark_released obj) (vt_buffer t)\<rparr> else t"
    have "visible_ids (s\<lparr>nt_visible := map ?f (nt_visible s)\<rparr>) = visible_ids s"
      by (auto simp: visible_ids_def)
    with ToastRelease inv show ?thesis
      by (auto simp: toast_dispatch_def notif_inv_def notif_book_def toast_ok_def mark_released_ok)
  qed
qed

lemma notif_turn_inv: "keeps (notif_inv env) (notif_turn env tn)"
proof -
  have "notif_inv env (fold (\<lambda>(now, n). receive_notif now n) ms s)" if "notif_inv env s" for ms s
    using that by (induction ms arbitrary: s) (auto simp: receive_notif_inv)
  then show ?thesis
    unfolding notif_turn_def by (intro keeping toast_dispatch_inv tick_timeouts_inv)
qed

lemma notif_initial_inv: "rast_ok (ne_rast env) \<Longrightarrow> notif_inv env (notif_initial f)"
  by (simp add: notif_inv_def notif_initial_def notif_book_def visible_ids_def text_cache_ok_def cache_ok_def)

section \<open>Properties\<close>

text \<open>
  C24: no notification is lost and none is closed twice. The daemon never panics and shows at most
  five toasts; the notifications leave the queue in the order they came; and those that were
  shown are, with multiplicity, the visible ones and the ones whose closing was signalled.
\<close>

theorem notif_conserves:
  assumes "rast_ok (ne_rast env)"
  shows "\<exists>s. notif_run env f turns = Some s \<and> length (nt_visible s) \<le> 5 \<and>
    nt_accepted s = nt_shown s @ map nf_id (nt_queue s) \<and>
    mset (nt_shown s) = mset (visible_ids s) + mset (nt_closed s)"
proof -
  have "keeps (notif_inv env) (each turns (notif_turn env))" by (intro keeping notif_turn_inv)
  from keepsD [OF this notif_initial_inv [OF assms]] show ?thesis
    by (auto simp: notif_run_def notif_inv_def notif_book_def MAX_VISIBLE_def)
qed

definition busy_turn :: notif_turn where
  "busy_turn = \<lparr>tn_messages = map (\<lambda>k. (0, (close_for k)\<lparr>nf_summary := [65]\<rparr>)) [1, 2, 3, 4, 5, 6],
     tn_events = [], tn_now = 50\<rparr>"

definition notif_example_env :: notif_env where
  "notif_example_env = \<lparr>ne_rast = box_rasterizer, ne_os = kind_os\<rparr>"

lemma notif_example_ok: "rast_ok (ne_rast notif_example_env)"
  by (simp add: notif_example_env_def rast_ok_def glyph_ok_def box_rasterizer_def)

text \<open>Six notifications of one millisecond: five are shown and expire, the sixth stays queued.\<close>

lemma busy_run:
  "notif_run notif_example_env False [busy_turn] =
     Some \<lparr>nt_text = None, nt_visible = [], nt_queue = [(close_for 6)\<lparr>nf_summary := [65]\<rparr>], nt_closed = [1, 2, 3, 4, 5],
       nt_accepted = [1, 2, 3, 4, 5, 6], nt_shown = [1, 2, 3, 4, 5], nt_next = 5,
       nt_trace = map (\<lambda>k. CreateToast k (16 + int k * 100)) [0, 1, 2, 3, 4]\<rparr>"
  by (simp add: notif_run_def each_def steps_def notif_turn_def busy_turn_def notif_initial_def receive_notif_def
      is_close_def close_for_def enqueue_def pump_visible.simps MAX_VISIBLE_def show_next_def nt_emit_def
      expiry_def toast_margin_def TOAST_H_def i32_arith i32_min_def i32_max_def tick_timeouts_def u32_as_i32_small)

theorem notif_conserves_witness:
  "\<exists>s. notif_run notif_example_env False [busy_turn] = Some s \<and> nt_closed s = [1, 2, 3, 4, 5] \<and>
     mset (nt_shown s) = mset (nt_closed s)"
  using notif_conserves [OF notif_example_ok, of False "[busy_turn]"] busy_run by auto

text \<open>Events and ticks do not touch the queue.\<close>

lemma toast_redraw_queue: "toast_redraw env i s = Some s' \<Longrightarrow> nt_queue s' = nt_queue s \<and> nt_shown s' = nt_shown s"
proof -
  assume r: "toast_redraw env i s = Some s'"
  let ?t = "nt_visible s ! i"
  show ?thesis
  proof (cases "i < length (nt_visible s) \<and> vt_configured ?t \<and> (\<exists>p. toast_pool env (nt_next s) ?t = Inr p)")
    case True
    then obtain p where p: "toast_pool env (nt_next s) ?t = Inr p" by blast
    with True r obtain X where "pool_draw (ne_os env) (toast_paint (ne_rast env) (vt_notif ?t)) (p, nt_text s) = Some X"
      by (auto simp: toast_redraw_def Let_def)
    moreover obtain p' c' e where "X = ((p', c'), e)" by (metis prod.exhaust)
    ultimately show ?thesis
      using True p r by (cases e) (auto simp: toast_redraw_def Let_def nt_emit_def)
  next
    case False
    with r show ?thesis
      by (cases "toast_pool env (nt_next s) ?t") (auto simp: toast_redraw_def Let_def split: if_splits)
  qed
qed

lemma toast_dispatch_queue:
  "toast_dispatch env ev s = Some s' \<Longrightarrow> nt_queue s' = nt_queue s \<and> nt_shown s' = nt_shown s"
  by (auto simp: toast_dispatch_def Let_def nt_emit_def close_at_def dest!: toast_redraw_queue
      split: toast_event.splits option.splits)

lemma tick_timeouts_queue [simp]:
  "nt_queue (tick_timeouts now s) = nt_queue s" "nt_shown (tick_timeouts now s) = nt_shown s"
  by (simp_all add: tick_timeouts_def)

lemma silent_turn_queue:
  assumes "tn_messages tn = []"
  shows "keeps (\<lambda>s. notif_inv env s \<and> nt_queue s = q \<and> nt_shown s = r) (notif_turn env tn)"
  unfolding notif_turn_def using assms
  by (intro keeping keeps_and toast_dispatch_inv) (auto simp: toast_dispatch_queue tick_timeouts_inv)

text \<open>
  C31: a queued notification waits for the next one. Expiry and closing make room but do not show
  what is queued: as long as no message arrives the queue stays as it is, even when no toast is
  visible any more.
\<close>

theorem queued_notifications_starve:
  assumes "rast_ok (ne_rast env)" and "notif_run env f turns = Some s" and "\<forall>tn \<in> set later. tn_messages tn = []"
  shows "\<exists>s'. notif_run env f (turns @ later) = Some s' \<and> nt_queue s' = nt_queue s \<and> nt_shown s' = nt_shown s"
proof -
  have "keeps (notif_inv env) (each turns (notif_turn env))" by (intro keeping notif_turn_inv)
  from keepsD [OF this notif_initial_inv [OF assms(1), of f]] assms(2) have inv: "notif_inv env s"
    by (auto simp: notif_run_def)
  have "keeps (\<lambda>t. notif_inv env t \<and> nt_queue t = nt_queue s \<and> nt_shown t = nt_shown s) (each later (notif_turn env))"
    using assms(3) by (intro keeping silent_turn_queue) auto
  from keepsD [OF this, of s] inv assms(2) show ?thesis
    by (auto simp: notif_run_def each_def fold_opt_append)
qed

text \<open>The sixth of six notifications is still queued when the five that were shown have expired.\<close>

theorem queued_notifications_starve_witness:
  "\<exists>s s'. notif_run notif_example_env False [busy_turn] = Some s \<and> nt_visible s = [] \<and> map nf_id (nt_queue s) = [6] \<and>
     notif_run notif_example_env False ([busy_turn] @ [\<lparr>tn_messages = [], tn_events = [ToastClosed 0], tn_now = 9000\<rparr>]) = Some s' \<and>
     map nf_id (nt_queue s') = [6]"
  using queued_notifications_starve [OF notif_example_ok busy_run, of "[\<lparr>tn_messages = [], tn_events = [ToastClosed 0], tn_now = 9000\<rparr>]"]
  by (auto simp: busy_run close_for_def)

text \<open>
  How long a toast lives. A notification that comes when there is room is shown at once, and a
  tick removes it and signals its id exactly when its timeout has passed; a timeout of 0, which
  stands for a sticky notification, ends after one millisecond.
\<close>

lemma toast_lives_for_its_timeout:
  assumes "\<not> is_close n" and "nf_id n \<notin> set (visible_ids s)" and "nt_queue s = []" "length (nt_visible s) < 5"
  shows "let s1 = receive_notif now n s; s2 = tick_timeouts later s1 in
    visible_ids s1 = visible_ids s @ [nf_id n] \<and>
    (nf_id n \<in> set (visible_ids s2) \<longleftrightarrow> later < now + max (unat (nf_timeout_ms n)) 1) \<and>
    (nf_timeout_ms n = 0 \<and> now < later \<longrightarrow> nf_id n \<notin> set (visible_ids s2) \<and> nf_id n \<in> set (nt_closed s2))"
proof -
  have none: "position (\<lambda>v. nf_id (vt_notif v) = nf_id n) (nt_visible s) = None"
    using assms(2) by (auto simp: position_None visible_ids_def image_iff)
  let ?t = "\<lparr>vt_notif = n, vt_layer = nt_next s, vt_buffer = None, vt_configured = False,
     vt_width = TOAST_W, vt_height = TOAST_H, vt_expires = expiry now n\<rparr>"
  have "nt_visible (receive_notif now n s) = nt_visible s @ [?t]"
    using assms(1,3,4) none
    by (simp add: receive_notif_def enqueue_def pump_visible.simps MAX_VISIBLE_def show_next_def nt_emit_def)
  then have ids: "visible_ids (receive_notif now n s) = visible_ids s @ [nf_id n]"
    and kept: "nt_visible (tick_timeouts later (receive_notif now n s)) =
      filter (\<lambda>t. later < vt_expires t) (nt_visible s) @ (if later < expiry now n then [?t] else [])"
    and gone: "\<not> later < expiry now n \<longrightarrow> nf_id n \<in> set (nt_closed (tick_timeouts later (receive_notif now n s)))"
    by (simp_all add: visible_ids_def tick_timeouts_def)
  have "nf_id n \<notin> (\<lambda>t. nf_id (vt_notif t)) ` set (filter (\<lambda>t. later < vt_expires t) (nt_visible s))"
    using assms(2) by (auto simp: visible_ids_def)
  with kept have vis: "nf_id n \<in> set (visible_ids (tick_timeouts later (receive_notif now n s))) \<longleftrightarrow> later < expiry now n"
    unfolding visible_ids_def kept by (simp add: image_iff)
  have "nf_timeout_ms n = 0 \<and> now < later \<longrightarrow> \<not> later < expiry now n" by (simp add: expiry_def)
  with ids vis gone show ?thesis unfolding Let_def expiry_def by blast
qed

end
