(* ===== verification/Notif_Loop.thy ===== *)
theory Notif_Loop
  imports Notif
begin

text \<open>
  The loop of the notification daemon's wayland thread together with its connection
  (\<open>crates/nx-notif/src/surface.rs\<close>, \<open>wayland_thread\<close>): which events reach the handlers, and what becomes of the toasts.
\<close>

section \<open>The connection\<close>

text \<open>
  A connection of \<open>wayland_client\<close> has the bytes that wait in its socket, here as the events they hold, and the queue
  of events already read. \<open>dispatch_pending\<close> is documented to hand out the queue only; reading the socket is the
  business of \<open>prepare_read\<close>, \<open>blocking_dispatch\<close> and \<open>roundtrip\<close>.
\<close>

record connection =
  cn_socket :: "toast_event list"
  cn_queue :: "toast_event list"

definition connection_new :: connection where
  "connection_new = \<lparr>cn_socket = [], cn_queue = []\<rparr>"

definition arrive :: "toast_event list \<Rightarrow> connection \<Rightarrow> connection" where
  "arrive evs c = c\<lparr>cn_socket := cn_socket c @ evs\<rparr>"

definition dispatch_pending :: "connection \<Rightarrow> toast_event list \<times> connection" where
  "dispatch_pending c = (cn_queue c, c\<lparr>cn_queue := []\<rparr>)"

section \<open>The loop\<close>

text \<open>
  What happens around a turn: the messages with the time each is handled at, the events the compositor sends
  meanwhile, and the time of the tick. The turn drains the messages, dispatches what is pending, sleeps and ticks.
\<close>

record loop_input =
  li_messages :: "(nat \<times> notif) list"
  li_arrivals :: "toast_event list"
  li_now :: nat

definition notif_loop_turn ::
  "notif_env \<Rightarrow> loop_input \<Rightarrow> connection \<times> notif_state \<Rightarrow> (connection \<times> notif_state) option" where
  "notif_loop_turn env i = (\<lambda>(c, s).
     let (evs, c') = dispatch_pending (arrive (li_arrivals i) c) in
     map_option (\<lambda>s'. (c', s')) (notif_turn env \<lparr>tn_messages = li_messages i, tn_events = evs, tn_now = li_now i\<rparr> s))"

definition notif_loop :: "notif_env \<Rightarrow> bool \<Rightarrow> loop_input list \<Rightarrow> (connection \<times> notif_state) option" where
  "notif_loop env fonts_found is = each is (notif_loop_turn env) (connection_new, notif_initial fonts_found)"

section \<open>What every turn keeps\<close>

text \<open>
  No toast has been configured, none has a buffer, and each has the size of a toast; the trace holds creations only.
\<close>

definition blank_toast :: "toast \<Rightarrow> bool" where
  "blank_toast t \<longleftrightarrow> \<not> vt_configured t \<and> vt_buffer t = None \<and> vt_width t = TOAST_W \<and> vt_height t = TOAST_H"

definition blank :: "notif_state \<Rightarrow> bool" where
  "blank s \<longleftrightarrow> (\<forall>e \<in> set (nt_trace s). \<exists>layer margin. e = CreateToast layer margin) \<and>
     (\<forall>t \<in> set (nt_visible s). blank_toast t)"

lemma pump_visible_blank: "blank s \<Longrightarrow> blank (pump_visible now s)"
proof (induction now s rule: pump_visible.induct)
  case (1 now s)
  have "blank (show_next now s)"
    using 1(2) by (auto simp: blank_def blank_toast_def show_next_def nt_emit_def split: list.split)
  with 1 show ?case by (subst pump_visible.simps) simp
qed

lemma receive_notif_blank: "blank s \<Longrightarrow> blank (receive_notif now n s)"
proof -
  assume b: "blank s"
  then have "blank (s\<lparr>nt_queue := q, nt_accepted := a\<rparr>)" for q a by (simp add: blank_def)
  moreover have "blank (s\<lparr>nt_visible := (nt_visible s)[i := (nt_visible s ! i)\<lparr>vt_notif := m, vt_expires := x, vt_buffer := None\<rparr>]\<rparr>)"
    if "i < length (nt_visible s)" for i m x
    using b nth_mem [OF that]
    by (auto simp: blank_def blank_toast_def dest!: set_update_subset_insert [THEN subsetD])
  moreover have "blank (close_at i s)" for i
    using b by (auto simp: blank_def close_at_def dest: in_set_takeD in_set_dropD)
  ultimately show ?thesis
    using b by (auto simp: receive_notif_def enqueue_def intro: pump_visible_blank dest: position_Some split: option.split)
qed

lemma quiet_turn_blank:
  assumes "tn_events tn = []"
  shows "keeps (\<lambda>s. notif_inv env s \<and> blank s) (notif_turn env tn)"
proof (rule keeps_and [OF notif_turn_inv])
  fix s s' assume t: "notif_turn env tn s = Some s'" and b: "blank s"
  have "blank (fold (\<lambda>(now, n). receive_notif now n) ms s)" for ms
    using b by (induction ms arbitrary: s) (auto simp: receive_notif_blank)
  with t assms show "blank s'"
    by (auto simp: notif_turn_def steps_def each_def tick_timeouts_def blank_def)
qed

text \<open>A turn takes the empty queue and leaves it empty; the arrivals stay in the socket.\<close>

lemma notif_loop_turn_blank:
  assumes "cn_queue c = []" and "notif_inv env s" and "blank s"
  shows "\<exists>s'. notif_loop_turn env i (c, s) = Some (c\<lparr>cn_socket := cn_socket c @ li_arrivals i\<rparr>, s') \<and>
    notif_inv env s' \<and> blank s'"
proof -
  let ?tn = "\<lparr>tn_messages = li_messages i, tn_events = [], tn_now = li_now i\<rparr>"
  have "tn_events ?tn = []" by simp
  from keepsD [OF quiet_turn_blank [OF this], of env s] assms obtain s' where
    "notif_turn env ?tn s = Some s'" "notif_inv env s'" "blank s'" by auto
  with assms(1) show ?thesis by (simp add: notif_loop_turn_def dispatch_pending_def arrive_def)
qed

lemma notif_loop_blank:
  assumes "cn_queue c = []" and "notif_inv env s" and "blank s"
  shows "\<exists>s'. each is (notif_loop_turn env) (c, s) =
      Some (c\<lparr>cn_socket := cn_socket c @ concat (map li_arrivals is)\<rparr>, s') \<and> notif_inv env s' \<and> blank s'"
  using assms
proof (induction "is" arbitrary: c s)
  case (Cons i "is")
  from notif_loop_turn_blank [OF Cons.prems] obtain s1 where
    "notif_loop_turn env i (c, s) = Some (c\<lparr>cn_socket := cn_socket c @ li_arrivals i\<rparr>, s1)" "notif_inv env s1" "blank s1"
    by blast
  with Cons.IH [of "c\<lparr>cn_socket := cn_socket c @ li_arrivals i\<rparr>" s1] Cons.prems(1) show ?case
    by (simp add: each_def)
qed (simp add: each_def)

section \<open>What an event would do\<close>

text \<open>The first buffer of a new pool is free.\<close>

lemma pool_new_first:
  assumes "pool_new os k w h = Inr p"
  shows "find_free_or_grow os p = (p, Inr 0) \<and> sp_buffers p \<noteq> [] \<and> sb_object (sp_buffers p ! 0) = k"
  using assms
  by (auto simp: pool_new_def allocate_two_def allocate_one_def MAX_BUFFERS_def find_free_or_grow_def Let_def
      split: sum.splits if_splits prod.splits)

lemma pool_new_draw:
  assumes "pool_new os k w h = Inr p" and "pool_draw os paint (p, c) = Some (x, r)"
  shows "\<exists>d. r = Inr d \<and> db_object d = k"
  using assms pool_new_first [OF assms(1)] by (auto simp: pool_draw_def Let_def)

lemma toast_dims_ok: "dims_ok TOAST_W TOAST_H"
  by (simp add: dims_ok_def TOAST_W_def)

text \<open>
  A configure event acknowledges, and commits the toast's first buffer at the toast's size, when the two
  buffers can be allocated.
\<close>

lemma configure_paints:
  assumes "notif_inv env s" and "blank s" and "t \<in> set (nt_visible s)"
  shows "\<exists>s'. toast_dispatch env (ToastConfigure (vt_layer t) serial) s = Some s' \<and>
    nt_trace s' = nt_trace s @ AckToast (vt_layer t) serial #
      (case pool_new (ne_os env) (nt_next s) TOAST_W TOAST_H of
         Inl e \<Rightarrow> [] | Inr p \<Rightarrow> [CommitToast (vt_layer t) (nt_next s) TOAST_W TOAST_H])"
proof -
  let ?s = "nt_emit (AckToast (vt_layer t) serial) s"
  obtain i where i: "position (\<lambda>t'. vt_layer t' = vt_layer t) (nt_visible s) = Some i"
    using assms(3) by (cases "position (\<lambda>t'. vt_layer t' = vt_layer t) (nt_visible s)") (auto simp: position_None)
  let ?t = "(nt_visible s ! i)\<lparr>vt_configured := True\<rparr>"
  from position_Some [OF i] have pos: "i < length (nt_visible s)" "vt_layer (nt_visible s ! i) = vt_layer t" by simp_all
  with assms(2) have b: "blank_toast (nt_visible s ! i)" by (simp add: blank_def)
  then have pool: "toast_pool env k ?t = pool_new (ne_os env) k TOAST_W TOAST_H" for k
    by (simp add: toast_pool_def blank_toast_def)
  have fields: "nt_visible ?s = nt_visible s" "nt_next ?s = nt_next s" "nt_text ?s = nt_text s"
    "nt_trace ?s = nt_trace s @ [AckToast (vt_layer t) serial]" by (simp_all add: nt_emit_def)
  define u where "u = ?s\<lparr>nt_visible := (nt_visible s)[i := ?t]\<rparr>"
  have u: "nt_visible u ! i = ?t" "i < length (nt_visible u)" "nt_next u = nt_next s" "nt_text u = nt_text s"
    "nt_trace u = nt_trace s @ [AckToast (vt_layer t) serial]" using pos(1) by (simp_all add: u_def fields)
  have d: "toast_dispatch env (ToastConfigure (vt_layer t) serial) s = toast_redraw env i u"
    by (simp add: toast_dispatch_def Let_def fields i u_def)
  show ?thesis
  proof (cases "pool_new (ne_os env) (nt_next s) TOAST_W TOAST_H")
    case (Inl e)
    then show ?thesis using u by (simp add: d toast_redraw_def Let_def pool)
  next
    case (Inr p)
    note p = pool_new_ok [OF toast_dims_ok Inr]
    have "rast_ok (ne_rast env)" "text_cache_ok (nt_text s)" using assms(1) by (simp_all add: notif_inv_def)
    from toast_painter.draw_ok [OF this(1) conjunct1 [OF p] this(2), of "ne_os env" "vt_notif ?t"] p
    obtain p' c' r where draw: "pool_draw (ne_os env) (toast_paint (ne_rast env) (vt_notif ?t)) (p, nt_text s) = Some ((p', c'), r)"
      and size: "\<forall>d. r = Inr d \<longrightarrow> db_w d = TOAST_W \<and> db_h d = TOAST_H" by auto
    obtain dr where "r = Inr dr" "db_object dr = nt_next s" using pool_new_draw [OF Inr draw] by blast
    with draw size u pos(2) Inr show ?thesis by (simp add: d toast_redraw_def Let_def pool nt_emit_def)
  qed
qed

section \<open>Property\<close>

text \<open>
  C30: no toast is ever painted, whatever the compositor sends. After any turns of the daemon's loop the
  requests were only those that create toasts, and every event that arrived is still unread. It is the reading that is
  missing, not the handling: each visible toast still waits for its configure event, and dispatching
  that event in the state the loop is in would acknowledge it and commit a buffer of 360 by 88 pixels, or only
  acknowledge it when the buffers cannot be allocated.
\<close>

theorem toasts_never_painted:
  assumes "rast_ok (ne_rast env)"
  shows "\<exists>s. notif_loop env f is = Some (\<lparr>cn_socket = concat (map li_arrivals is), cn_queue = []\<rparr>, s) \<and>
    (\<forall>e \<in> set (nt_trace s). \<exists>layer margin. e = CreateToast layer margin) \<and>
    (\<forall>t \<in> set (nt_visible s). \<forall>serial. \<exists>s'. toast_dispatch env (ToastConfigure (vt_layer t) serial) s = Some s' \<and>
      nt_trace s' = nt_trace s @ AckToast (vt_layer t) serial #
        (case pool_new (ne_os env) (nt_next s) 360 88 of
           Inl e \<Rightarrow> [] | Inr p \<Rightarrow> [CommitToast (vt_layer t) (nt_next s) 360 88]))"
proof -
  have "blank (notif_initial f)" by (simp add: blank_def notif_initial_def)
  from notif_loop_blank [OF _ notif_initial_inv [OF assms] this, of connection_new "is"] obtain s where
    s: "notif_loop env f is = Some (\<lparr>cn_socket = concat (map li_arrivals is), cn_queue = []\<rparr>, s)"
      "notif_inv env s" "blank s"
    by (auto simp: notif_loop_def connection_new_def)
  from configure_paints [OF s(2,3), unfolded TOAST_W_def TOAST_H_def] s(3) s(1) show ?thesis
    unfolding blank_def by blast
qed

text \<open>One notification is shown and its configure event arrives; the toast is still there and not painted.\<close>

theorem toasts_never_painted_witness:
  "\<exists>s. notif_loop notif_example_env False
      [\<lparr>li_messages = [(0, (close_for 7)\<lparr>nf_summary := [65], nf_timeout_ms := 5000\<rparr>)], li_arrivals = [], li_now = 50\<rparr>,
       \<lparr>li_messages = [], li_arrivals = [ToastConfigure 0 1], li_now = 100\<rparr>] =
      Some (\<lparr>cn_socket = [ToastConfigure 0 1], cn_queue = []\<rparr>, s) \<and>
     nt_trace s = [CreateToast 0 16] \<and>
     (\<exists>s'. toast_dispatch notif_example_env (ToastConfigure 0 1) s = Some s' \<and>
        nt_trace s' = [CreateToast 0 16, AckToast 0 1, CommitToast 0 1 360 88])"
proof -
  let ?is = "[\<lparr>li_messages = [(0, (close_for 7)\<lparr>nf_summary := [65], nf_timeout_ms := 5000\<rparr>)], li_arrivals = [], li_now = 50\<rparr>,
       \<lparr>li_messages = [], li_arrivals = [ToastConfigure 0 1], li_now = 100\<rparr>]"
  obtain s where s: "notif_loop notif_example_env False ?is = Some (\<lparr>cn_socket = [ToastConfigure 0 1], cn_queue = []\<rparr>, s)"
    and paints: "\<forall>t \<in> set (nt_visible s). \<forall>serial. \<exists>s'. toast_dispatch notif_example_env (ToastConfigure (vt_layer t) serial) s = Some s' \<and>
      nt_trace s' = nt_trace s @ AckToast (vt_layer t) serial #
        (case pool_new (ne_os notif_example_env) (nt_next s) 360 88 of
           Inl e \<Rightarrow> [] | Inr p \<Rightarrow> [CommitToast (vt_layer t) (nt_next s) 360 88])"
    using toasts_never_painted [OF notif_example_ok, of False ?is] by auto
  have run: "nt_trace s = [CreateToast 0 16]" "map vt_layer (nt_visible s) = [0]" "nt_next s = 1"
    using s
    by (auto simp: notif_loop_def each_def notif_loop_turn_def dispatch_pending_def arrive_def connection_new_def
        steps_def notif_turn_def notif_initial_def receive_notif_def is_close_def close_for_def enqueue_def pump_visible.simps
        MAX_VISIBLE_def show_next_def nt_emit_def expiry_def toast_margin_def tick_timeouts_def i32_wrap_def)
  have "\<exists>p. pool_new (ne_os notif_example_env) 1 360 88 = Inr p"
    by (simp add: pool_new_def allocate_two_def allocate_one_def MAX_BUFFERS_def create_shm_fd_def
        notif_example_env_def kind_os_def Let_def)
  with run paints show ?thesis using s by (fastforce simp: map_eq_Cons_conv)
qed

end
