(* ===== verification/Notif_Bus.thy ===== *)
theory Notif_Bus
  imports Notif Keymap
begin

text \<open>
  The other side of the notification daemon: its history file (\<open>crates/nx-notif/src/history.rs\<close>) and
  its D-Bus interface (\<open>dbus.rs\<close>). The JSON library, the clock and the results of the file operations
  are parameters; the file is a list of bytes.
\<close>

section \<open>The history\<close>

type_synonym bytes = "nat list"

record history_record =
  hr_id :: u32
  hr_app :: rstring
  hr_summary :: rstring
  hr_body :: rstring
  hr_urgency :: u8
  hr_received :: u64

definition HISTORY_CAP :: nat where "HISTORY_CAP = 1048576"

text \<open>
  \<open>h_file\<close> is the file at the path, if there is one, \<open>h_rotation\<close> the rotated one; \<open>h_detached\<close> says
  that the open descriptor still is the rotated file.
\<close>

record history =
  h_file :: "bytes option"
  h_rotation :: "bytes option"
  h_detached :: bool
  h_cached :: "history_record list"

record json_lib =
  js_to :: "history_record \<Rightarrow> rstring option"
  js_from :: "rstring \<Rightarrow> history_record option"

text \<open>
  The answers of the system: after how many bytes a write stops, whether the renaming, the reopening
  and the reading succeed, and after how many lines the replay stops.
\<close>

record history_io =
  hi_write :: "nat option"
  hi_rename :: bool
  hi_reopen :: bool
  hi_read :: bool
  hi_replay :: "nat option"

text \<open>\<open>BufRead::lines\<close>: the line ends at a newline, a carriage return before it is dropped.\<close>

definition strip_cr :: "bytes \<Rightarrow> bytes" where
  "strip_cr l = (if l \<noteq> [] \<and> last l = 13 then butlast l else l)"

fun byte_lines :: "bytes \<Rightarrow> bytes \<Rightarrow> bytes list" where
  "byte_lines acc [] = (if acc = [] then [] else [rev acc])"
| "byte_lines acc (b # bs) =
     (if b = 10 then strip_cr (rev acc) # byte_lines [] bs else byte_lines (b # acc) bs)"

text \<open>The lines that are valid UTF-8.\<close>

definition text_lines :: "bytes \<Rightarrow> rstring list" where
  "text_lines content = List.map_filter utf8_decode (byte_lines [] content)"

definition line_bytes :: "rstring \<Rightarrow> bytes" where
  "line_bytes l = utf8_encode l @ [10]"

definition unlines :: "rstring list \<Rightarrow> bytes" where
  "unlines ls = concat (map line_bytes ls)"

definition rotate :: "history_io \<Rightarrow> history \<Rightarrow> history \<times> bool" where
  "rotate io h =
     (case (hi_rename io, h_file h) of
        (True, Some content) \<Rightarrow>
          (let h1 = h\<lparr>h_rotation := Some content, h_file := None\<rparr> in
           if \<not> hi_reopen io then (h1\<lparr>h_detached := True\<rparr>, False)
           else let h2 = h1\<lparr>h_file := Some [], h_detached := False\<rparr> in
             if \<not> hi_read io then (h2, True)
             else let ls = last_n 256 (text_lines content) in
               case hi_replay io of
                 None \<Rightarrow> (h2\<lparr>h_file := Some (unlines ls)\<rparr>, True)
               | Some k \<Rightarrow> (h2\<lparr>h_file := Some (unlines (take k ls))\<rparr>, False))
      | _ \<Rightarrow> (h, False))"

definition write_bytes :: "bytes \<Rightarrow> history \<Rightarrow> history" where
  "write_bytes bs h =
     (if h_detached h then h\<lparr>h_rotation := map_option (\<lambda>c. c @ bs) (h_rotation h)\<rparr>
      else h\<lparr>h_file := map_option (\<lambda>c. c @ bs) (h_file h)\<rparr>)"

definition end_pos :: "history \<Rightarrow> nat" where
  "end_pos h = length (case (if h_detached h then h_rotation h else h_file h) of Some c \<Rightarrow> c | None \<Rightarrow> [])"

definition history_append :: "json_lib \<Rightarrow> history_io \<Rightarrow> history_record \<Rightarrow> history \<Rightarrow> history \<times> bool" where
  "history_append js io rec h =
     (let line = line_bytes (case js_to js rec of Some s \<Rightarrow> s | None \<Rightarrow> []) in
      case hi_write io of
        Some k \<Rightarrow> (write_bytes (take k line) h, False)
      | None \<Rightarrow>
          (let h1 = write_bytes line h;
               (h2, ok) = (if HISTORY_CAP < end_pos h1 then rotate io h1 else (h1, True)) in
           if ok then (h2\<lparr>h_cached := last_n 256 (h_cached h2 @ [rec])\<rparr>, True) else (h2, False)))"

definition load_records :: "json_lib \<Rightarrow> bytes \<Rightarrow> history_record list" where
  "load_records js content = last_n 256 (List.map_filter (js_from js) (text_lines content))"

definition open_or_create :: "json_lib \<Rightarrow> bool \<Rightarrow> bytes option \<Rightarrow> bytes option \<Rightarrow> history" where
  "open_or_create js readable file rotation =
     (let content = (case file of Some c \<Rightarrow> c | None \<Rightarrow> []) in
      \<lparr>h_file = Some content, h_rotation = rotation, h_detached = False,
       h_cached = (if readable then load_records js content else [])\<rparr>)"

definition state_dir :: "rstring option \<Rightarrow> rstring option \<Rightarrow> rstring" where
  "state_dir xdg_state_home home =
     (case xdg_state_home of
        Some p \<Rightarrow> path_join p (lit ''nullxes'')
      | None \<Rightarrow> (case home of Some d \<Rightarrow> path_join d (lit ''.local/state/nullxes'') | None \<Rightarrow> lit ''/tmp/nullxes''))"

fun urgency_byte :: "urgency \<Rightarrow> u8" where
  "urgency_byte Low = 0" | "urgency_byte Normal = 1" | "urgency_byte Critical = 2"

definition record_of :: "u64 \<Rightarrow> notif \<Rightarrow> history_record" where
  "record_of now n = \<lparr>hr_id = nf_id n, hr_app = nf_app_name n, hr_summary = nf_summary n, hr_body = nf_body n,
     hr_urgency = urgency_byte (nf_urgency n), hr_received = now\<rparr>"

section \<open>The bus interface\<close>

text \<open>\<open>nb_sent\<close> are the messages handed to the wayland thread.\<close>

record bus_state =
  nb_next_id :: u32
  nb_history :: history
  nb_sent :: "notif list"

definition server_new :: "history \<Rightarrow> bus_state" where
  "server_new h = \<lparr>nb_next_id = 1, nb_history = h, nb_sent = []\<rparr>"

record notify_args =
  na_app_name :: rstring
  na_replaces_id :: u32
  na_app_icon :: rstring
  na_summary :: rstring
  na_body :: rstring
  na_actions :: "rstring list"
  na_urgency_hint :: "u8 option"
  na_expire_timeout :: i32

definition take_id :: "u32 \<Rightarrow> bus_state \<Rightarrow> u32 \<times> bus_state" where
  "take_id replaces s =
     (if replaces \<noteq> 0 then (replaces, s)
      else (nb_next_id s, s\<lparr>nb_next_id := max (nb_next_id s + 1) 1\<rparr>))"

definition urgency_of :: "u8 option \<Rightarrow> urgency" where
  "urgency_of hint = (if hint = Some 0 then Low else if hint = Some 1 then Normal
     else if hint = Some 2 then Critical else Normal)"

definition notif_of :: "u32 \<Rightarrow> notify_args \<Rightarrow> notif" where
  "notif_of i a = \<lparr>nf_id = i, nf_app_name = na_app_name a, nf_app_icon = na_app_icon a, nf_summary = na_summary a,
     nf_body = na_body a, nf_actions = na_actions a, nf_urgency = urgency_of (na_urgency_hint a),
     nf_timeout_ms = (if na_expire_timeout a < 0 then 5000 else i32_as_u32 (na_expire_timeout a))\<rparr>"

definition send_wl :: "bool \<Rightarrow> notif \<Rightarrow> bus_state \<Rightarrow> bus_state" where
  "send_wl alive n s = (if alive then s\<lparr>nb_sent := nb_sent s @ [n]\<rparr> else s)"

definition notify :: "json_lib \<Rightarrow> history_io \<Rightarrow> u64 \<Rightarrow> bool \<Rightarrow> notify_args \<Rightarrow> bus_state \<Rightarrow> u32 \<times> bus_state" where
  "notify js io now alive a s =
     (let (i, s1) = take_id (na_replaces_id a) s;
          n = notif_of i a;
          s2 = s1\<lparr>nb_history := fst (history_append js io (record_of now n) (nb_history s1))\<rparr> in
      (i, send_wl alive n s2))"

definition close_notification :: "bool \<Rightarrow> u32 \<Rightarrow> bus_state \<Rightarrow> bus_state" where
  "close_notification alive i s = send_wl alive (close_for i) s"

text \<open>The relay turns closed ids into \<open>NotificationClosed(id, reason)\<close> signals until the channel closes.\<close>

datatype recv = RecvId u32 | RecvLagged nat | RecvClosed

fun relay :: "recv list \<Rightarrow> (u32 \<times> u32) list" where
  "relay [] = []"
| "relay (RecvId i # rs) = (i, 1) # relay rs"
| "relay (RecvLagged n # rs) = relay rs"
| "relay (RecvClosed # rs) = []"

section \<open>Identifiers\<close>

fun notify_all ::
  "json_lib \<Rightarrow> (history_io \<times> u64 \<times> bool \<times> notify_args) list \<Rightarrow> bus_state \<Rightarrow> u32 list \<times> bus_state" where
  "notify_all js [] s = ([], s)"
| "notify_all js ((io, now, alive, a) # calls) s =
     (let (i, s1) = notify js io now alive a s; (is, s2) = notify_all js calls s1 in (i # is, s2))"

definition fresh_id :: "nat \<Rightarrow> u32" where
  "fresh_id k = of_nat (1 + k mod (2 ^ 32 - 1))"

lemma unat_fresh_id: "unat (fresh_id k) = 1 + k mod (2 ^ 32 - 1)"
proof -
  have "k mod (2 ^ 32 - 1) < (2 ^ 32 - 1 :: nat)" by (rule mod_less_divisor) simp
  then have "1 + k mod (2 ^ 32 - 1) < (2 ^ LENGTH(32) :: nat)" by simp
  then show ?thesis unfolding fresh_id_def unat_of_nat by (rule mod_less)
qed

lemma fresh_id_Suc: "max (fresh_id k + 1) 1 = fresh_id (Suc k)"
proof (cases "k mod (2 ^ 32 - 1) = 2 ^ 32 - 2")
  case True
  then have "fresh_id k + 1 = 0" by (simp add: fresh_id_def)
  moreover have "Suc k mod (2 ^ 32 - 1) = 0" using True by (simp add: mod_Suc)
  ultimately show ?thesis by (simp add: fresh_id_def)
next
  case False
  have lt: "k mod (2 ^ 32 - 1) < (2 ^ 32 - 1 :: nat)" by (rule mod_less_divisor) simp
  with False have s: "Suc k mod (2 ^ 32 - 1) = Suc (k mod (2 ^ 32 - 1))" by (simp add: mod_Suc)
  then have "fresh_id (Suc k) = fresh_id k + 1" by (simp add: fresh_id_def)
  moreover have "1 \<le> fresh_id (Suc k)" by (simp add: word_le_nat_alt unat_fresh_id)
  ultimately show ?thesis by (simp add: max_def)
qed

lemma notify_fields:
  "na_replaces_id a = 0 \<Longrightarrow> fst (notify js io now alive a s) = nb_next_id s \<and>
    nb_next_id (snd (notify js io now alive a s)) = max (nb_next_id s + 1) 1"
  by (simp add: notify_def take_id_def send_wl_def Let_def)

lemma notify_all_ids:
  assumes "\<forall>(io, now, alive, a) \<in> set calls. na_replaces_id a = 0" and "nb_next_id s = fresh_id k"
  shows "fst (notify_all js calls s) = map fresh_id [k..<k + length calls]"
  using assms
proof (induction calls arbitrary: s k)
  case (Cons c calls)
  obtain io now alive a where c: "c = (io, now, alive, a)" by (cases c)
  with Cons.prems have z: "na_replaces_id a = 0" by simp
  obtain i s1 where n: "notify js io now alive a s = (i, s1)" by fastforce
  with notify_fields [OF z, of js io now alive s] Cons.prems(2) fresh_id_Suc
  have "i = fresh_id k" "nb_next_id s1 = fresh_id (Suc k)" by auto
  moreover from this Cons.IH [of s1 "Suc k"] Cons.prems(1)
  have "fst (notify_all js calls s1) = map fresh_id [Suc k..<Suc k + length calls]" by auto
  ultimately show ?case
    by (cases "notify_all js calls s1") (simp add: c n upt_rec [of k] del: upt_Suc)
qed simp

section \<open>Reading back what was written\<close>

text \<open>A line that survives: it has only scalar values, no newline and no carriage return at its end.\<close>

definition clean_line :: "rstring \<Rightarrow> bool" where
  "clean_line l \<longleftrightarrow> (\<forall>c \<in> set l. scalar c \<and> c \<noteq> 10) \<and> (l = [] \<or> last l \<noteq> 13)"

lemma utf8_bytes_control: "b \<in> set (utf8_bytes c) \<Longrightarrow> b < 128 \<Longrightarrow> b = c"
  by (auto simp: utf8_bytes_def split: if_splits)

lemma utf8_bytes_neq_Nil [simp]: "utf8_bytes c \<noteq> []"
  by (simp add: utf8_bytes_def)

lemma byte_lines_line: "10 \<notin> set xs \<Longrightarrow> byte_lines acc (xs @ 10 # rest) = strip_cr (rev acc @ xs) # byte_lines [] rest"
  by (induction xs arbitrary: acc) auto

lemma clean_line_bytes:
  assumes "clean_line l"
  shows "10 \<notin> set (utf8_encode l) \<and> strip_cr (utf8_encode l) = utf8_encode l"
proof -
  have "10 \<notin> set (utf8_encode l)"
    using assms utf8_bytes_control by (fastforce simp: utf8_encode_def clean_line_def)
  moreover have "last (utf8_encode l) \<noteq> 13" if "l \<noteq> []"
  proof -
    have "utf8_encode l = utf8_encode (butlast l) @ utf8_bytes (last l)"
      using that by (metis append_butlast_last_id concat.simps(1) concat.simps(2) concat_append append_Nil2
          list.simps(8) list.simps(9) map_append utf8_encode_def)
    then have "last (utf8_encode l) \<in> set (utf8_bytes (last l))" by simp
    with assms that utf8_bytes_control [of 13 "last l"] show ?thesis by (fastforce simp: clean_line_def)
  qed
  ultimately show ?thesis by (cases "l = []") (auto simp: strip_cr_def utf8_encode_def)
qed

lemma text_lines_unlines: "\<forall>l \<in> set ls. clean_line l \<Longrightarrow> text_lines (unlines ls) = ls"
proof (induction ls)
  case Nil
  show ?case by (simp add: text_lines_def unlines_def List.map_filter_def)
next
  case (Cons l ls)
  then have "byte_lines [] (unlines (l # ls)) = utf8_encode l # byte_lines [] (unlines ls)"
    using clean_line_bytes [of l] byte_lines_line [of "utf8_encode l" "[]" "unlines ls"]
    by (simp add: unlines_def line_bytes_def)
  moreover have "utf8_decode (utf8_encode l) = Some l"
    using Cons.prems by (intro utf8_roundtrip) (simp add: clean_line_def)
  ultimately show ?case using Cons by (simp add: text_lines_def List.map_filter_def)
qed

lemma last_n_map: "last_n n (map f xs) = map f (last_n n xs)"
  by (simp add: last_n_def drop_map)

text \<open>The library writes the records of \<open>R\<close> as clean lines that it reads back.\<close>

definition json_ok :: "json_lib \<Rightarrow> history_record set \<Rightarrow> bool" where
  "json_ok js R \<longleftrightarrow> (\<forall>r \<in> R. \<exists>l. js_to js r = Some l \<and> clean_line l \<and> js_from js l = Some r)"

definition line_of :: "json_lib \<Rightarrow> history_record \<Rightarrow> rstring" where
  "line_of js r = the (js_to js r)"

lemma line_of_ok: "json_ok js R \<Longrightarrow> r \<in> R \<Longrightarrow> clean_line (line_of js r) \<and> js_from js (line_of js r) = Some r \<and> js_to js r = Some (line_of js r)"
  unfolding json_ok_def line_of_def by (metis option.sel)

lemma load_lines:
  assumes "json_ok js R" and "set rs \<subseteq> R"
  shows "load_records js (unlines (map (line_of js) rs)) = last_n 256 rs"
proof -
  have ok: "clean_line (line_of js r) \<and> js_from js (line_of js r) = Some r" if "r \<in> set rs" for r
    using line_of_ok [OF assms(1)] assms(2) that by blast
  then have "text_lines (unlines (map (line_of js) rs)) = map (line_of js) rs" by (intro text_lines_unlines) auto
  moreover have "List.map_filter (js_from js) (map (line_of js) rs) = rs"
    using ok by (induction rs) (simp_all add: List.map_filter_simps)
  ultimately show ?thesis by (simp add: load_records_def)
qed

definition io_ok :: "history_io \<Rightarrow> bool" where
  "io_ok io \<longleftrightarrow> hi_write io = None \<and> hi_rename io \<and> hi_reopen io \<and> hi_read io \<and> hi_replay io = None"

definition history_ok :: "json_lib \<Rightarrow> history_record set \<Rightarrow> history \<Rightarrow> bool" where
  "history_ok js R h \<longleftrightarrow> \<not> h_detached h \<and>
     (\<exists>rs. set rs \<subseteq> R \<and> h_file h = Some (unlines (map (line_of js) rs)) \<and> h_cached h = last_n 256 rs)"

lemma unlines_snoc: "unlines (ls @ [l]) = unlines ls @ line_bytes l"
  by (simp add: unlines_def)

lemma history_append_ok:
  assumes js: "json_ok js R" and "io_ok io" and "history_ok js R h" and rec: "rec \<in> R"
  shows "history_ok js R (fst (history_append js io rec h)) \<and> snd (history_append js io rec h) \<and>
    h_cached (fst (history_append js io rec h)) = last_n 256 (h_cached h @ [rec])"
proof -
  obtain rs where rs: "h_file h = Some (unlines (map (line_of js) rs))" "h_cached h = last_n 256 rs" "\<not> h_detached h"
      "set rs \<subseteq> R"
    using assms(3) by (auto simp: history_ok_def)
  let ?rs = "rs @ [rec]"
  have grown: "unlines (map (line_of js) rs) @ line_bytes (line_of js rec) = unlines (map (line_of js) ?rs)"
    by (simp add: unlines_snoc)
  have cached: "last_n 256 (last_n 256 rs @ [rec]) = last_n 256 ?rs" by (simp add: last_n_snoc)
  have again: "last_n 256 (last_n 256 ?rs) = last_n 256 ?rs" by (rule last_n_last_n)
  have rot: "text_lines (unlines (map (line_of js) ?rs)) = map (line_of js) ?rs"
    using line_of_ok [OF js] rs(4) rec by (intro text_lines_unlines) auto
  have "set (last_n 256 ?rs) \<subseteq> R" using rs(4) rec by (auto simp: last_n_def dest: in_set_dropD)
  note facts = this assms(2) rs rec line_of_ok [OF js rec] grown cached again rot
  show ?thesis
  proof (cases "HISTORY_CAP < end_pos (h\<lparr>h_file := Some (unlines (map (line_of js) ?rs))\<rparr>)")
    case True
    with facts show ?thesis
      by (auto simp: history_append_def write_bytes_def rotate_def io_ok_def Let_def history_ok_def last_n_map
          simp del: map_append last_n_last_n intro!: exI [of _ "last_n 256 ?rs"])
  next
    case False
    with facts show ?thesis
      by (auto simp: history_append_def write_bytes_def io_ok_def Let_def history_ok_def
          simp del: map_append intro!: exI [of _ ?rs])
  qed
qed

section \<open>Properties\<close>

text \<open>
  Notification ids. The ids handed out to notifications that replace nothing count from 1, are
  never 0, and are pairwise distinct for the first \<open>2 ^ 32 - 1\<close> of them, after which they start
  over at 1.
\<close>

lemma notify_ids_fresh:
  assumes "\<forall>(io, now, alive, a) \<in> set calls. na_replaces_id a = 0"
  shows "fst (notify_all js calls (server_new h)) = map fresh_id [0..<length calls] \<and>
    0 \<notin> set (fst (notify_all js calls (server_new h))) \<and>
    (length calls < 2 ^ 32 \<longrightarrow> distinct (fst (notify_all js calls (server_new h)))) \<and>
    fresh_id (2 ^ 32 - 1) = 1"
proof -
  have "nb_next_id (server_new h) = fresh_id 0" by (simp add: server_new_def fresh_id_def)
  from notify_all_ids [OF assms this, of js]
  have ids: "fst (notify_all js calls (server_new h)) = map fresh_id [0..<length calls]" by simp
  have "fresh_id k \<noteq> 0" for k using unat_fresh_id [of k] by auto
  then have "0 \<notin> set (map fresh_id [0..<length calls])" by (auto simp: image_iff eq_commute [of 0])
  moreover have "distinct (map fresh_id [0..<length calls])" if "length calls < 2 ^ 32"
  proof -
    have "inj_on fresh_id {0..<length calls}"
    proof (rule inj_onI)
      fix i j assume "i \<in> {0..<length calls}" "j \<in> {0..<length calls}" "fresh_id i = fresh_id j"
      with that have "unat (fresh_id i) = unat (fresh_id j)" "i < 2 ^ 32 - 1" "j < 2 ^ 32 - 1" by auto
      then show "i = j" by (simp add: unat_fresh_id)
    qed
    then show ?thesis by (simp add: distinct_map)
  qed
  moreover have "fresh_id (2 ^ 32 - 1) = 1" by (simp add: fresh_id_def)
  ultimately show ?thesis using ids by simp
qed


text \<open>
  C26: the history survives a restart. Started on a file of records, and whatever is appended and
  however often the file is rotated, the cached history is the last 256 of the records that were there
  and those appended, and opening the file again reads exactly this history, as long as the system
  serves the file operations and the JSON library reads back what it writes.
\<close>

theorem history_survives_restart:
  fixes old :: "history_record list"
  assumes "json_ok js (set (old @ map snd calls))" and "\<forall>(io, r) \<in> set calls. io_ok io"
  defines "h0 \<equiv> open_or_create js True (Some (unlines (map (line_of js) old))) None"
  defines "h \<equiv> fold (\<lambda>(io, r) h. fst (history_append js io r h)) calls h0"
  shows "h_cached h = last_n 256 (old @ map snd calls) \<and> h_file h \<noteq> None \<and>
    (\<forall>content. h_file h = Some content \<longrightarrow> h_cached (open_or_create js True (Some content) (h_rotation h)) = h_cached h)"
proof -
  let ?R = "set (old @ map snd calls)"
  have start: "history_ok js ?R h0 \<and> h_cached h0 = last_n 256 old"
    using load_lines [OF assms(1), of old] by (auto simp: h0_def open_or_create_def history_ok_def)
  have run: "history_ok js ?R (fold (\<lambda>(io, r) h. fst (history_append js io r h)) cs h1) \<and>
      h_cached (fold (\<lambda>(io, r) h. fst (history_append js io r h)) cs h1) = last_n 256 (seen @ map snd cs)"
    if "history_ok js ?R h1" "h_cached h1 = last_n 256 seen" "\<forall>(io, r) \<in> set cs. io_ok io \<and> r \<in> ?R" for cs h1 seen
    using that
  proof (induction cs arbitrary: h1 seen)
    case (Cons c cs)
    obtain io r where c: "c = (io, r)" by (cases c)
    note a = history_append_ok [OF assms(1), of io h1 r]
    have "h_cached (fst (history_append js io r h1)) = last_n 256 (seen @ [r])"
      using a Cons.prems c by (simp add: last_n_snoc)
    then show ?case using Cons.IH [of "fst (history_append js io r h1)" "seen @ [r]"] a Cons.prems c by simp
  qed simp
  have "\<forall>(io, r) \<in> set calls. io_ok io \<and> r \<in> ?R" using assms(2) by force
  from run [OF _ _ this] start have "history_ok js ?R h \<and> h_cached h = last_n 256 (old @ map snd calls)"
    unfolding h_def by blast
  then show ?thesis
    using load_lines [OF assms(1)] by (auto simp: history_ok_def open_or_create_def)
qed

definition one_record :: history_record where
  "one_record = record_of 0 (close_for 1)"

definition one_json :: json_lib where
  "one_json = \<lparr>js_to = (\<lambda>_. Some [123, 125]), js_from = (\<lambda>l. if l = [123, 125] then Some one_record else None)\<rparr>"

definition good_io :: history_io where
  "good_io = \<lparr>hi_write = None, hi_rename = True, hi_reopen = True, hi_read = True, hi_replay = None\<rparr>"

theorem history_survives_restart_witness:
  "h_cached (fst (history_append one_json good_io one_record (open_or_create one_json True (Some []) None))) = [one_record]"
proof -
  have "json_ok one_json (set ([] @ map snd [(good_io, one_record)]))"
    by (simp add: json_ok_def one_json_def clean_line_def scalar_def)
  from history_survives_restart [OF this] show ?thesis
    by (simp add: io_ok_def good_io_def unlines_def)
qed

end
