(* ===== verification/Notif_Daemon.thy ===== *)
theory Notif_Daemon
  imports Notif_Bus
begin

text \<open>
  The notification daemon as a process: \<open>crates/nx-notif/src/main.rs\<close> and the part of \<open>dbus.rs\<close> around
  the handlers of \<open>Notif_Bus\<close>, which are the opening of the history, the claiming of the bus name and
  the dispatch of the four methods. The results of the system's and the bus library's calls are a
  parameter.
\<close>

section \<open>The methods on the bus\<close>

definition get_capabilities :: "rstring list" where
  "get_capabilities = [lit ''body'', lit ''body-markup'', lit ''actions'', lit ''icon-static'', lit ''persistence'']"

text \<open>The version is the one of the package, a constant of the build.\<close>

definition get_server_information :: "rstring \<Rightarrow> rstring \<times> rstring \<times> rstring \<times> rstring" where
  "get_server_information version = (lit ''NX-NOTIF'', lit ''NULLXES'', version, lit ''1.2'')"

datatype bus_call = Notify notify_args | CloseNotification u32 | GetCapabilities | GetServerInformation

datatype bus_reply =
    NotifyId u32
  | Closed
  | Capabilities "rstring list"
  | Information "rstring \<times> rstring \<times> rstring \<times> rstring"

fun bus_method ::
  "json_lib \<Rightarrow> rstring \<Rightarrow> history_io \<times> u64 \<times> bool \<Rightarrow> bus_call \<Rightarrow> bus_state \<Rightarrow> bus_reply \<times> bus_state" where
  "bus_method js version (io, now, alive) (Notify a) s = (case notify js io now alive a s of (i, s') \<Rightarrow> (NotifyId i, s'))"
| "bus_method js version (io, now, alive) (CloseNotification i) s = (Closed, close_notification alive i s)"
| "bus_method js version (io, now, alive) GetCapabilities s = (Capabilities get_capabilities, s)"
| "bus_method js version (io, now, alive) GetServerInformation s = (Information (get_server_information version), s)"

fun bus_methods ::
  "json_lib \<Rightarrow> rstring \<Rightarrow> ((history_io \<times> u64 \<times> bool) \<times> bus_call) list \<Rightarrow> bus_state \<Rightarrow> bus_reply list \<times> bus_state" where
  "bus_methods js version [] s = ([], s)"
| "bus_methods js version ((w, c) # cs) s =
     (let (r, s1) = bus_method js version w c s; (rs, s2) = bus_methods js version cs s1 in (r # rs, s2))"

section \<open>Starting, serving and ending\<close>

text \<open>
  The calls that end the daemon with an error, in their order; \<open>fails\<close> says which of them fail. The
  display thread is started before all of them and never joined.
\<close>

datatype daemon_call = CreateStateDir | OpenHistory | SessionBus | ClaimName | ServeObject | BuildConnection | CtrlC

fun attempt_calls :: "(daemon_call \<Rightarrow> bool) \<Rightarrow> daemon_call list \<Rightarrow> 'a \<Rightarrow> daemon_call + 'a" where
  "attempt_calls fails [] x = Inr x"
| "attempt_calls fails (c # cs) x = (if fails c then Inl c else attempt_calls fails cs x)"

definition open_history ::
  "(daemon_call \<Rightarrow> bool) \<Rightarrow> json_lib \<Rightarrow> bool \<Rightarrow> bytes option \<Rightarrow> bytes option \<Rightarrow> daemon_call + history" where
  "open_history fails js readable file rotation =
     attempt_calls fails [CreateStateDir, OpenHistory] (open_or_create js readable file rotation)"

definition server_start :: "(daemon_call \<Rightarrow> bool) \<Rightarrow> history \<Rightarrow> daemon_call + bus_state" where
  "server_start fails h = attempt_calls fails [SessionBus, ClaimName, ServeObject, BuildConnection] (server_new h)"

text \<open>Between the start and the signal the bus library calls the methods.\<close>

definition nx_notif_main ::
  "(daemon_call \<Rightarrow> bool) \<Rightarrow> json_lib \<Rightarrow> rstring \<Rightarrow> bool \<Rightarrow> bytes option \<Rightarrow> bytes option \<Rightarrow>
   ((history_io \<times> u64 \<times> bool) \<times> bus_call) list \<Rightarrow> daemon_call + bus_reply list \<times> bus_state" where
  "nx_notif_main fails js version readable file rotation calls =
     (case open_history fails js readable file rotation of
        Inl e \<Rightarrow> Inl e
      | Inr h \<Rightarrow>
          (case server_start fails h of
             Inl e \<Rightarrow> Inl e
           | Inr s \<Rightarrow> attempt_calls fails [CtrlC] (bus_methods js version calls s)))"

lemmas daemon_defs = nx_notif_main_def open_history_def server_start_def

text \<open>The daemon serves exactly when no call fails, and else reports the first one that does.\<close>

lemma nx_notif_main_result:
  "nx_notif_main fails js version readable file rotation calls =
     (case find fails [CreateStateDir, OpenHistory, SessionBus, ClaimName, ServeObject, BuildConnection, CtrlC] of
        Some c \<Rightarrow> Inl c
      | None \<Rightarrow> Inr (bus_methods js version calls (server_new (open_or_create js readable file rotation))))"
  by (simp add: daemon_defs)

section \<open>A dead display thread goes unnoticed\<close>

text \<open>
  The clients of the bus, the ids and the history cannot tell whether the display thread lives: with
  the thread gone from the start every reply is the same, and only the messages to it are lost.
\<close>

definition deaf :: "bus_state \<Rightarrow> bus_state" where
  "deaf s = s\<lparr>nb_sent := []\<rparr>"

definition without_display ::
  "((history_io \<times> u64 \<times> bool) \<times> bus_call) list \<Rightarrow> ((history_io \<times> u64 \<times> bool) \<times> bus_call) list" where
  "without_display cs = map (\<lambda>((io, now, alive), c). ((io, now, False), c)) cs"

lemma bus_method_deaf:
  "bus_method js version (io, now, False) c (deaf s) =
     (case bus_method js version (io, now, alive) c s of (r, s') \<Rightarrow> (r, deaf s'))"
  by (cases c) (simp_all add: notify_def take_id_def send_wl_def close_notification_def deaf_def Let_def)

lemma display_loss_unnoticed:
  "bus_methods js version (without_display cs) (deaf s) =
     (case bus_methods js version cs s of (rs, s') \<Rightarrow> (rs, deaf s'))"
proof (induction cs arbitrary: s)
  case Nil
  show ?case by (simp add: without_display_def)
next
  case (Cons c cs)
  obtain io now alive b where c: "c = ((io, now, alive), b)" by (cases c) auto
  then have "without_display (c # cs) = ((io, now, False), b) # without_display cs"
    by (simp add: without_display_def)
  with c Cons.IH show ?case
    by (simp add: bus_method_deaf [where alive = alive] case_prod_unfold Let_def)
qed

end
