(* ===== verification/Render.thy ===== *)
theory Render
  imports Panel Windows
begin

text \<open>
  One frame of the compositor (\<open>crates/frame/src/render.rs\<close>): the panel update, the list of render
  elements, the damage tracker and the frame callbacks. Turning a surface into render elements,
  the tracker and the display are smithay's and a parameter.
\<close>

section \<open>The renderer\<close>

text \<open>
  \<open>'e\<close> is smithay's element type. \<open>ra_layers_on\<close> is \<open>LayerMap::layers_on\<close>;
  \<open>ra_layer_elements\<close>, \<open>ra_space_elements\<close> and \<open>ra_surface_elements\<close> are the three calls of
  \<open>render_elements\<close>; \<open>ra_memory_element\<close> is \<open>MemoryRenderBufferRenderElement::from_buffer\<close>, which
  can fail; \<open>ra_to_physical\<close> is \<open>to_physical_precise_round\<close>.
\<close>

record ('s, 'l, 'e) render_api =
  ra_layers_on :: "'l \<Rightarrow> layer_kind \<Rightarrow> layer_h list"
  ra_layer_elements :: "layer_h \<Rightarrow> point \<Rightarrow> rat \<Rightarrow> 'e list"
  ra_space_elements :: "'s \<Rightarrow> output_h \<Rightarrow> rat \<Rightarrow> 'e list"
  ra_surface_elements :: "surface_h \<Rightarrow> point \<Rightarrow> rat \<Rightarrow> 'e list"
  ra_memory_element :: "point \<Rightarrow> u8 list \<times> i32 \<times> i32 \<Rightarrow> 'e option"
  ra_scale :: "output_h \<Rightarrow> rat"
  ra_to_physical :: "point \<Rightarrow> rat \<Rightarrow> point"

datatype 'e render_element = SurfaceElement 'e | SpaceElement 'e | MemoryElement 'e

text \<open>
  What the thread-local cells of the module keep between frames, next to the panel of the
  compositor's state.
\<close>

record frame_renderer =
  fr_tracker :: "output_h option"
  fr_panel :: panel_overlay
  fr_upload :: panel_upload

definition frame_renderer_new :: "bool \<Rightarrow> frame_renderer" where
  "frame_renderer_new fonts_found = \<lparr>fr_tracker = None, fr_panel = panel_new fonts_found,
     fr_upload = \<lparr>up_gen = 0, up_memory = None\<rparr>\<rparr>"

section \<open>\<open>collect_elements\<close>\<close>

definition push_layer_elements where
  "push_layer_elements A R scale lmap layer =
     (let loc = (case lm_geometry A lmap layer of Some g \<Rightarrow> rect_loc g | None \<Rightarrow> (0, 0)) in
      List.map SurfaceElement (ra_layer_elements R layer (ra_to_physical R loc scale) scale))"

definition layer_elements where
  "layer_elements A R scale lmap kind =
     concat (List.map (push_layer_elements A R scale lmap) (ra_layers_on R lmap kind))"

definition panel_elements where
  "panel_elements R out fr =
     (case up_memory (fr_upload fr) of
        None \<Rightarrow> []
      | Some buf \<Rightarrow>
          let panel_h = u32_as_i32 (pb_height (po_bitmap (fr_panel fr)));
              out_h = (case out_mode out of Some sz \<Rightarrow> snd sz | None \<Rightarrow> 1080) in
          case ra_memory_element R (0, i32_wrap (out_h - panel_h)) buf of
            None \<Rightarrow> []
          | Some e \<Rightarrow> [MemoryElement e])"

definition lock_elements where
  "lock_elements R scale st =
     (case nx_lock st of
        None \<Rightarrow> []
      | Some surfaces \<Rightarrow>
          concat (List.map (\<lambda>wl. List.map SurfaceElement (ra_surface_elements R wl (0, 0) scale)) surfaces))"

text \<open>The elements of the desktop are those of the four layers, the windows and the panel.\<close>

definition desktop_elements where
  "desktop_elements A R scale space out fr st =
     (let lmap = nx_layer_maps st (out_key out) in
      layer_elements A R scale lmap Background @ layer_elements A R scale lmap Bottom @
      List.map SpaceElement (ra_space_elements R space out scale) @
      layer_elements A R scale lmap Top @ layer_elements A R scale lmap Overlay @
      panel_elements R out fr)"

definition collect_elements ::
  "('s, 'l, 'x) smithay_api_scheme \<Rightarrow> ('s, 'l, 'e) render_api \<Rightarrow> output_h \<Rightarrow> frame_renderer \<Rightarrow>
   ('s, 'l) nullxes_state \<Rightarrow> 'e render_element list option" where
  "collect_elements A R out fr st =
     (let scale = ra_scale R out in
      map_option (\<lambda>space. desktop_elements A R scale space out fr st @ lock_elements R scale st)
        (active_space st))"

section \<open>\<open>render_frame_winit\<close> and \<open>render_frame_drm\<close>\<close>

text \<open>
  \<open>render_output\<close> and \<open>submit\<close> report success; the tracker is reset when rendering fails. The
  second component is the list of elements handed to the tracker.
\<close>

definition update_panel ::
  "('s, 'l, 'x) smithay_api_scheme \<Rightarrow> rasterizer \<Rightarrow> rstring \<Rightarrow> ('s, 'l) nullxes_state \<Rightarrow> frame_renderer \<Rightarrow>
   frame_renderer option" where
  "update_panel A rast now st fr =
     map_option (\<lambda>(p, u). fr\<lparr>fr_panel := p, fr_upload := u\<rparr>)
       (update_panel_bitmap rast now (nx_mgr st) (workspaces_occupied A (nx_workspaces st))
          (map_option fst (Option.bind (nx_primary st) out_mode)) (fr_panel fr, fr_upload fr))"

definition track :: "bool \<Rightarrow> output_h \<Rightarrow> frame_renderer \<Rightarrow> frame_renderer" where
  "track render_ok out fr =
     (let tracker = (case fr_tracker fr of None \<Rightarrow> out | Some t \<Rightarrow> t) in
      fr\<lparr>fr_tracker := (if render_ok then Some tracker else None)\<rparr>)"

definition render_frame_drm where
  "render_frame_drm A R rast now render_ok out st fr =
     do { fr1 \<leftarrow> update_panel A rast now st fr;
          elements \<leftarrow> collect_elements A R out fr1 st;
          st' \<leftarrow> send_frames_after_render A st;
          Some ((st', track render_ok out fr1), elements) }"

definition render_frame_winit where
  "render_frame_winit A R rast now bind_ok render_ok st fr =
     (case nx_primary st of
        None \<Rightarrow> Some ((st, fr), [])
      | Some out \<Rightarrow>
          if bind_ok then render_frame_drm A R rast now render_ok out st fr
          else Some ((st, fr), []))"

section \<open>Frames do not panic on a well-formed state\<close>

definition renderer_ok :: "frame_renderer \<Rightarrow> bool" where
  "renderer_ok fr \<longleftrightarrow> panel_ok (fr_panel fr) \<and> up_gen (fr_upload fr) = pb_generation (po_bitmap (fr_panel fr)) \<and>
     network_label (snap_network (po_modules (fr_panel fr))) \<noteq> None"

lemma network_label_default: "network_label (snap_network module_snapshot_default) \<noteq> None"
  by (simp add: network_label_def module_snapshot_default_def)

lemma renderer_ok_new: "renderer_ok (frame_renderer_new b)"
  using panel_ok_new [of b] network_label_default
  by (simp add: renderer_ok_def frame_renderer_new_def panel_new_def pb_new_def)

lemma panel_resize_modules [simp]: "po_modules (panel_resize w p) = po_modules p"
  by (simp add: panel_resize_def)

text \<open>
  The panel update leaves a fresh upload: the memory buffer holds the pixels just rendered, as wide
  as the mode of the primary output.
\<close>

definition panel_buffer :: "frame_renderer \<Rightarrow> u8 list \<times> i32 \<times> i32" where
  "panel_buffer fr =
     (let b = po_bitmap (fr_panel fr) in (pb_pixels b, u32_as_i32 (pb_width b), u32_as_i32 (pb_height b)))"

definition panel_fresh :: "output_h option \<Rightarrow> frame_renderer \<Rightarrow> bool" where
  "panel_fresh primary fr \<longleftrightarrow> up_memory (fr_upload fr) = Some (panel_buffer fr) \<and>
     pb_height (po_bitmap (fr_panel fr)) = PANEL_HEIGHT \<and>
     pb_width (po_bitmap (fr_panel fr)) = (case Option.bind primary out_mode of
       Some sz \<Rightarrow> i32_as_u32 (fst sz) | None \<Rightarrow> 1920)"

lemma panel_resize_size [simp]:
  "pb_width (po_bitmap (panel_resize w p)) = w" "pb_height (po_bitmap (panel_resize w p)) = PANEL_HEIGHT"
  by (simp_all add: panel_resize_def pb_resize_def)

lemma update_panel_ok:
  assumes "rast_ok rast" and "renderer_ok fr"
  shows "\<exists>fr'. update_panel A rast now st fr = Some fr' \<and> renderer_ok fr' \<and> panel_fresh (nx_primary st) fr'"
proof -
  let ?occ = "workspaces_occupied A (nx_workspaces st)" and ?w = "map_option fst (Option.bind (nx_primary st) out_mode)"
  let ?p = "panel_resize (case ?w of Some m \<Rightarrow> i32_as_u32 m | None \<Rightarrow> 1920) (fr_panel fr)"
  from assms have ok: "panel_ok (fr_panel fr)" "panel_ok ?p" and lbl: "network_label (snap_network (po_modules ?p)) \<noteq> None"
    and gen: "up_gen (fr_upload fr) = pb_generation (po_bitmap (fr_panel fr))"
    by (simp_all add: renderer_ok_def panel_ok_resize)
  obtain p' where p': "panel_render rast now (nx_mgr st) ?occ ?p = Some p'" "po_modules p' = po_modules (fr_panel fr)"
      "pb_width (po_bitmap p') = pb_width (po_bitmap ?p)" "pb_height (po_bitmap p') = PANEL_HEIGHT"
    using panel_render_cases [OF assms(1) ok(2), of now "nx_mgr st" ?occ] lbl by auto
  then obtain u' where u: "update_panel_bitmap rast now (nx_mgr st) ?occ ?w (fr_panel fr, fr_upload fr) = Some (p', u')"
    by (simp add: update_panel_bitmap_def Let_def)
  from update_cases [OF assms(1) ok(1) u] gen p' lbl u show ?thesis
    by (auto simp: update_panel_def renderer_ok_def panel_fresh_def panel_buffer_def Let_def split: option.splits)
qed

lemma panel_elements_fresh:
  assumes "panel_fresh primary fr"
  shows "panel_elements R out fr =
    (case ra_memory_element R (0, i32_wrap ((case out_mode out of Some sz \<Rightarrow> snd sz | None \<Rightarrow> 1080) - 48)) (panel_buffer fr) of
       None \<Rightarrow> [] | Some e \<Rightarrow> [MemoryElement e])"
  using assms by (simp add: panel_elements_def panel_fresh_def PANEL_HEIGHT_def u32_as_i32_small)

text \<open>A renderer whose elements are the handles themselves, without layers.\<close>

definition handle_renderer :: "(list_space, layer_h list, surface_h + window_h) render_api" where
  "handle_renderer = \<lparr>ra_layers_on = (\<lambda>m k. []), ra_layer_elements = (\<lambda>l p z. [Inl (lay_surface l)]),
     ra_space_elements = (\<lambda>s out z. List.map (\<lambda>e. Inr (fst e)) s), ra_surface_elements = (\<lambda>s p z. [Inl s]),
     ra_memory_element = (\<lambda>p b. None), ra_scale = (\<lambda>out. 1), ra_to_physical = (\<lambda>p z. p)\<rparr>"

definition lock_a :: surface_h where
  "lock_a = \<lparr>surf_client = 9, surf_protocol_id = 3\<rparr>"

text \<open>
  C17: on a well-formed compositor state every frame is rendered without a panic, keeps both the
  state and the renderer well-formed, and hands the renderer the panel drawn in this very frame,
  as wide as the output's mode and on its lowest 48 rows, or no panel at all when the buffer
  cannot be imported.
\<close>

theorem frame_shows_current_panel:
  assumes "rast_ok rast" and "renderer_ok fr" and "frame_ok st" and "nx_primary st = Some out"
  shows "\<exists>st' fr' es. render_frame_winit A R rast now True render_ok st fr = Some ((st', fr'), es) \<and>
    frame_ok st' \<and> renderer_ok fr' \<and> panel_fresh (Some out) fr' \<and>
    {e. MemoryElement e \<in> set es} =
      set_option (ra_memory_element R (0, i32_wrap ((case out_mode out of Some sz \<Rightarrow> snd sz | None \<Rightarrow> 1080) - 48))
        (panel_buffer fr'))"
proof -
  obtain fr1 where fr1: "update_panel A rast now st fr = Some fr1" "renderer_ok fr1" "panel_fresh (Some out) fr1"
    using update_panel_ok [OF assms(1,2)] assms(4) by metis
  obtain space where "active_space st = Some space" using active_space_ok [OF assms(3)] by blast
  then obtain es where es: "collect_elements A R out fr1 st = Some es"
    "es = desktop_elements A R (ra_scale R out) space out fr1 st @ lock_elements R (ra_scale R out) st"
    by (auto simp: collect_elements_def Let_def)
  obtain st' where "send_frames_after_render A st = Some st'" "frame_ok st'"
    using opt_okD [OF send_frames_ok [OF assms(3)]] by blast
  with fr1 es(1) have "render_frame_winit A R rast now True render_ok st fr = Some ((st', track render_ok out fr1), es)"
    by (simp add: render_frame_winit_def render_frame_drm_def assms(4))
  moreover have "renderer_ok (track render_ok out fr1)" "panel_fresh (Some out) (track render_ok out fr1)"
    "panel_buffer (track render_ok out fr1) = panel_buffer fr1"
    using fr1 by (simp_all add: track_def Let_def renderer_ok_def panel_fresh_def panel_buffer_def)
  moreover have "{e. MemoryElement e \<in> set es} = {e. MemoryElement e \<in> set (panel_elements R out fr1)}"
    by (auto simp: es(2) desktop_elements_def layer_elements_def push_layer_elements_def lock_elements_def Let_def
        split: option.splits)
  moreover have "\<dots> = set_option (ra_memory_element R (0, i32_wrap ((case out_mode out of Some sz \<Rightarrow> snd sz | None \<Rightarrow> 1080) - 48))
      (panel_buffer fr1))"
    unfolding panel_elements_fresh [OF fr1(3)] by (auto split: option.split)
  ultimately show ?thesis using \<open>frame_ok st'\<close>
    by (intro exI [of _ st'] exI [of _ "track render_ok out fr1"] exI [of _ es]) (simp only: simp_thms)
qed

theorem frame_shows_current_panel_witness:
  "\<exists>st' fr' es. render_frame_winit list_smithay (handle_renderer\<lparr>ra_memory_element := (\<lambda>p b. Some (Inl lock_a))\<rparr>)
      box_rasterizer (lit ''12:00'') True True example_boot (frame_renderer_new True) = Some ((st', fr'), es) \<and>
     MemoryElement (Inl lock_a) \<in> set es \<and> pb_width (po_bitmap (fr_panel fr')) = 1920"
proof -
  let ?R = "handle_renderer\<lparr>ra_memory_element := (\<lambda>p b. Some (Inl lock_a))\<rparr>"
  let ?out = "\<lparr>out_key = 0, out_mode = Some (1920, 1080)\<rparr>"
  have "rast_ok box_rasterizer" by (simp add: rast_ok_def glyph_ok_def box_rasterizer_def)
  moreover have "frame_ok example_boot" "nx_primary example_boot = Some ?out"
    by (simp_all add: example_boot_def winit_boot_ok) (simp add: winit_boot_def Let_def)
  ultimately obtain st' fr' es where
    "render_frame_winit list_smithay ?R box_rasterizer (lit ''12:00'') True True example_boot (frame_renderer_new True) =
       Some ((st', fr'), es)" "panel_fresh (Some ?out) fr'" "{e. MemoryElement e \<in> set es} = {Inl lock_a}"
    using frame_shows_current_panel [OF _ renderer_ok_new, of box_rasterizer example_boot ?out list_smithay ?R "lit ''12:00''" True True]
    by auto
  then show ?thesis by (auto simp: panel_fresh_def i32_as_u32_def)
qed

section \<open>What is in front\<close>

text \<open>
  \<open>render_output\<close> of smithay's damage tracker documents that the elements are given in
  front-to-back order: of the elements that cover a point, the first of the list is the one seen.
\<close>

definition front_to_back :: "('p \<Rightarrow> 'e \<Rightarrow> bool) \<Rightarrow> ('e list \<Rightarrow> 'p \<Rightarrow> 'e option) \<Rightarrow> bool" where
  "front_to_back covers seen \<longleftrightarrow> (\<forall>es p. seen es p = find (covers p) es)"

lemma find_front: "find P (xs @ ys) = (case find P xs of Some x \<Rightarrow> Some x | None \<Rightarrow> find P ys)"
  by (induction xs) auto

text \<open>
  C12: the order of the elements is the reverse of the one the renderer expects. On a renderer
  that draws front to back, what is seen at a point is the desktop's own element there, and the
  lock surface only where no window, no layer surface and no panel lies; and a background
  layer hides whatever windows, panels and lock surfaces lie under it.
\<close>

theorem desktop_hides_lock_surface:
  assumes "front_to_back covers seen"
    and "collect_elements A R out fr st = Some es" and "active_space st = Some space"
  defines "scale \<equiv> ra_scale R out"
  shows "seen es p = (case find (covers p) (desktop_elements A R scale space out fr st) of
      Some e \<Rightarrow> Some e | None \<Rightarrow> find (covers p) (lock_elements R scale st)) \<and>
    (case find (covers p) (layer_elements A R scale (nx_layer_maps st (out_key out)) Background) of
      Some e \<Rightarrow> seen es p = Some e | None \<Rightarrow> True)"
proof -
  have "es = desktop_elements A R scale space out fr st @ lock_elements R scale st"
    using assms(2,3) by (simp add: collect_elements_def Let_def scale_def)
  then have seen: "seen es p = (case find (covers p) (desktop_elements A R scale space out fr st) of
      Some e \<Rightarrow> Some e | None \<Rightarrow> find (covers p) (lock_elements R scale st))"
    using assms(1) by (simp add: front_to_back_def find_front)
  obtain rest where "desktop_elements A R scale space out fr st =
      layer_elements A R scale (nx_layer_maps st (out_key out)) Background @ rest"
    unfolding desktop_elements_def Let_def by blast
  then show ?thesis by (simp add: seen find_front split: option.split)
qed

theorem desktop_hides_lock_surface_witness:
  "\<exists>st es. run_example [NewToplevel window_a, LockRequest, NewLockSurface lock_a None] = Some st \<and>
     nx_lock st = Some [lock_a] \<and>
     collect_elements list_smithay handle_renderer \<lparr>out_key = 0, out_mode = None\<rparr> (frame_renderer_new False) st = Some es \<and>
     SurfaceElement (Inl lock_a) \<in> set es \<and> find (\<lambda>e. True) es = Some (SpaceElement (Inr window_a))"
proof -
  let ?run = "run_example [NewToplevel window_a, LockRequest, NewLockSurface lock_a None]"
  let ?out = "\<lparr>out_key = 0, out_mode = None\<rparr>" and ?fr = "frame_renderer_new False"
  have ev: "\<not> Option.is_none ?run" "nx_lock (the ?run) = Some [lock_a]"
    "map_option (List.map fst) (active_space (the ?run)) = Some [window_a]" by code_simp+
  then obtain st space where st: "?run = Some st" "nx_lock st = Some [lock_a]" and
    sp: "active_space st = Some space" "List.map fst space = [window_a]" by (auto simp: Option.is_none_def)
  then obtain es where es: "collect_elements list_smithay handle_renderer ?out ?fr st = Some es"
    by (simp add: collect_elements_def Let_def)
  have d: "desktop_elements list_smithay handle_renderer 1 space ?out ?fr st = [SpaceElement (Inr window_a)]"
    using sp(2) by (auto simp: desktop_elements_def layer_elements_def handle_renderer_def panel_elements_def
        frame_renderer_new_def Let_def map_eq_Cons_conv)
  have "find (\<lambda>e. True) es = Some (SpaceElement (Inr window_a))"
    using desktop_hides_lock_surface [of "\<lambda>p e. True" "\<lambda>es p. find (\<lambda>e. True) es" list_smithay handle_renderer ?out ?fr st es space]
      es sp(1) d by (simp add: front_to_back_def handle_renderer_def)
  moreover have "SurfaceElement (Inl lock_a) \<in> set es"
    using es sp(1) st(2) by (auto simp: collect_elements_def Let_def lock_elements_def handle_renderer_def)
  ultimately show ?thesis using st es by blast
qed

end
