(* ===== verification/Frame_Loop.thy ===== *)
theory Frame_Loop
  imports Render
begin

text \<open>
  The loop of FRAME with everything it dispatches: the protocol handlers of \<open>Session\<close>, the frame that
  \<open>WinitEvent::Redraw\<close> renders (\<open>crates/frame/src/backend/winit.rs\<close>, \<open>render.rs\<close>), the callbacks of smithay's X11
  window manager (\<open>crates/frame/src/xwm.rs\<close>), and the system listeners that store a new snapshot for the panel
  (\<open>crates/frame/src/system\<close>). The loop panics in two places only, and the theorem says when.
\<close>

section \<open>State and events\<close>

text \<open>
  Next to the compositor's own state the loop keeps the panel and the thread-local cells of the renderer. The X11
  windows are smithay's objects; of each the code sets what \<open>x11_window\<close> holds.
\<close>

record ('s, 'l) frame_loop =
  lp_state :: "('s, 'l) nullxes_state"
  lp_renderer :: frame_renderer
  lp_x11 :: "nat \<Rightarrow> x11_window"

text \<open>
  \<open>Redraw now bind_ok render_ok\<close> carries the clock's text and whether \<open>backend.bind\<close> and \<open>render_output\<close> succeed.
  \<open>XwmStateCall\<close> is smithay asking for the window manager, \<open>X11Callback\<close> one of the other methods of \<open>XwmHandler\<close>,
  \<open>ShellStateCall\<close> the one of \<open>XWaylandShellHandler\<close>. \<open>ModulesUpdate\<close> is what a listener of a system service leaves
  behind the mutex that the panel reads.
\<close>

datatype loop_event =
    Handled frame_event
  | Redraw rstring bool bool
  | XwmStateCall
  | X11Callback nat x11_request
  | ShellStateCall
  | ModulesUpdate module_snapshot

definition loop_redraw where
  "loop_redraw A R rast now bind_ok render_ok lp =
     map_option (\<lambda>((st, fr), elements). lp\<lparr>lp_state := st, lp_renderer := fr\<rparr>)
       (render_frame_winit A R rast now bind_ok render_ok (lp_state lp) (lp_renderer lp))"

definition store_modules :: "module_snapshot \<Rightarrow> frame_renderer \<Rightarrow> frame_renderer" where
  "store_modules snap fr = fr\<lparr>fr_panel := (fr_panel fr)\<lparr>po_modules := snap\<rparr>\<rparr>"

fun loop_step ::
  "('s, 'l, 'x) smithay_api_scheme \<Rightarrow> ('s, 'l, 'e) render_api \<Rightarrow> rasterizer \<Rightarrow> loop_event \<Rightarrow>
   ('s, 'l) frame_loop \<Rightarrow> ('s, 'l) frame_loop option" where
  "loop_step A R rast (Handled e) lp =
     map_option (\<lambda>st. lp\<lparr>lp_state := st\<rparr>) (frame_step A (lp_state lp) e)"
| "loop_step A R rast (Redraw now bind_ok render_ok) lp = loop_redraw A R rast now bind_ok render_ok lp"
| "loop_step A R rast XwmStateCall lp = map_option (\<lambda>_. lp) (xwm_get (nx_xwm (lp_state lp)))"
| "loop_step A R rast (X11Callback w req) lp =
     Some (lp\<lparr>lp_x11 := (lp_x11 lp)(w := x11_handle req (lp_x11 lp w))\<rparr>)"
| "loop_step A R rast ShellStateCall lp =
     Some (lp\<lparr>lp_state := (lp_state lp)\<lparr>nx_xwm := xwayland_shell_get (nx_xwm (lp_state lp))\<rparr>\<rparr>)"
| "loop_step A R rast (ModulesUpdate snap) lp =
     Some (lp\<lparr>lp_renderer := store_modules snap (lp_renderer lp)\<rparr>)"

definition loop_run where
  "loop_run A R rast = fold_opt (loop_step A R rast)"

definition loop_boot where
  "loop_boot A cfg maps out kbd_ok fonts_found x11 =
     \<lparr>lp_state = winit_boot A cfg maps out kbd_ok, lp_renderer = frame_renderer_new fonts_found, lp_x11 = x11\<rparr>"

section \<open>Where the loop panics\<close>

text \<open>
  The network label cuts the name of a wireless network that is longer than 16 bytes after its fifteenth byte; that is
  a panic when the byte is inside a character. Asking for the window manager when there is none panics, or ends the
  process in a release build.
\<close>

definition cuts_character :: "network_snapshot \<Rightarrow> bool" where
  "cuts_character n \<longleftrightarrow> net_kind n = NetWireless \<and>
     (case net_ssid n of None \<Rightarrow> False | Some ssid \<Rightarrow> 16 < str_len ssid \<and> str_prefix 15 ssid = None)"

fun loop_panics :: "loop_event \<Rightarrow> ('s, 'l) frame_loop \<Rightarrow> bool" where
  "loop_panics (Redraw now bind_ok render_ok) lp \<longleftrightarrow>
     nx_primary (lp_state lp) \<noteq> None \<and> bind_ok \<and> po_text (fr_panel (lp_renderer lp)) \<noteq> None \<and>
     cuts_character (snap_network (po_modules (fr_panel (lp_renderer lp))))"
| "loop_panics XwmStateCall lp \<longleftrightarrow> \<not> xwm_wm (nx_xwm (lp_state lp))"
| "loop_panics _ lp \<longleftrightarrow> False"

definition loop_ok :: "('s, 'l) frame_loop \<Rightarrow> bool" where
  "loop_ok lp \<longleftrightarrow> frame_ok (lp_state lp) \<and> panel_ok (fr_panel (lp_renderer lp)) \<and>
     up_gen (fr_upload (lp_renderer lp)) = pb_generation (po_bitmap (fr_panel (lp_renderer lp)))"

lemma cuts_character_label: "cuts_character n \<longleftrightarrow> network_label n = None"
  by (auto simp: cuts_character_def network_label_panics split: option.splits)

lemma loop_boot_ok: "loop_ok (loop_boot A cfg maps out kbd_ok fonts_found x11)"
  using renderer_ok_new [of fonts_found] by (simp add: loop_ok_def loop_boot_def winit_boot_ok renderer_ok_def)

lemma boot_cuts_nothing:
  "\<not> cuts_character (snap_network (po_modules (fr_panel (lp_renderer (loop_boot A cfg maps out kbd_ok fonts_found x11)))))"
  by (simp add: loop_boot_def frame_renderer_new_def panel_new_def cuts_character_def module_snapshot_default_def)

text \<open>The panel update, with or without fonts.\<close>

lemma panel_resize_text [simp]: "po_text (panel_resize w p) = po_text p"
  by (simp add: panel_resize_def)

lemma update_panel_cases:
  assumes "rast_ok rast" and "panel_ok (fr_panel fr)" and "up_gen (fr_upload fr) = pb_generation (po_bitmap (fr_panel fr))"
  shows "if po_text (fr_panel fr) \<noteq> None \<and> cuts_character (snap_network (po_modules (fr_panel fr)))
    then update_panel A rast now st fr = None
    else \<exists>fr'. update_panel A rast now st fr = Some fr' \<and> panel_ok (fr_panel fr') \<and>
      up_gen (fr_upload fr') = pb_generation (po_bitmap (fr_panel fr')) \<and>
      po_modules (fr_panel fr') = po_modules (fr_panel fr)"
proof -
  let ?occ = "workspaces_occupied A (nx_workspaces st)" and ?w = "map_option fst (Option.bind (nx_primary st) out_mode)"
  let ?p = "panel_resize (case ?w of Some m \<Rightarrow> i32_as_u32 m | None \<Rightarrow> 1920) (fr_panel fr)"
  consider (cut) "po_text ?p \<noteq> None" "network_label (snap_network (po_modules ?p)) = None"
        "panel_render rast now (nx_mgr st) ?occ ?p = None"
    | (drawn) p' where "po_text ?p = None \<or> network_label (snap_network (po_modules ?p)) \<noteq> None"
        "panel_render rast now (nx_mgr st) ?occ ?p = Some p'" "po_modules p' = po_modules ?p"
    using panel_render_cases [OF assms(1) panel_ok_resize [OF assms(2)]] by metis
  then show ?thesis
  proof cases
    case cut
    then show ?thesis by (simp add: cuts_character_label update_panel_def update_panel_bitmap_def Let_def)
  next
    case drawn
    then obtain u' where u: "update_panel_bitmap rast now (nx_mgr st) ?occ ?w (fr_panel fr, fr_upload fr) = Some (p', u')"
      by (simp add: update_panel_bitmap_def Let_def)
    from update_cases [OF assms(1,2) u] assms(3) drawn(1,3) show ?thesis
      by (auto simp: cuts_character_label update_panel_def u)
  qed
qed

lemma track_fields [simp]:
  "fr_panel (track ok out fr) = fr_panel fr" "fr_upload (track ok out fr) = fr_upload fr"
  by (simp_all add: track_def Let_def)

lemma redraw_cases:
  assumes "rast_ok rast" and "loop_ok lp"
  shows "if loop_panics (Redraw now bind_ok render_ok) lp then loop_redraw A R rast now bind_ok render_ok lp = None
    else \<exists>lp'. loop_redraw A R rast now bind_ok render_ok lp = Some lp' \<and> loop_ok lp' \<and>
      po_modules (fr_panel (lp_renderer lp')) = po_modules (fr_panel (lp_renderer lp))"
proof (cases "bind_ok \<and> nx_primary (lp_state lp) \<noteq> None")
  case False
  with assms(2) show ?thesis by (auto simp: loop_redraw_def render_frame_winit_def split: option.splits)
next
  case True
  then obtain out where out: "nx_primary (lp_state lp) = Some out" and "bind_ok" by auto
  let ?st = "lp_state lp" and ?fr = "lp_renderer lp"
  have ok: "frame_ok ?st" "panel_ok (fr_panel ?fr)" "up_gen (fr_upload ?fr) = pb_generation (po_bitmap (fr_panel ?fr))"
    using assms(2) by (simp_all add: loop_ok_def)
  obtain space where space: "active_space ?st = Some space" using active_space_ok [OF ok(1)] by blast
  obtain st' where st': "send_frames_after_render A ?st = Some st'" "frame_ok st'"
    using opt_okD [OF send_frames_ok [OF ok(1)]] by blast
  note update = update_panel_cases [OF assms(1) ok(2,3), of A now ?st]
  show ?thesis
  proof (cases "loop_panics (Redraw now bind_ok render_ok) lp")
    case True
    with update show ?thesis
      by (simp add: loop_redraw_def render_frame_winit_def render_frame_drm_def out)
  next
    case False
    with update out \<open>bind_ok\<close> obtain fr' where fr': "update_panel A rast now ?st ?fr = Some fr'" "panel_ok (fr_panel fr')"
      "up_gen (fr_upload fr') = pb_generation (po_bitmap (fr_panel fr'))" "po_modules (fr_panel fr') = po_modules (fr_panel ?fr)"
      by auto
    then show ?thesis
      using False st' \<open>bind_ok\<close>
      by (simp add: loop_redraw_def render_frame_winit_def render_frame_drm_def out collect_elements_def Let_def space loop_ok_def)
  qed
qed

text \<open>The contract of the loop: a step of a well-formed loop panics exactly where \<open>loop_panics\<close> says.\<close>

locale panicking_machine =
  fixes step :: "'e \<Rightarrow> 's \<Rightarrow> 's option" and ok :: "'s \<Rightarrow> bool" and panics :: "'e \<Rightarrow> 's \<Rightarrow> bool"
  assumes panic: "ok s \<Longrightarrow> panics e s \<Longrightarrow> step e s = None"
    and total: "ok s \<Longrightarrow> \<not> panics e s \<Longrightarrow> \<exists>s'. step e s = Some s' \<and> ok s'"
begin

lemma run_ok: "ok s \<Longrightarrow> fold_opt step es s = Some s' \<Longrightarrow> ok s'"
proof (induction es arbitrary: s)
  case (Cons e es)
  then show ?case using panic [of s e] total [of s e] by (cases "panics e s") auto
qed simp

lemma run_None:
  "ok s \<Longrightarrow> fold_opt step es s = None \<longleftrightarrow>
     (\<exists>es1 e es2 s'. es = es1 @ e # es2 \<and> fold_opt step es1 s = Some s' \<and> panics e s')"
proof (induction es arbitrary: s)
  case (Cons e es)
  show ?case
  proof (cases "panics e s")
    case True
    then have "e # es = [] @ e # es \<and> fold_opt step [] s = Some s \<and> panics e s" by simp
    moreover have "fold_opt step (e # es) s = None" using panic [OF Cons.prems True] by simp
    ultimately show ?thesis by blast
  next
    case False
    with total [OF Cons.prems] obtain s1 where s1: "step e s = Some s1" "ok s1" by blast
    have "fold_opt step (e # es) s = None \<longleftrightarrow>
        (\<exists>es1 e' es2 s'. es = es1 @ e' # es2 \<and> fold_opt step (e # es1) s = Some s' \<and> panics e' s')"
      using Cons.IH [OF s1(2)] s1(1) by simp
    also have "\<dots> \<longleftrightarrow> (\<exists>es1 e' es2 s'. e # es = es1 @ e' # es2 \<and> fold_opt step es1 s = Some s' \<and> panics e' s')"
      (is "?l \<longleftrightarrow> ?r")
    proof
      assume ?l
      then show ?r by (metis append_Cons)
    next
      assume ?r
      then obtain es1 e' es2 s' where r: "e # es = es1 @ e' # es2" "fold_opt step es1 s = Some s'" "panics e' s'" by blast
      with False show ?l by (cases es1) auto
    qed
    finally show ?thesis .
  qed
qed simp

end

lemma loop_step_contract:
  fixes A :: "('a, 'b, 'x) smithay_api_scheme"
  assumes "space_laws A" and "rast_ok rast"
  shows "panicking_machine (loop_step A R rast) loop_ok loop_panics"
proof
  fix lp :: "('a, 'b) frame_loop" and e assume ok: "loop_ok lp" and p: "loop_panics e lp"
  show "loop_step A R rast e lp = None"
  proof (cases e)
    case (Redraw now bind_ok render_ok)
    with redraw_cases [OF assms(2) ok, of now bind_ok render_ok A R] p show ?thesis by simp
  qed (use p in \<open>auto simp: xwm_get_def\<close>)
next
  fix lp :: "('a, 'b) frame_loop" and e assume ok: "loop_ok lp" and p: "\<not> loop_panics e lp"
  show "\<exists>lp'. loop_step A R rast e lp = Some lp' \<and> loop_ok lp'"
  proof (cases e)
    case (Handled ev)
    have "frame_machine A" using assms(1) by unfold_locales
    then obtain st where "frame_step A (lp_state lp) ev = Some st" "frame_ok st"
      using opt_okD [OF frame_machine.step_ok] ok by (metis loop_ok_def)
    with ok Handled show ?thesis by (simp add: loop_ok_def)
  next
    case (Redraw now bind_ok render_ok)
    with redraw_cases [OF assms(2) ok, of now bind_ok render_ok A R] p show ?thesis by auto
  qed (use ok p in \<open>auto simp: loop_ok_def xwm_get_def xwayland_shell_get_def ensure_shell_def store_modules_def
      panel_ok_def frame_ok_def xwm_ok_def\<close>)
qed

lemma rast_ok_box [simp]: "rast_ok box_rasterizer"
  by (simp add: rast_ok_def glyph_ok_def box_rasterizer_def)

interpretation list_loop: panicking_machine "loop_step list_smithay R box_rasterizer" loop_ok loop_panics for R
  by (rule loop_step_contract) (simp_all add: list_smithay_laws)

section \<open>What never leads to a panic\<close>

fun harmless :: "loop_event \<Rightarrow> bool" where
  "harmless XwmStateCall \<longleftrightarrow> False"
| "harmless (ModulesUpdate snap) \<longleftrightarrow> \<not> cuts_character (snap_network snap)"
| "harmless _ \<longleftrightarrow> True"

lemma harmless_step:
  assumes "space_laws A" and "rast_ok rast" and "harmless e" and "loop_ok lp"
    and "\<not> cuts_character (snap_network (po_modules (fr_panel (lp_renderer lp))))"
  shows "\<exists>lp'. loop_step A R rast e lp = Some lp' \<and> loop_ok lp' \<and>
    \<not> cuts_character (snap_network (po_modules (fr_panel (lp_renderer lp'))))"
proof -
  have p: "\<not> loop_panics e lp" using assms(3,5) by (cases e) auto
  obtain lp' where lp': "loop_step A R rast e lp = Some lp'" "loop_ok lp'"
    using panicking_machine.total [OF loop_step_contract [OF assms(1,2)] assms(4) p] by blast
  have "\<not> cuts_character (snap_network (po_modules (fr_panel (lp_renderer lp'))))"
  proof (cases e)
    case (Redraw now bind_ok render_ok)
    with redraw_cases [OF assms(2,4), of now bind_ok render_ok A R] p lp'(1) assms(5) show ?thesis by auto
  qed (use assms(3,5) lp'(1) in \<open>auto simp: store_modules_def\<close>)
  with lp' show ?thesis by blast
qed

section \<open>Property\<close>

text \<open>
  C1: when FRAME's loop panics. Started on a booted compositor, whatever the protocol events, frames,
  X11 callbacks and panel updates are and in whatever order they come, the loop panics exactly when it meets one of two
  events: a frame to draw with fonts at hand while the panel's snapshot has a wireless name longer than 16 bytes
  whose fifteenth byte is inside a character, or smithay asking for an X11 window manager that does not run.
  Otherwise it goes on, in a well-formed state. A run in which smithay does not ask for the window manager and no
  such name is stored never panics.
\<close>

theorem frame_panics_exactly:
  assumes "space_laws A" and "rast_ok rast" and "boot = loop_boot A cfg maps out kbd_ok fonts_found x11"
  shows "(loop_run A R rast es boot = None \<longleftrightarrow>
      (\<exists>es1 e es2 lp. es = es1 @ e # es2 \<and> loop_run A R rast es1 boot = Some lp \<and> loop_panics e lp)) \<and>
    (\<forall>lp. loop_run A R rast es boot = Some lp \<longrightarrow> loop_ok lp) \<and>
    ((\<forall>e \<in> set es. harmless e) \<longrightarrow> loop_run A R rast es boot \<noteq> None)"
proof (intro conjI)
  note machine = loop_step_contract [OF assms(1,2), of R]
  have ok: "loop_ok boot" unfolding assms(3) by (rule loop_boot_ok)
  show "loop_run A R rast es boot = None \<longleftrightarrow>
      (\<exists>es1 e es2 lp. es = es1 @ e # es2 \<and> loop_run A R rast es1 boot = Some lp \<and> loop_panics e lp)"
    unfolding loop_run_def by (rule panicking_machine.run_None [OF machine ok])
  show "\<forall>lp. loop_run A R rast es boot = Some lp \<longrightarrow> loop_ok lp"
    using panicking_machine.run_ok [OF machine ok] by (simp add: loop_run_def)
  show "(\<forall>e \<in> set es. harmless e) \<longrightarrow> loop_run A R rast es boot \<noteq> None"
  proof
    assume "\<forall>e \<in> set es. harmless e"
    then have "\<exists>lp. fold_opt (loop_step A R rast) es boot = Some lp \<and> loop_ok lp \<and>
        \<not> cuts_character (snap_network (po_modules (fr_panel (lp_renderer lp))))"
      using ok boot_cuts_nothing [of A cfg maps out kbd_ok fonts_found x11]
      by (intro fold_opt_total harmless_step [OF assms(1,2)]) (auto simp: assms(3))
    then show "loop_run A R rast es boot \<noteq> None" by (auto simp: loop_run_def)
  qed
qed

text \<open>A locked screen is drawn; a network with a Cyrillic name of 18 bytes is not.\<close>

theorem frame_panics_exactly_witness:
  "let boot = loop_boot list_smithay frame_config_default (\<lambda>_. []) \<lparr>out_key = 0, out_mode = Some (1920, 1080)\<rparr> True True
         (\<lambda>_. \<lparr>x11_mapped = False, x11_fullscreen = False, x11_maximized = False, x11_geometry = ((0, 0), (0, 0))\<rparr>);
       run = (\<lambda>es. loop_run list_smithay handle_renderer box_rasterizer es boot) in
   run [Handled LockRequest, Redraw (lit ''12:00'') True True, X11Callback 0 MapWindowRequest] \<noteq> None \<and>
   run [ModulesUpdate (po_modules ssid_panel), Redraw (lit ''12:00'') True True] = None \<and>
   run [Handled (XwaylandEv (Ready True)), XwmStateCall] \<noteq> None \<and> run [XwmStateCall] = None"
proof -
  define w :: x11_window where "w = \<lparr>x11_mapped = False, x11_fullscreen = False, x11_maximized = False, x11_geometry = ((0, 0), (0, 0))\<rparr>"
  let ?out = "\<lparr>out_key = 0, out_mode = Some (1920, 1080)\<rparr>"
  define boot where "boot = loop_boot list_smithay frame_config_default (\<lambda>_. []) ?out True True (\<lambda>_. w)"
  define run where "run = (\<lambda>es. loop_run list_smithay handle_renderer box_rasterizer es boot)"
  note all = frame_panics_exactly [OF list_smithay_laws rast_ok_box boot_def, of handle_renderer]
  have panic: "run es = None \<longleftrightarrow> (\<exists>es1 e es2 lp. es = es1 @ e # es2 \<and> run es1 = Some lp \<and> loop_panics e lp)" for es
    unfolding run_def by (rule conjunct1 [OF all])
  have total: "(\<forall>e \<in> set es. harmless e) \<longrightarrow> run es \<noteq> None" for es
    unfolding run_def by (rule conjunct2 [OF conjunct2 [OF all]])
  have "str_prefix 15 cyrillic_ssid = None" "16 < str_len cyrillic_ssid" by code_simp+
  then have cut: "cuts_character (snap_network (po_modules ssid_panel))" by (simp add: cuts_character_def ssid_panel_def)
  have drawn: "run [Handled LockRequest, Redraw (lit ''12:00'') True True, X11Callback 0 MapWindowRequest] \<noteq> None"
    using total by (simp del: not_None_eq)
  define named where "named = boot\<lparr>lp_renderer := store_modules (po_modules ssid_panel) (lp_renderer boot)\<rparr>"
  have "run [ModulesUpdate (po_modules ssid_panel)] = Some named"
    by (simp add: run_def loop_run_def named_def)
  moreover have "nx_primary (lp_state boot) \<noteq> None" "po_text (fr_panel (lp_renderer boot)) \<noteq> None"
    by (simp_all add: boot_def loop_boot_def winit_boot_def Let_def frame_renderer_new_def panel_new_def)
  then have "loop_panics (Redraw (lit ''12:00'') True True) named" using cut by (simp add: named_def store_modules_def)
  ultimately have cyrillic: "run ([ModulesUpdate (po_modules ssid_panel)] @ Redraw (lit ''12:00'') True True # []) = None"
    unfolding panic by blast
  have nowm: "\<not> xwm_wm (nx_xwm (lp_state boot))"
    by (simp add: boot_def loop_boot_def winit_boot_def Let_def nx_new_def xwm_new_def xwm_start_def ensure_shell_def)
  then have alone: "run ([] @ XwmStateCall # []) = None" by (simp add: run_def loop_run_def xwm_get_def)
  have "run [Handled (XwaylandEv (Ready True)), XwmStateCall] \<noteq> None"
    by (simp add: run_def loop_run_def xwm_get_def)
  with drawn cyrillic alone show ?thesis by (simp add: Let_def run_def boot_def w_def)
qed

end
