(* ===== verification/Boot.thy ===== *)
theory Boot
  imports Session
begin

text \<open>
  How FRAME starts and stops: \<open>crates/frame/src/main.rs\<close> (selection of the backend),
  \<open>runtime.rs\<close> (the tokio runtime), \<open>signals.rs\<close>, the start of the IPC server
  (\<open>ipc_server.rs\<close>) and the two backends, \<open>backend/winit.rs\<close> and \<open>backend/drm.rs\<close>. Starting is
  a list of steps, one per statement that can fail or that has an effect, run until one
  fails. The release profile aborts on a panic, so nothing is cleaned up after one.
\<close>

section \<open>The process and its environment\<close>

datatype boot_call =
    RuntimeNew | EventLoopNew | DisplayNew | SocketNew | WinitInit | SeatOpen
  | CreateDisplayDir | WriteDisplayTmp | RenameDisplay
  | InsertSocketSource | InsertDisplaySource | InsertWinitSource
  | AssignSeat | InsertLibinputSource | UdevNew | InsertUdevSource | InsertNotifierSource
  | SignalsNew | InsertSignalSource
  | CreateIpcDir | BindIpcSocket | SetNonblocking | FromStd | InsertIpcSource
  | EventLoopRun

datatype boot_stop = BootFailed boot_call | BootBailed | BootPanicked

text \<open>
  The state of the process as far as starting goes: the files, the \<open>WAYLAND_DISPLAY\<close> variable,
  whether the runtime is installed and whether the main thread is inside its context, the
  compositor, whether the accept loop was spawned and the event loop entered.
\<close>

record ('s, 'l) process =
  pr_files :: "rstring \<Rightarrow> rstring option"
  pr_display :: "rstring option"
  pr_runtime :: bool
  pr_entered :: bool
  pr_state :: "('s, 'l) nullxes_state option"
  pr_accepting :: bool
  pr_looping :: bool

datatype mode_size = ModeSize u16 u16

record connector =
  cn_connected :: "bool option"
  cn_modes :: "mode_size list option"

datatype drm_call = SessionOpen | DrmDeviceNew | GbmNew | EglDisplayNew | EglContextNew | RendererNew

record drm_device =
  dd_key :: nat
  dd_ok :: "drm_call \<Rightarrow> bool"
  dd_connectors :: "connector list option"

text \<open>
  What the code is given: environment variables, the result of every fallible call
  (\<open>en_ok\<close>), the tokio constructor \<open>UnixListener::from_std\<close> as a function of whether the thread is
  inside a runtime context (\<^const>\<open>None\<close> is a panic), the output of the winit window, the DRM
  devices and the events the loop receives.
\<close>

record 'l boot_env =
  en_backend :: "rstring option"
  en_wayland_display :: bool
  en_x_display :: bool
  en_features :: "bool \<times> bool"
  en_xdg :: "rstring option"
  en_uid :: rstring
  en_socket_name :: rstring
  en_ok :: "boot_call \<Rightarrow> bool"
  en_from_std :: "bool \<Rightarrow> bool option"
  en_kbd_ok :: bool
  en_config :: frame_config
  en_maps :: "nat \<Rightarrow> 'l"
  en_output :: output_h
  en_devices :: "drm_device list"
  en_events :: "frame_event list"

text \<open>
  The documented behaviour of \<open>UnixListener::from_std\<close>: outside a runtime context it panics,
  inside one it returns.
\<close>

definition from_std_documented :: "('l, 'x) boot_env_scheme \<Rightarrow> bool" where
  "from_std_documented env \<longleftrightarrow> en_from_std env False = None \<and> en_from_std env True = Some (en_ok env FromStd)"

section \<open>Running steps\<close>

type_synonym ('s, 'l) boot_step = "('s, 'l) process \<Rightarrow> boot_stop option \<times> ('s, 'l) process"

fun run_steps :: "('s, 'l) boot_step list \<Rightarrow> ('s, 'l) boot_step" where
  "run_steps [] p = (None, p)"
| "run_steps (f # fs) p = (case f p of (Some e, q) \<Rightarrow> (Some e, q) | (None, q) \<Rightarrow> run_steps fs q)"

text \<open>A statement that cannot fail, a call with \<open>?\<close>, and such a call with an effect when it succeeds.\<close>

definition does :: "(('s, 'l) process \<Rightarrow> ('s, 'l) process) \<Rightarrow> ('s, 'l) boot_step" where
  "does f p = (None, f p)"

definition attempt where
  "attempt env c f p = (if en_ok env c then (None, f p) else (Some (BootFailed c), p))"

definition call where
  "call env c = attempt env c (\<lambda>p. p)"

lemma run_steps_append:
  "run_steps (fs @ gs) p = (case run_steps fs p of (Some e, q) \<Rightarrow> (Some e, q) | (None, q) \<Rightarrow> run_steps gs q)"
  by (induction fs arbitrary: p) (auto split: prod.splits option.splits)

lemma run_steps_ok: "run_steps fs p = (None, q) \<Longrightarrow> run_steps (fs @ gs) p = run_steps gs q"
  by (simp add: run_steps_append)

section \<open>Shared parts\<close>

text \<open>\<open>publish_wayland_display\<close>: written to a temporary file that is renamed.\<close>

definition display_path where
  "display_path env = wayland_display_path (en_xdg env) (en_uid env)"

definition display_tmp where
  "display_tmp env = display_path env @ lit ''.tmp''"

definition ipc_path where
  "ipc_path env = socket_path (en_xdg env) (en_uid env)"

definition set_file :: "rstring \<Rightarrow> rstring option \<Rightarrow> ('s, 'l) process \<Rightarrow> ('s, 'l) process" where
  "set_file path c p = p\<lparr>pr_files := (pr_files p)(path := c)\<rparr>"

definition publish_wayland_display where
  "publish_wayland_display env =
     [call env CreateDisplayDir,
      attempt env WriteDisplayTmp (set_file (display_tmp env) (Some (en_socket_name env))),
      attempt env RenameDisplay
        (\<lambda>p. set_file (display_tmp env) None (set_file (display_path env) (pr_files p (display_tmp env)) p)),
      does (\<lambda>p. p\<lparr>pr_display := Some (en_socket_name env)\<rparr>)]"

definition signals_install where
  "signals_install env = [call env SignalsNew, call env InsertSignalSource]"

text \<open>
  \<open>ipc_server::start\<close>: a stale socket is removed, the new one bound, and the listener handed to
  tokio. Without an installed runtime \<open>Runtime::handle()\<close> falls back to \<open>Handle::current()\<close>, which
  panics outside a runtime context.
\<close>

definition from_std_step where
  "from_std_step env p =
     (case en_from_std env (pr_entered p) of
        None \<Rightarrow> (Some BootPanicked, p)
      | Some ok \<Rightarrow> if ok then (None, p) else (Some (BootFailed FromStd), p))"

definition runtime_handle :: "('s, 'l) process \<Rightarrow> bool" where
  "runtime_handle p \<longleftrightarrow> pr_runtime p \<or> pr_entered p"

definition spawn_accept :: "('s, 'l) boot_step" where
  "spawn_accept p =
     (if runtime_handle p then (None, p\<lparr>pr_accepting := True\<rparr>) else (Some BootPanicked, p))"

definition ipc_start where
  "ipc_start env =
     [call env CreateIpcDir,
      does (set_file (ipc_path env) None),
      attempt env BindIpcSocket (set_file (ipc_path env) (Some [])),
      call env SetNonblocking,
      from_std_step env,
      call env InsertIpcSource,
      spawn_accept]"

definition on_state :: "(('s, 'l) nullxes_state \<Rightarrow> ('s, 'l) nullxes_state) \<Rightarrow> ('s, 'l) boot_step" where
  "on_state f = does (\<lambda>p. p\<lparr>pr_state := map_option f (pr_state p)\<rparr>)"

definition new_state where
  "new_state A env = does (\<lambda>p. p\<lparr>pr_state := Some (nx_new A (en_config env) (en_maps env))\<rparr>)"

text \<open>The output is mapped into the space of every workspace and becomes the primary one.\<close>

definition install_output ::
  "('s, 'x) space_api_scheme \<Rightarrow> output_h \<Rightarrow> ('s, 'l) nullxes_state \<Rightarrow> ('s, 'l) nullxes_state" where
  "install_output A out st =
     st\<lparr>nx_workspaces := fold (\<lambda>i ws. workspaces_get_mut ws i (\<lambda>s. sp_map_output A s out (0, 0)))
          [0..<workspaces_count (nx_workspaces st)] (nx_workspaces st),
        nx_primary := Some out\<rparr>"

definition add_seat_devices :: "bool \<Rightarrow> ('s, 'l) nullxes_state \<Rightarrow> ('s, 'l) nullxes_state" where
  "add_seat_devices kbd_ok st =
     st\<lparr>nx_kbd := (if kbd_ok then Some None else None),
        nx_ptr := Some \<lparr>ptr_location = (0, 0), ptr_focus = None, ptr_pending = None, ptr_grab = None\<rparr>\<rparr>"

definition start_xwayland :: "('s, 'l) nullxes_state \<Rightarrow> ('s, 'l) nullxes_state" where
  "start_xwayland st =
     (if cc_xwayland (fc_compositor (nx_config st)) then st\<lparr>nx_xwm := fst (xwm_start (nx_xwm st))\<rparr> else st)"

section \<open>The winit backend\<close>

definition winit_steps where
  "winit_steps A env =
     [call env EventLoopNew, call env DisplayNew, call env SocketNew, call env WinitInit,
      new_state A env, on_state (install_output A (en_output env))] @
     publish_wayland_display env @
     [call env InsertSocketSource, call env InsertDisplaySource, call env InsertWinitSource,
      on_state (add_seat_devices (en_kbd_ok env))] @
     signals_install env @ ipc_start env @ [on_state start_xwayland]"

text \<open>
  The event loop, and what follows it: dropping the \<open>IpcSocket\<close> removes the control socket, and
  the display file is removed.
\<close>

definition serve where
  "serve A env p =
     (case pr_state p of
        None \<Rightarrow> (Some BootPanicked, p)
      | Some st \<Rightarrow>
          (case fold_opt (\<lambda>e s. frame_step A s e) (en_events env) st of
             None \<Rightarrow> (Some BootPanicked, p\<lparr>pr_looping := True\<rparr>)
           | Some st' \<Rightarrow>
               ((if en_ok env EventLoopRun then None else Some (BootFailed EventLoopRun)),
                set_file (display_path env) None (set_file (ipc_path env) None
                  (p\<lparr>pr_looping := True, pr_state := Some st'\<rparr>)))))"

definition winit_run where
  "winit_run A env = run_steps (winit_steps A env @ [serve A env])"

section \<open>The DRM backend\<close>

text \<open>
  \<open>bring_up_drm_device\<close>: the device is opened, the first connected connector found, and its first
  mode taken. \<open>size()\<close> is a pair of \<open>u16\<close>.
\<close>

datatype drm_error = DrmCallFailed drm_call | NoResources | NoConnector | GetConnectorFailed | NoMode

definition first_connected :: "connector list \<Rightarrow> connector option" where
  "first_connected cs = find (\<lambda>c. case cn_connected c of Some b \<Rightarrow> b | None \<Rightarrow> False) cs"

definition drm_calls :: "drm_call list" where
  "drm_calls = [SessionOpen, DrmDeviceNew, GbmNew, EglDisplayNew, EglContextNew, RendererNew]"

definition mode_point :: "mode_size \<Rightarrow> point" where
  "mode_point m = (case m of ModeSize w h \<Rightarrow> (int (unat w), int (unat h)))"

definition bring_up_drm_device ::
  "('s, 'x) space_api_scheme \<Rightarrow> drm_device \<Rightarrow> ('s, 'l) nullxes_state \<Rightarrow> drm_error + ('s, 'l) nullxes_state" where
  "bring_up_drm_device A dev st =
     (case find (\<lambda>c. \<not> dd_ok dev c) drm_calls of
        Some c \<Rightarrow> Inl (DrmCallFailed c)
      | None \<Rightarrow>
          (case dd_connectors dev of
             None \<Rightarrow> Inl NoResources
           | Some cs \<Rightarrow>
               (case first_connected cs of
                  None \<Rightarrow> Inl NoConnector
                | Some c \<Rightarrow>
                    (case cn_modes c of
                       None \<Rightarrow> Inl GetConnectorFailed
                     | Some [] \<Rightarrow> Inl NoMode
                     | Some (m # _) \<Rightarrow>
                         Inr (install_output A \<lparr>out_key = dd_key dev, out_mode = Some (mode_point m)\<rparr> st)))))"

text \<open>A device that fails is logged and skipped.\<close>

definition bring_up_all ::
  "('s, 'x) space_api_scheme \<Rightarrow> drm_device list \<Rightarrow> ('s, 'l) nullxes_state \<Rightarrow> ('s, 'l) nullxes_state" where
  "bring_up_all A devs st =
     fold (\<lambda>dev st. case bring_up_drm_device A dev st of Inl _ \<Rightarrow> st | Inr st' \<Rightarrow> st') devs st"

text \<open>\<open>READY=1\<close> is a datagram whose failure is ignored.\<close>

definition drm_steps where
  "drm_steps A env =
     [call env EventLoopNew, call env DisplayNew, call env SeatOpen, new_state A env, call env SocketNew] @
     publish_wayland_display env @
     [call env InsertSocketSource, call env InsertDisplaySource, call env AssignSeat,
      call env InsertLibinputSource, call env UdevNew, on_state (bring_up_all A (en_devices env)),
      call env InsertUdevSource, call env InsertNotifierSource,
      on_state (add_seat_devices (en_kbd_ok env))] @
     signals_install env @ ipc_start env @ [on_state start_xwayland]"

definition drm_run where
  "drm_run A env = run_steps (drm_steps A env @ [serve A env])"

text \<open>The session notifier: a pause clears the reason of the shutdown, an activation is logged.\<close>

datatype session_event = PauseSession | ActivateSession

definition drm_session_event :: "session_event \<Rightarrow> ('s, 'l) nullxes_state \<Rightarrow> ('s, 'l) nullxes_state" where
  "drm_session_event e st =
     (case e of PauseSession \<Rightarrow> st\<lparr>nx_shutdown_reason := None\<rparr> | ActivateSession \<Rightarrow> st)"

section \<open>\<open>main\<close>\<close>

datatype selected_backend = Winit | Drm

definition detect_backend where
  "detect_backend env = (if en_wayland_display env \<or> en_x_display env then Winit else Drm)"

definition select_backend where
  "select_backend env =
     (case en_backend env of
        Some b \<Rightarrow> if b = lit ''drm'' then Drm else Winit
      | None \<Rightarrow> detect_backend env)"

definition install_global where
  "install_global env p =
     (if pr_runtime p then (None, p) else attempt env RuntimeNew (\<lambda>q. q\<lparr>pr_runtime := True\<rparr>) p)"

definition run_backend where
  "run_backend A env p =
     (case select_backend env of
        Winit \<Rightarrow> if fst (en_features env) then winit_run A env p else (Some BootBailed, p)
      | Drm \<Rightarrow> if snd (en_features env) then drm_run A env p else (Some BootBailed, p))"

definition frame_main where
  "frame_main A env = run_steps [install_global env, run_backend A env]"

text \<open>The process as the system starts it: \<open>main\<close> is not asynchronous.\<close>

definition fresh_process :: "(rstring \<Rightarrow> rstring option) \<Rightarrow> ('s, 'l) process" where
  "fresh_process files = \<lparr>pr_files = files, pr_display = None, pr_runtime = False, pr_entered = False,
     pr_state = None, pr_accepting = False, pr_looping = False\<rparr>"

section \<open>The three runtime files are different\<close>

lemma last_join: "n \<noteq> [] \<Longrightarrow> hd n \<noteq> 47 \<Longrightarrow> last (path_join d n) = last n"
  by (simp add: path_join_def)

lemma last_runtime_path: "n \<noteq> [] \<Longrightarrow> hd (lit n) \<noteq> 47 \<Longrightarrow> last (runtime_path n rt uid) = last (lit n)"
  by (auto simp: runtime_path_def last_join lit_def split: option.split)

lemma runtime_files_differ [simp]:
  "ipc_path env \<noteq> display_path env" "display_path env \<noteq> ipc_path env"
  "display_tmp env \<noteq> display_path env" "display_path env \<noteq> display_tmp env"
  "display_tmp env \<noteq> ipc_path env" "ipc_path env \<noteq> display_tmp env"
proof -
  have l: "last (lit ''frame.sock'') = 107" "last (lit ''wayland-display'') = 121" "last (lit ''.tmp'') = 112"
    "hd (lit ''frame.sock'') \<noteq> 47" "hd (lit ''wayland-display'') \<noteq> 47" "lit ''.tmp'' \<noteq> []" by code_simp+
  have "last (ipc_path env) = 107" "last (display_path env) = 121" "last (display_tmp env) = 112"
    using l(1-5) l(3) l(6) last_runtime_path [of "''frame.sock''" "en_xdg env" "en_uid env"]
      last_runtime_path [of "''wayland-display''" "en_xdg env" "en_uid env"]
    by (simp_all add: ipc_path_def socket_path_def display_path_def wayland_display_path_def display_tmp_def
        last_append)
  then show "ipc_path env \<noteq> display_path env" "display_path env \<noteq> ipc_path env"
    "display_tmp env \<noteq> display_path env" "display_path env \<noteq> display_tmp env"
    "display_tmp env \<noteq> ipc_path env" "ipc_path env \<noteq> display_tmp env" by auto
qed

section \<open>Nothing but the runtime enters its context\<close>

text \<open>
  A step is quiet when it neither enters the runtime's context nor spawns the accept loop nor
  enters the event loop.
\<close>

definition quiet :: "('s, 'l) boot_step \<Rightarrow> bool" where
  "quiet f \<longleftrightarrow> (\<forall>p. pr_entered (snd (f p)) = pr_entered p \<and> pr_accepting (snd (f p)) = pr_accepting p \<and>
     pr_looping (snd (f p)) = pr_looping p)"

named_theorems quiet_step \<open>quiet boot steps\<close>

lemma set_file_fields [simp]:
  "pr_entered (set_file f c p) = pr_entered p" "pr_accepting (set_file f c p) = pr_accepting p"
  "pr_looping (set_file f c p) = pr_looping p" "pr_state (set_file f c p) = pr_state p"
  "pr_runtime (set_file f c p) = pr_runtime p" "pr_display (set_file f c p) = pr_display p"
  "pr_files (set_file f c p) = (pr_files p)(f := c)"
  by (simp_all add: set_file_def)

lemma quiet_steps [quiet_step]:
  "quiet (call env c)" "quiet (on_state g)" "quiet (new_state A env)" "quiet (install_global env)"
  "quiet (does (set_file f c'))" "quiet (attempt env c (set_file f c'))"
  "quiet (attempt env c (\<lambda>p. set_file f c' (set_file f' (g' p) p)))"
  "quiet (does (\<lambda>p. p\<lparr>pr_display := d\<rparr>))"
  unfolding quiet_def call_def attempt_def on_state_def does_def new_state_def install_global_def
  by simp_all

lemma quietD:
  assumes "quiet f" and "f p = (r, q)"
  shows "pr_entered q = pr_entered p" and "pr_accepting q = pr_accepting p" and "pr_looping q = pr_looping p"
  using assms(1)[unfolded quiet_def, THEN spec, of p] assms(2) by simp_all

lemma quiet_run: "\<forall>f \<in> set fs. quiet f \<Longrightarrow> quiet (run_steps fs)"
proof (induction fs)
  case (Cons f fs)
  then have f: "quiet f" "quiet (run_steps fs)" by auto
  show ?case unfolding quiet_def
  proof
    fix p
    obtain r q where fp: "f p = (r, q)" by (cases "f p")
    obtain r' q' where rest: "run_steps fs q = (r', q')" by (cases "run_steps fs q")
    show "pr_entered (snd (run_steps (f # fs) p)) = pr_entered p \<and>
        pr_accepting (snd (run_steps (f # fs) p)) = pr_accepting p \<and>
        pr_looping (snd (run_steps (f # fs) p)) = pr_looping p"
      using quietD [OF f(1) fp] quietD [OF f(2) rest] by (simp add: fp rest split: option.split)
  qed
qed (simp add: quiet_def)

text \<open>
  Quiet steps followed by the constructor: outside a runtime context the run stops there at the
  latest, by a panic if nothing failed before.
\<close>

lemma blocked_at_from_std:
  assumes "\<forall>f \<in> set fs. quiet f" and "from_std_documented env" and "\<not> pr_entered p"
  shows "\<exists>e q. run_steps (fs @ from_std_step env # gs) p = (Some e, q) \<and>
    pr_accepting q = pr_accepting p \<and> pr_looping q = pr_looping p \<and>
    (fst (run_steps fs p) = None \<longrightarrow> e = BootPanicked \<and> q = snd (run_steps fs p))"
proof -
  obtain r q where r: "run_steps fs p = (r, q)" by (cases "run_steps fs p")
  note q = quietD [OF quiet_run [OF assms(1)] r]
  with assms(2,3) have "from_std_step env q = (Some BootPanicked, q)"
    by (simp add: from_std_step_def from_std_documented_def)
  with r q show ?thesis by (cases r) (auto simp: run_steps_append)
qed

section \<open>The steps before the constructor\<close>

definition ipc_bind_steps where
  "ipc_bind_steps env =
     [call env CreateIpcDir, does (set_file (ipc_path env) None),
      attempt env BindIpcSocket (set_file (ipc_path env) (Some [])), call env SetNonblocking]"

definition winit_prefix where
  "winit_prefix A env =
     [call env EventLoopNew, call env DisplayNew, call env SocketNew, call env WinitInit,
      new_state A env, on_state (install_output A (en_output env))] @
     publish_wayland_display env @
     [call env InsertSocketSource, call env InsertDisplaySource, call env InsertWinitSource,
      on_state (add_seat_devices (en_kbd_ok env))] @ signals_install env @ ipc_bind_steps env"

definition drm_prefix where
  "drm_prefix A env =
     [call env EventLoopNew, call env DisplayNew, call env SeatOpen, new_state A env, call env SocketNew] @
     publish_wayland_display env @
     [call env InsertSocketSource, call env InsertDisplaySource, call env AssignSeat,
      call env InsertLibinputSource, call env UdevNew, on_state (bring_up_all A (en_devices env)),
      call env InsertUdevSource, call env InsertNotifierSource,
      on_state (add_seat_devices (en_kbd_ok env))] @ signals_install env @ ipc_bind_steps env"

definition ipc_rest where
  "ipc_rest A env = [call env InsertIpcSource, spawn_accept, on_state start_xwayland, serve A env]"

lemma run_split:
  "winit_run A env = run_steps (winit_prefix A env @ from_std_step env # ipc_rest A env)"
  "drm_run A env = run_steps (drm_prefix A env @ from_std_step env # ipc_rest A env)"
  by (simp_all add: winit_run_def winit_steps_def winit_prefix_def drm_run_def drm_steps_def drm_prefix_def
      ipc_start_def ipc_bind_steps_def ipc_rest_def)

lemma quiet_prefix: "f \<in> set (winit_prefix A env) \<union> set (drm_prefix A env) \<Longrightarrow> quiet f"
  by (auto simp: winit_prefix_def drm_prefix_def ipc_bind_steps_def publish_wayland_display_def
      signals_install_def quiet_step)

text \<open>When every call succeeds, the runtime files are there and the compositor is built.\<close>

definition prefix_done where
  "prefix_done env st p =
     p\<lparr>pr_files := (pr_files p)(display_tmp env := None, display_path env := Some (en_socket_name env),
         ipc_path env := Some []),
       pr_display := Some (en_socket_name env), pr_state := Some st\<rparr>"

lemmas step_defs = call_def attempt_def does_def on_state_def new_state_def

lemma prefix_ok:
  assumes "\<forall>c. en_ok env c"
  shows "run_steps (winit_prefix A env) p =
      (None, prefix_done env (add_seat_devices (en_kbd_ok env) (install_output A (en_output env)
        (nx_new A (en_config env) (en_maps env)))) p)"
    and "run_steps (drm_prefix A env) p =
      (None, prefix_done env (add_seat_devices (en_kbd_ok env) (bring_up_all A (en_devices env)
        (nx_new A (en_config env) (en_maps env)))) p)"
  using assms
  by (simp_all add: winit_prefix_def drm_prefix_def ipc_bind_steps_def publish_wayland_display_def
      signals_install_def step_defs prefix_done_def set_file_def fun_eq_iff)

section \<open>Properties\<close>

text \<open>
  C11: FRAME cannot start. The main thread never enters the context of the tokio runtime it
  installs, so \<open>UnixListener::from_std\<close> panics on it: whatever the calls before it do, neither
  backend ever spawns the accept loop or enters its event loop; and when all of them succeed the
  process aborts there, leaving the socket and the display file behind.
\<close>

theorem frame_main_never_serves:
  fixes A :: "('s, 'l, 'x) smithay_api_scheme" and env :: "('l, 'y) boot_env_scheme"
  assumes "from_std_documented env"
  shows "\<exists>e p. frame_main A env (fresh_process files) = (Some e, p) \<and> \<not> pr_accepting p \<and> \<not> pr_looping p \<and>
    ((\<forall>c. en_ok env c) \<and> en_features env = (True, True) \<longrightarrow> e = BootPanicked \<and>
       pr_files p (display_path env) = Some (en_socket_name env) \<and> pr_files p (ipc_path env) = Some [])"
proof -
  let ?p0 = "fresh_process files :: ('s, 'l) process"
  obtain r q where q: "install_global env ?p0 = (r, q)" by (cases "install_global env ?p0")
  then have q0: "\<not> pr_entered q" "\<not> pr_accepting q" "\<not> pr_looping q"
    by (auto simp: install_global_def attempt_def fresh_process_def split: if_splits)
  have r: "r = None" if "\<forall>c. en_ok env c"
    using q that by (auto simp: install_global_def attempt_def fresh_process_def)
  have blocked: "\<exists>e p. run_backend A env q = (Some e, p) \<and> \<not> pr_accepting p \<and> \<not> pr_looping p \<and>
      ((\<forall>c. en_ok env c) \<and> en_features env = (True, True) \<longrightarrow> e = BootPanicked \<and>
       pr_files p (display_path env) = Some (en_socket_name env) \<and> pr_files p (ipc_path env) = Some [])"
    using blocked_at_from_std [OF _ assms q0(1), of "winit_prefix A env" "ipc_rest A env"]
      blocked_at_from_std [OF _ assms q0(1), of "drm_prefix A env" "ipc_rest A env"]
      quiet_prefix [of _ A env] q0 prefix_ok [of env A q]
    by (cases "select_backend env"; cases "en_features env")
      (auto simp: run_backend_def run_split prefix_done_def)
  show ?thesis
    using blocked q q0 r by (cases r) (auto simp: frame_main_def)
qed

definition example_env :: "boot_call list \<Rightarrow> layer_h list boot_env" where
  "example_env broken = \<lparr>en_backend = None, en_wayland_display = True, en_x_display = False,
     en_features = (True, True), en_xdg = Some (lit ''/run/user/1000''), en_uid = lit ''1000'',
     en_socket_name = lit ''wayland-1'', en_ok = (\<lambda>c. c \<notin> set broken),
     en_from_std = (\<lambda>inside. if inside then Some (FromStd \<notin> set broken) else None), en_kbd_ok = True,
     en_config = frame_config_default, en_maps = (\<lambda>_. []), en_output = \<lparr>out_key = 0, out_mode = Some (1920, 1080)\<rparr>,
     en_devices = [], en_events = [LockRequest, SignalEv SIGTERM]\<rparr>"

lemma example_env_documented: "from_std_documented (example_env broken)"
  by (simp add: from_std_documented_def example_env_def)

theorem frame_main_never_serves_witness:
  "\<exists>p. frame_main list_smithay (example_env []) (fresh_process Map.empty) = (Some BootPanicked, p) \<and>
     pr_files p (ipc_path (example_env [])) = Some [] \<and>
     pr_files p (display_path (example_env [])) = Some (lit ''wayland-1'')"
  using frame_main_never_serves [OF example_env_documented [of "[]"], of list_smithay Map.empty]
  by (auto simp: example_env_def)

text \<open>The steps of the winit backend build the state that \<^const>\<open>winit_boot\<close> describes.\<close>

lemma winit_boot_steps:
  "start_xwayland (add_seat_devices k (install_output A out (nx_new A cfg maps))) = winit_boot A cfg maps out k"
  by (simp add: start_xwayland_def add_seat_devices_def install_output_def winit_boot_def nx_new_def Let_def)

text \<open>The compositor that the boot hands to the event loop satisfies its invariant.\<close>

lemma boot_state_ok:
  "frame_ok (start_xwayland (add_seat_devices k (bring_up_all A devs (nx_new A cfg maps))))"
  "frame_ok (start_xwayland (add_seat_devices k (install_output A out (nx_new A cfg maps))))"
proof -
  have new: "mgr_ok (nx_mgr (nx_new A cfg maps)) \<and> length (nx_workspaces (nx_new A cfg maps)) = mgr_count (nx_mgr (nx_new A cfg maps)) \<and>
      xwm_ok (nx_xwm (nx_new A cfg maps)) \<and> nx_lock (nx_new A cfg maps) = None"
    by (simp add: nx_new_def mgr_ok_new workspaces_new_def) (simp add: mgr_new_def xwm_ok_def xwm_new_def)
  have out: "nx_mgr (install_output A out st) = nx_mgr st" "nx_lock (install_output A out st) = nx_lock st"
    "nx_xwm (install_output A out st) = nx_xwm st"
    "length (nx_workspaces (install_output A out st)) = length (nx_workspaces st)" for out and st :: "('a, 'b) nullxes_state"
    by (simp_all add: install_output_def)
  have dev: "nx_mgr (bring_up_all A devs st) = nx_mgr st \<and> nx_lock (bring_up_all A devs st) = nx_lock st \<and>
    nx_xwm (bring_up_all A devs st) = nx_xwm st \<and>
    length (nx_workspaces (bring_up_all A devs st)) = length (nx_workspaces st)" for st :: "('a, 'b) nullxes_state"
    unfolding bring_up_all_def
    by (induction devs arbitrary: st) (auto simp: bring_up_drm_device_def out split: option.splits list.splits)
  have last: "frame_ok (start_xwayland (add_seat_devices k st))"
    if "mgr_ok (nx_mgr st) \<and> length (nx_workspaces st) = mgr_count (nx_mgr st) \<and> xwm_ok (nx_xwm st) \<and> nx_lock st = None"
    for st :: "('a, 'b) nullxes_state"
    using that by (simp add: start_xwayland_def add_seat_devices_def frame_ok_def xwm_ok_def xwm_start_def ensure_shell_def)
  show "frame_ok (start_xwayland (add_seat_devices k (bring_up_all A devs (nx_new A cfg maps))))"
    "frame_ok (start_xwayland (add_seat_devices k (install_output A out (nx_new A cfg maps))))"
    using new dev [of "nx_new A cfg maps"] by (intro last; simp add: out)+
qed

text \<open>
  What the missing context costs. If the context of the runtime were entered, which \<open>main\<close> never does, and every call
  succeeded, both backends would build a well-formed compositor, publish the display, spawn the accept loop, take
  every event of the handlers without a panic, end regularly, and leave neither the control socket nor the
  display file nor its temporary file behind. Frames and the callbacks of the X11 window manager are not among
  these events.
\<close>

lemma frame_serves_inside_runtime:
  fixes A :: "('s, 'l, 'x) smithay_api_scheme" and env :: "('l, 'y) boot_env_scheme"
  assumes "space_laws A" and "from_std_documented env" and "\<forall>c. en_ok env c" and "pr_entered p"
    and "run = winit_run A env \<or> run = drm_run A env"
  shows "\<exists>q st. run p = (None, q) \<and> pr_accepting q \<and> pr_looping q \<and> pr_state q = Some st \<and> frame_ok st \<and>
    pr_display q = Some (en_socket_name env) \<and>
    pr_files q = (pr_files p)(display_tmp env := None, display_path env := None, ipc_path env := None)"
proof -
  have fm: "frame_machine A" using assms(1) by unfold_locales
  have rest: "\<exists>q st'. run_steps (from_std_step env # ipc_rest A env) (prefix_done env st p) = (None, q) \<and>
      pr_accepting q \<and> pr_looping q \<and> pr_state q = Some st' \<and> frame_ok st' \<and> pr_display q = Some (en_socket_name env) \<and>
      pr_files q = (pr_files p)(display_tmp env := None, display_path env := None, ipc_path env := None)"
    if "frame_ok (start_xwayland st)" for st
    using frame_machine.run_frame [OF fm that, of "en_events env"] assms(2,3,4)
    by (auto simp: from_std_step_def from_std_documented_def ipc_rest_def step_defs spawn_accept_def runtime_handle_def
        serve_def prefix_done_def set_file_def fun_eq_iff)
  note ok = prefix_ok [OF assms(3), of A p]
  from assms(5) show ?thesis
    by (elim disjE) (simp_all only: run_split run_steps_ok [OF ok(1)] run_steps_ok [OF ok(2)] rest boot_state_ok)
qed

end
