(* ===== verification/Ipc_Sessions.thy ===== *)
theory Ipc_Sessions
  imports Control
begin

text \<open>
  Several connections at once (\<open>accept_loop\<close> and \<open>client_loop\<close> of
  \<open>crates/frame/src/ipc_server.rs\<close>): every accepted connection is a task of its own, and the tasks
  and the compositor's other events interleave in any order. A schedule is the list of what
  happens, in that order.
\<close>

record ipc_conn =
  cx_open :: bool
  cx_out :: "envelope list"

record ('s, 'l) ipc_server =
  sv_state :: "('s, 'l) nullxes_state"
  sv_accepted :: nat
  sv_conns :: "nat \<Rightarrow> ipc_conn"
  sv_sleeps :: "nat list"

datatype server_event = Accept bool | OnConn nat ipc_read bool | LoopEvent frame_event

definition ipc_server_new :: "('s, 'l) nullxes_state \<Rightarrow> ('s, 'l) ipc_server" where
  "ipc_server_new st = \<lparr>sv_state = st, sv_accepted = 0, sv_conns = (\<lambda>_. \<lparr>cx_open = True, cx_out = []\<rparr>), sv_sleeps = []\<rparr>"

text \<open>A failed \<open>accept\<close> sleeps 250 ms and goes on; a successful one spawns the task.\<close>

definition accept_step :: "bool \<Rightarrow> ('s, 'l) ipc_server \<Rightarrow> ('s, 'l) ipc_server" where
  "accept_step ok sv =
     (if ok then sv\<lparr>sv_accepted := Suc (sv_accepted sv)\<rparr> else sv\<lparr>sv_sleeps := sv_sleeps sv @ [250]\<rparr>)"

text \<open>One turn of the loop of connection \<open>i\<close>: a read, and whether writing the reply succeeds.\<close>

definition conn_step where
  "conn_step A reload derr i r write_ok sv =
     (let cx = sv_conns sv i; close = sv\<lparr>sv_conns := (sv_conns sv)(i := cx\<lparr>cx_open := False\<rparr>)\<rparr> in
      if \<not> (i < sv_accepted sv \<and> cx_open cx) then Some sv
      else (case r of
              ReadError \<Rightarrow> Some close
            | ReadEof \<Rightarrow> Some close
            | ReadLine line \<Rightarrow>
                (case ipc_respond A reload derr Serving line (sv_state sv) of
                   None \<Rightarrow> None
                 | Some (st, out) \<Rightarrow>
                     Some (if write_ok
                       then sv\<lparr>sv_state := st, sv_conns := (sv_conns sv)(i := cx\<lparr>cx_out := cx_out cx @ [out]\<rparr>)\<rparr>
                       else close\<lparr>sv_state := st\<rparr>))))"

fun server_step where
  "server_step A reload derr (Accept ok) sv = Some (accept_step ok sv)"
| "server_step A reload derr (OnConn i r w) sv = conn_step A reload derr i r w sv"
| "server_step A reload derr (LoopEvent e) sv =
     map_option (\<lambda>st. sv\<lparr>sv_state := st\<rparr>) (frame_step A (sv_state sv) e)"

definition server_run where
  "server_run A reload derr es sv = fold_opt (server_step A reload derr) es sv"

section \<open>What one connection sees\<close>

text \<open>The id a line is answered with, and the ids of the replies to a list of reads.\<close>

definition line_id :: "json option \<Rightarrow> u64" where
  "line_id line = (case Option.bind line envelope_from_json of Some e \<Rightarrow> env_id e | None \<Rightarrow> 0)"

fun reply_ids :: "(ipc_read \<times> bool) list \<Rightarrow> u64 list" where
  "reply_ids ((ReadLine line, True) # rs) = line_id line # reply_ids rs"
| "reply_ids _ = []"

text \<open>The reads of connection \<open>i\<close> in a schedule, from its acceptance on.\<close>

fun own_reads :: "nat \<Rightarrow> nat \<Rightarrow> server_event list \<Rightarrow> (ipc_read \<times> bool) list" where
  "own_reads i n [] = []"
| "own_reads i n (Accept ok # es) = own_reads i (if ok then Suc n else n) es"
| "own_reads i n (OnConn j r w # es) = (if j = i \<and> i < n then (r, w) # own_reads i n es else own_reads i n es)"
| "own_reads i n (LoopEvent e # es) = own_reads i n es"

definition is_reply :: "envelope \<Rightarrow> bool" where
  "is_reply out \<longleftrightarrow> env_v out = PROTOCOL_VERSION \<and> (\<exists>resp. env_direction out = DirResponse resp)"

lemma ipc_respond_total:
  assumes "frame_ok st"
  shows "\<exists>st' out. ipc_respond A reload derr Serving line st = Some (st', out) \<and> frame_ok st' \<and>
    env_id out = line_id line \<and> is_reply out"
proof -
  have req: "\<exists>s r. handle_request_on_main A reload q st = Some (s, r) \<and> frame_ok s" for q
    using handle_request_ok [OF assms, of A reload q] by (auto dest!: opt_okD)
  show ?thesis
  proof (cases "\<exists>e q. Option.bind line envelope_from_json = Some e \<and> env_v e = PROTOCOL_VERSION \<and>
      env_direction e = DirRequest q")
    case True
    then obtain e q where e: "Option.bind line envelope_from_json = Some e" "env_v e = PROTOCOL_VERSION"
      "env_direction e = DirRequest q" by blast
    obtain s r where "handle_request_on_main A reload q st = Some (s, r)" "frame_ok s" using req by blast
    with e show ?thesis
      by (simp add: ipc_respond_def ipc_dispatch_def envelope_response_def line_id_def is_reply_def)
  next
    case False
    then show ?thesis
      using assms by (auto simp: ipc_respond_def envelope_response_def line_id_def is_reply_def Let_def
          split: option.split direction.split)
  qed
qed

text \<open>
  What connection \<open>i\<close> has been sent and, if the schedule \<open>es\<close> is still to come, will be sent. No
  step changes it: this is the invariant of the run.
\<close>

definition promised :: "('s, 'l) ipc_server \<Rightarrow> nat \<Rightarrow> server_event list \<Rightarrow> u64 list" where
  "promised sv i es = map env_id (cx_out (sv_conns sv i)) @
     (if cx_open (sv_conns sv i) then reply_ids (own_reads i (sv_accepted sv) es) else [])"

lemma promised_Nil [simp]: "promised sv i [] = map env_id (cx_out (sv_conns sv i))"
  by (simp add: promised_def)

lemma promised_new [simp]: "promised (ipc_server_new st) i es = reply_ids (own_reads i 0 es)"
  by (simp add: promised_def ipc_server_new_def)

definition server_ok :: "('s, 'l) ipc_server \<Rightarrow> bool" where
  "server_ok sv \<longleftrightarrow> frame_ok (sv_state sv) \<and> (\<forall>i. \<forall>out \<in> set (cx_out (sv_conns sv i)). is_reply out)"

definition delivers :: "('s, 'l) ipc_server \<Rightarrow> ('s, 'l) ipc_server option \<Rightarrow> server_event \<Rightarrow> bool" where
  "delivers sv r e \<longleftrightarrow> (\<exists>sv1. r = Some sv1 \<and> server_ok sv1 \<and> (\<forall>i es. promised sv1 i es = promised sv i (e # es)))"

lemma conn_step_delivers:
  assumes "server_ok sv"
  shows "delivers sv (conn_step A reload derr i r w sv) (OnConn i r w)"
proof (cases "i < sv_accepted sv \<and> cx_open (sv_conns sv i)")
  case False
  then show ?thesis using assms by (auto simp: delivers_def conn_step_def Let_def promised_def)
next
  case True
  show ?thesis
  proof (cases r)
    case (ReadLine line)
    obtain st out where o: "ipc_respond A reload derr Serving line (sv_state sv) = Some (st, out)" "frame_ok st"
        "env_id out = line_id line" "is_reply out"
      using ipc_respond_total assms unfolding server_ok_def by blast
    then show ?thesis
      using True assms by (cases w) (auto simp: delivers_def conn_step_def Let_def promised_def server_ok_def ReadLine)
  qed (use True assms in \<open>auto simp: delivers_def conn_step_def Let_def promised_def server_ok_def\<close>)
qed

lemma server_step_delivers:
  assumes "space_laws A" and "server_ok sv"
  shows "delivers sv (server_step A reload derr e sv) e"
proof (cases e)
  case (Accept ok)
  then show ?thesis using assms(2) by (simp add: delivers_def accept_step_def promised_def server_ok_def)
next
  case (OnConn i r w)
  then show ?thesis using conn_step_delivers [OF assms(2)] by simp
next
  case (LoopEvent fe)
  have "frame_machine A" using assms(1) by unfold_locales
  then obtain st where "frame_step A (sv_state sv) fe = Some st" "frame_ok st"
    using frame_machine.step_ok [of A "sv_state sv" fe] assms(2) by (auto simp: server_ok_def dest!: opt_okD)
  with LoopEvent assms(2) show ?thesis by (simp add: delivers_def promised_def server_ok_def)
qed

section \<open>Property\<close>

text \<open>
  C15: connections do not disturb each other. Whatever the interleaving of several connections
  with one another and with the compositor's own events, the server never panics, and every
  connection is sent exactly one reply per line it sent, in the order of its lines and each with
  the id of its line, until it hangs up.
\<close>

theorem ipc_connections_independent:
  assumes "space_laws A" and "frame_ok st"
  shows "\<exists>sv. server_run A reload derr es (ipc_server_new st) = Some sv \<and> frame_ok (sv_state sv) \<and>
    (\<forall>i. map env_id (cx_out (sv_conns sv i)) = reply_ids (own_reads i 0 es) \<and>
       list_all is_reply (cx_out (sv_conns sv i)))"
proof -
  have run: "\<exists>sv'. server_run A reload derr es sv = Some sv' \<and> server_ok sv' \<and> (\<forall>i. promised sv' i [] = promised sv i es)"
    if "server_ok sv" for sv
    using that
  proof (induction es arbitrary: sv)
    case (Cons e es)
    then obtain sv1 where sv1: "server_step A reload derr e sv = Some sv1" "server_ok sv1"
      "\<forall>i es. promised sv1 i es = promised sv i (e # es)"
      using server_step_delivers [OF assms(1)] unfolding delivers_def by blast
    with Cons.IH [OF sv1(2)] show ?case by (simp add: server_run_def)
  qed (simp add: server_run_def)
  have "server_ok (ipc_server_new st)" using assms(2) by (simp add: server_ok_def ipc_server_new_def)
  from run [OF this] show ?thesis by (auto simp: server_ok_def list_all_iff)
qed

definition two_clients :: "server_event list" where
  "two_clients = [Accept True, Accept True,
     OnConn 1 (ReadLine (Some (envelope_to_json (envelope_request 7 (SwitchWorkspace 2))))) True,
     LoopEvent LockRequest,
     OnConn 0 (ReadLine None) True,
     OnConn 1 (ReadLine (Some (envelope_to_json (envelope_request 8 GetState)))) True]"

theorem ipc_connections_independent_witness:
  "\<exists>sv. server_run list_smithay frame_config_default (\<lambda>_. []) two_clients (ipc_server_new example_boot) = Some sv \<and>
     map env_id (cx_out (sv_conns sv 1)) = [7, 8] \<and> map env_id (cx_out (sv_conns sv 0)) = [0]"
proof -
  have "reply_ids (own_reads 1 0 two_clients) = [7, 8]" "reply_ids (own_reads 0 0 two_clients) = [0]" by code_simp+
  moreover have "frame_ok example_boot" by (simp add: example_boot_def winit_boot_ok)
  ultimately show ?thesis
    using ipc_connections_independent [OF list_smithay_laws, of example_boot frame_config_default "\<lambda>_. []" two_clients]
    by auto
qed

end
