(* ===== verification/Ipc_Call.thy ===== *)
theory Ipc_Call
  imports Ipc_Server
begin

text \<open>
  Both ends of the control socket: \<open>Client::request\<close> of \<open>crates/ipc/src/client.rs\<close> against one
  connection of the server in \<open>crates/frame/src/ipc_server.rs\<close>. The specification of the protocol is the
  direct call of the compositor's handler; the text form of the JSON values between them is
  \<open>serde_json\<close>'s.
\<close>

section \<open>A request over the socket, and a sequence of them\<close>

definition remote_call where
  "remote_call A reload derr req nid st =
     (case client_send nid req of (env, nid') \<Rightarrow>
        map_option (\<lambda>(st', out). (client_receive (Some (Some (envelope_to_json out))), nid', st'))
          (ipc_respond A reload derr Serving (Some (envelope_to_json env)) st))"

fun remote_calls where
  "remote_calls A reload derr [] nid st = Some ([], nid, st)"
| "remote_calls A reload derr (req # reqs) nid st =
     (case remote_call A reload derr req nid st of
        None \<Rightarrow> None
      | Some (r, nid', st') \<Rightarrow>
          map_option (\<lambda>(rs, nid'', st''). (r # rs, nid'', st'')) (remote_calls A reload derr reqs nid' st'))"

text \<open>The same requests handed to the compositor directly.\<close>

fun direct_calls where
  "direct_calls A reload [] st = Some ([], st)"
| "direct_calls A reload (req # reqs) st =
     (case handle_request_on_main A reload req st of
        None \<Rightarrow> None
      | Some (st', r) \<Rightarrow> map_option (\<lambda>(rs, st''). (r # rs, st'')) (direct_calls A reload reqs st'))"

lemma remote_call_direct:
  "remote_call A reload derr req nid st =
     map_option (\<lambda>(st', r). (Inr r, nid + 1, st')) (handle_request_on_main A reload req st)"
  by (simp add: remote_call_def client_send_def ipc_respond_def ipc_dispatch_def envelope_response_def
      envelope_roundtrip option.map_comp comp_def case_prod_unfold)

section \<open>Property\<close>

text \<open>
  C16: the control socket is transparent. A client that sends any requests one after the other
  gets, each as a proper response and never as a decoding or framing error, exactly the answers
  that direct calls of the compositor's handler give, leaves the compositor in the same state, and
  uses consecutive ids; and the client is left without an answer only where the handler itself
  would panic.
\<close>

theorem remote_calls_are_direct_calls:
  "remote_calls A reload derr reqs nid st =
     map_option (\<lambda>(rs, st'). (map Inr rs, nid + of_nat (length reqs), st')) (direct_calls A reload reqs st)"
proof (induction reqs arbitrary: nid st)
  case (Cons req reqs)
  then show ?case
    by (auto simp: remote_call_direct option.map_comp comp_def case_prod_unfold ac_simps split: option.split)
qed simp

end
