(* ===== verification/Services.thy ===== *)
theory Services
  imports Panel
begin

text \<open>
  The listeners that feed the panel (\<open>crates/frame/src/system\<close>): UPower, NetworkManager and logind.
  What the services answer on D-Bus is given, \<^const>\<open>None\<close> for an error; a listener is the
  sequence of its updates to the panel's module snapshot.
\<close>

section \<open>UPower\<close>

text \<open>
  \<open>v.round().clamp(0.0, 100.0) as u8\<close> for a finite percentage.
\<close>

definition percent_u8 :: "rat \<Rightarrow> u8" where
  "percent_u8 v = word_of_int (max 0 (min 100 (round_away v)))"

record upower_device =
  ud_path_valid :: bool
  ud_builds :: bool
  ud_reopens :: bool
  ud_type :: "nat option"
  ud_percentage :: "rat option"

text \<open>\<open>ud_reopens\<close>: the proxy that \<open>run\<close> builds for the battery again is there.\<close>

text \<open>An invalid path ends the search, a device that cannot be reached is skipped.\<close>

fun pick_battery :: "upower_device list \<Rightarrow> upower_device option" where
  "pick_battery [] = None"
| "pick_battery (d # ds) =
     (if \<not> ud_path_valid d then None
      else if \<not> ud_builds d then pick_battery ds
      else if ud_type d = Some 2 then Some d
      else pick_battery ds)"

datatype upower_event = PercentageChanged "rat option" | OnBatteryChanged "bool option"

fun upower_event_step :: "upower_event \<Rightarrow> module_snapshot \<Rightarrow> module_snapshot" where
  "upower_event_step (PercentageChanged v) snap =
     (case v of Some x \<Rightarrow> snap\<lparr>battery_pct := Some (percent_u8 x)\<rparr> | None \<Rightarrow> snap)"
| "upower_event_step (OnBatteryChanged b) snap =
     (case b of Some x \<Rightarrow> snap\<lparr>on_ac := \<not> x\<rparr> | None \<Rightarrow> snap)"

text \<open>
  \<open>upower::run\<close>. \<open>connects\<close> says whether the system bus and the proxy are there; the events are
  those the two property streams deliver until both end.
\<close>

definition upower_run ::
  "bool \<Rightarrow> bool option \<Rightarrow> upower_device list option \<Rightarrow> upower_event list \<Rightarrow> module_snapshot \<Rightarrow> module_snapshot" where
  "upower_run connects on_battery devices events snap =
     (if \<not> connects then snap
      else let snap1 = snap\<lparr>on_ac := (case on_battery of Some b \<Rightarrow> \<not> b | None \<Rightarrow> True)\<rparr> in
        case Option.bind devices pick_battery of
          None \<Rightarrow> snap1
        | Some dev \<Rightarrow>
            if \<not> ud_reopens dev then snap1
            else let pct = percent_u8 (case ud_percentage dev of Some v \<Rightarrow> v | None \<Rightarrow> 0) in
            fold upower_event_step events (snap1\<lparr>battery_pct := Some pct\<rparr>))"

section \<open>NetworkManager\<close>

record nm_reply =
  nr_state :: "nat option"
  nr_primary :: "rstring option"
  nr_active_builds :: bool
  nr_type :: "rstring option"
  nr_id :: "rstring option"

definition connection_kind :: "rstring \<Rightarrow> network_kind" where
  "connection_kind t =
     (if t = lit ''802-3-ethernet'' then NetWired
      else if t = lit ''802-11-wireless'' then NetWireless
      else NetOther)"

definition nm_update_once :: "nm_reply \<Rightarrow> module_snapshot \<Rightarrow> module_snapshot" where
  "nm_update_once r snap =
     (let connected = 70 \<le> (case nr_state r of Some n \<Rightarrow> n | None \<Rightarrow> 0);
          active = (case nr_primary r of Some path \<Rightarrow> path \<noteq> [] \<and> path \<noteq> lit ''/'' \<and> nr_active_builds r | None \<Rightarrow> False);
          kind = (if active then (case nr_type r of Some t \<Rightarrow> connection_kind t | None \<Rightarrow> NetNone) else NetNone);
          ssid = (if active \<and> kind = NetWireless then nr_id r else None)
      in snap\<lparr>snap_network := \<lparr>net_kind = kind, net_connected = connected, net_ssid = ssid, net_strength = None\<rparr>\<rparr>)"

text \<open>\<open>nm::run\<close>: once at the start, then after every change of the state.\<close>

definition nm_run :: "bool \<Rightarrow> nm_reply \<Rightarrow> nm_reply list \<Rightarrow> module_snapshot \<Rightarrow> module_snapshot" where
  "nm_run connects first_reply changes snap =
     (if connects then fold nm_update_once (first_reply # changes) snap else snap)"

section \<open>logind\<close>

datatype login_event = Sleeping | Wake

text \<open>\<open>login1::run\<close>: the events passed on for the signals received; \<^const>\<open>None\<close> has no arguments.\<close>

definition login1_run :: "bool \<Rightarrow> bool option list \<Rightarrow> login_event list" where
  "login1_run connects signals =
     (if connects then List.map_filter (map_option (\<lambda>start. if start then Sleeping else Wake)) signals else [])"

section \<open>The updates interleaved\<close>

text \<open>Both listeners run at once and each update takes the lock of the snapshot.\<close>

datatype service_update = UPowerUpdate upower_event | AcRead "bool option" | BatteryRead upower_device | NmUpdate nm_reply

fun service_step :: "module_snapshot \<Rightarrow> service_update \<Rightarrow> module_snapshot" where
  "service_step snap (UPowerUpdate e) = upower_event_step e snap"
| "service_step snap (AcRead b) = snap\<lparr>on_ac := (case b of Some x \<Rightarrow> \<not> x | None \<Rightarrow> True)\<rparr>"
| "service_step snap (BatteryRead d) =
     snap\<lparr>battery_pct := Some (percent_u8 (case ud_percentage d of Some v \<Rightarrow> v | None \<Rightarrow> 0))\<rparr>"
| "service_step snap (NmUpdate r) = nm_update_once r snap"

text \<open>
  A well-formed snapshot: a percentage, and a network name only with a wireless connection. The
  label of a battery then has at most three digits.
\<close>

definition snapshot_wf :: "module_snapshot \<Rightarrow> bool" where
  "snapshot_wf snap \<longleftrightarrow> (\<forall>pct. battery_pct snap = Some pct \<longrightarrow> unat pct \<le> 100) \<and>
     (net_kind (snap_network snap) \<noteq> NetWireless \<longrightarrow> net_ssid (snap_network snap) = None) \<and>
     net_strength (snap_network snap) = None"

lemma percent_u8_le: "unat (percent_u8 v) \<le> 100"
proof -
  obtain x where x: "max 0 (min 100 (round_away v)) = x" "0 \<le> x" "x \<le> 100" by simp
  then show ?thesis by (simp add: percent_u8_def unat_eq_nat_uint uint_word_of_int)
qed

interpretation services: event_machine service_step snapshot_wf
proof
  fix snap e
  assume "snapshot_wf snap"
  then show "snapshot_wf (service_step snap e)"
  proof (cases e)
    case (UPowerUpdate ev)
    with \<open>snapshot_wf snap\<close> show ?thesis
      by (cases ev) (auto simp: snapshot_wf_def percent_u8_le split: option.split)
  qed (auto simp: snapshot_wf_def percent_u8_le nm_update_once_def Let_def)
qed

lemma upower_run_steps:
  "\<exists>us. upower_run connects on_battery devices events snap = run_events service_step snap us"
proof -
  have fold_run: "fold upower_event_step events s = run_events service_step s (map UPowerUpdate events)" for s
    by (induction events arbitrary: s) auto
  show ?thesis
  proof (cases "connects \<and> (\<exists>dev. Option.bind devices pick_battery = Some dev \<and> ud_reopens dev)")
    case True
    then obtain dev where "Option.bind devices pick_battery = Some dev" "ud_reopens dev" by auto
    with True have "upower_run connects on_battery devices events snap =
        run_events service_step snap (AcRead on_battery # BatteryRead dev # map UPowerUpdate events)"
      by (simp add: upower_run_def Let_def fold_run)
    then show ?thesis by blast
  next
    case False
    then have "upower_run connects on_battery devices events snap =
        run_events service_step snap (if connects then [AcRead on_battery] else [])"
      by (auto simp: upower_run_def Let_def split: option.split)
    then show ?thesis by blast
  qed
qed

text \<open>The states that the NetworkManager updates of a run have read.\<close>

fun nm_states :: "service_update list \<Rightarrow> nat option list" where
  "nm_states [] = []"
| "nm_states (NmUpdate r # us) = nr_state r # nm_states us"
| "nm_states (_ # us) = nm_states us"

definition is_global :: "nat option \<Rightarrow> bool" where
  "is_global st \<longleftrightarrow> (\<exists>n \<ge> 70. st = Some n)"

lemma upower_event_network [simp]: "snap_network (upower_event_step e s) = snap_network s"
  by (cases e) (auto split: option.split)

lemma connected_last:
  "net_connected (snap_network (run_events service_step s us)) =
     last (net_connected (snap_network s) # map is_global (nm_states us))"
  by (induction us arbitrary: s rule: nm_states.induct)
    (auto simp: nm_update_once_def Let_def is_global_def split: option.split)

section \<open>Property\<close>

text \<open>
  C34: the listeners keep the panel's snapshot well-typed. However their updates interleave, the
  battery is a percentage from 0 to 100, whatever number the service reports, the network has a name only
  when it is wireless, and it counts as connected exactly when the last state read was at
  least 70.
\<close>

theorem services_keep_snapshot_typed:
  "snapshot_wf (run_events service_step module_snapshot_default us) \<and>
   snapshot_wf (upower_run connects on_battery devices events (run_events service_step module_snapshot_default us)) \<and>
   net_connected (snap_network (run_events service_step module_snapshot_default us)) =
     last (False # map is_global (nm_states us))"
proof -
  have wf0: "snapshot_wf module_snapshot_default"
    by (simp add: snapshot_wf_def module_snapshot_default_def)
  note wf = services.run_inv [OF wf0, of us]
  obtain us' where "upower_run connects on_battery devices events (run_events service_step module_snapshot_default us) =
      run_events service_step (run_events service_step module_snapshot_default us) us'"
    using upower_run_steps by blast
  with services.run_inv [OF wf] wf show ?thesis
    by (simp add: connected_last) (simp add: module_snapshot_default_def)
qed

end
