(* ===== verification/Xtask.thy ===== *)
theory Xtask
  imports Prelude "HOL-Library.Sublist"
begin

text \<open>
  The repository's own lint, \<open>xtask check-theme\<close> (\<open>crates/xtask/src/check_theme.rs\<close>): a walk over
  the source tree that reports every line of a Rust file with a colour literal outside the theme
  crate. The file system is a tree whose directories and files may be unreadable.
\<close>

section \<open>Paths and lines\<close>

definition ALLOWED_PREFIXES :: "rstring list" where
  "ALLOWED_PREFIXES = [lit ''crates/theme/'', lit ''tests/'', lit ''target/'', lit ''.git/'',
     lit ''node_modules/'', lit ''packaging/'', lit ''iso/'']"

definition FORBIDDEN_HEX :: rstring where
  "FORBIDDEN_HEX = lit ''Color::from_hex(0x''"

text \<open>\<open>rel.to_string_lossy().replace('\', "/")\<close> for the entry \<open>n\<close> of the directory \<open>d\<close>.\<close>

definition rel_path :: "rstring \<Rightarrow> rstring \<Rightarrow> rstring" where
  "rel_path d n = map (\<lambda>c. if c = 92 then 47 else c) (if d = [] then n else d @ 47 # n)"

definition is_allowed :: "rstring \<Rightarrow> bool" where
  "is_allowed rel \<longleftrightarrow> (\<exists>p \<in> set ALLOWED_PREFIXES. prefix p rel)"

text \<open>\<open>path.extension() == Some("rs")\<close>: the part after the last dot, unless the name is all extension.\<close>

definition is_rust :: "rstring \<Rightarrow> bool" where
  "is_rust n \<longleftrightarrow> suffix (lit ''.rs'') n \<and> 3 < length n"

text \<open>\<open>str::lines\<close>: ended by a line feed that a carriage return may precede.\<close>

fun lines_from :: "rstring \<Rightarrow> rstring \<Rightarrow> rstring list" where
  "lines_from cur [] = (if cur = [] then [] else [cur])"
| "lines_from cur (c # s) =
     (if c = 10 then (if cur \<noteq> [] \<and> last cur = 13 then butlast cur else cur) # lines_from [] s
      else lines_from (cur @ [c]) s)"

definition str_lines :: "rstring \<Rightarrow> rstring list" where
  "str_lines s = lines_from [] s"

text \<open>\<open>line.contains(FORBIDDEN_HEX)\<close>.\<close>

definition has_literal :: "rstring \<Rightarrow> bool" where
  "has_literal line \<longleftrightarrow> sublist FORBIDDEN_HEX line"

section \<open>The walk\<close>

datatype fs_node = FsFile rstring "rstring option" | FsDir rstring "fs_node list option"

datatype xtask_error = ReadDir rstring | ReadFile rstring | Forbidden "rstring list" | NoWorkspaceRoot

definition check_lines :: "rstring \<Rightarrow> rstring \<Rightarrow> rstring list" where
  "check_lines rel txt =
     List.map (\<lambda>(i, line). rel @ [58] @ dec (i + 1) @ [58, 32] @ str_trim line)
       (filter (\<lambda>(i, line). has_literal line) (List.enumerate 0 (str_lines txt)))"

definition check_file :: "rstring \<Rightarrow> rstring option \<Rightarrow> rstring list \<Rightarrow> xtask_error + rstring list" where
  "check_file rel content vs =
     (case content of None \<Rightarrow> Inl (ReadFile rel) | Some txt \<Rightarrow> Inr (vs @ check_lines rel txt))"

fun walk_entries :: "rstring \<Rightarrow> fs_node list \<Rightarrow> rstring list \<Rightarrow> xtask_error + rstring list"
and walk_dir :: "rstring \<Rightarrow> fs_node list option \<Rightarrow> rstring list \<Rightarrow> xtask_error + rstring list"
and walk_entry :: "rstring \<Rightarrow> fs_node \<Rightarrow> rstring list \<Rightarrow> xtask_error + rstring list" where
  "walk_entries d [] vs = Inr vs"
| "walk_entries d (e # es) vs = (case walk_entry d e vs of Inl err \<Rightarrow> Inl err | Inr vs' \<Rightarrow> walk_entries d es vs')"
| "walk_dir d None vs = Inl (ReadDir d)"
| "walk_dir d (Some es) vs = walk_entries d es vs"
| "walk_entry d (FsDir n sub) vs =
     (if is_allowed (rel_path d n) then Inr vs else walk_dir (rel_path d n) sub vs)"
| "walk_entry d (FsFile n content) vs =
     (if is_allowed (rel_path d n) then Inr vs
      else if is_rust n then check_file (rel_path d n) content vs
      else Inr vs)"

text \<open>
  \<open>repo_root\<close>: the current directory or the closest one above it with both markers; \<open>ancestors\<close>
  are the current directory and those above it.
\<close>

fun repo_root :: "(rstring \<Rightarrow> bool) \<Rightarrow> rstring list \<Rightarrow> xtask_error + rstring" where
  "repo_root exist [] = Inl NoWorkspaceRoot"
| "repo_root exist (p # ps) =
     (if exist (path_join p (lit ''Cargo.toml'')) \<and> exist (path_join p (lit ''crates'')) then Inr p
      else repo_root exist ps)"

definition check_theme_run ::
  "(rstring \<Rightarrow> bool) \<Rightarrow> rstring list \<Rightarrow> (rstring \<Rightarrow> fs_node list option) \<Rightarrow> xtask_error + unit" where
  "check_theme_run exist ancestors tree =
     (case repo_root exist ancestors of
        Inl err \<Rightarrow> Inl err
      | Inr base \<Rightarrow>
          (case walk_dir [] (tree base) [] of
             Inl err \<Rightarrow> Inl err
           | Inr vs \<Rightarrow> if vs = [] then Inr () else Inl (Forbidden vs)))"

text \<open>\<open>main\<close>: the only subcommand is the lint.\<close>

datatype xtask_cmd = CheckTheme

fun xtask_main ::
  "xtask_cmd \<Rightarrow> (rstring \<Rightarrow> bool) \<Rightarrow> rstring list \<Rightarrow> (rstring \<Rightarrow> fs_node list option) \<Rightarrow> xtask_error + unit" where
  "xtask_main CheckTheme exist ancestors tree = check_theme_run exist ancestors tree"

section \<open>The files that the lint looks at\<close>

text \<open>\<open>inspected d es rel txt\<close>: the walk of the entries \<open>es\<close> of \<open>d\<close> reaches the Rust file \<open>rel\<close>.\<close>

inductive inspected :: "rstring \<Rightarrow> fs_node list \<Rightarrow> rstring \<Rightarrow> rstring option \<Rightarrow> bool" where
  inspected_file: "FsFile n txt \<in> set es \<Longrightarrow> \<not> is_allowed (rel_path d n) \<Longrightarrow> is_rust n \<Longrightarrow>
    inspected d es (rel_path d n) txt"
| inspected_dir: "FsDir n (Some sub) \<in> set es \<Longrightarrow> \<not> is_allowed (rel_path d n) \<Longrightarrow>
    inspected (rel_path d n) sub rel txt \<Longrightarrow> inspected d es rel txt"

inductive_simps inspected_iff: "inspected d es rel txt"

lemma inspected_Nil [simp]: "\<not> inspected d [] rel txt"
  by (subst inspected_iff) simp

lemma inspected_Cons:
  "inspected d (e # es) rel txt \<longleftrightarrow> inspected d [e] rel txt \<or> inspected d es rel txt"
  unfolding inspected_iff [of d "e # es"] inspected_iff [of d "[e]"] inspected_iff [of d es] by auto

lemma inspected_one_file [simp]:
  "inspected d [FsFile n c] rel txt \<longleftrightarrow> \<not> is_allowed (rel_path d n) \<and> is_rust n \<and> rel = rel_path d n \<and> txt = c"
  unfolding inspected_iff [of d "[FsFile n c]"] by auto

lemma inspected_one_dir [simp]:
  "inspected d [FsDir n sub] rel txt \<longleftrightarrow>
     \<not> is_allowed (rel_path d n) \<and> (\<exists>es. sub = Some es \<and> inspected (rel_path d n) es rel txt)"
  unfolding inspected_iff [of d "[FsDir n sub]"] by auto

definition literal_lines :: "rstring option \<Rightarrow> bool" where
  "literal_lines txt \<longleftrightarrow> (\<exists>s. txt = Some s \<and> (\<exists>line \<in> set (str_lines s). has_literal line))"

lemma check_lines_Nil: "check_lines rel txt = [] \<longleftrightarrow> \<not> literal_lines (Some txt)"
proof -
  have "set (str_lines txt) = snd ` set (List.enumerate 0 (str_lines txt))"
    by (metis map_snd_enumerate set_map)
  then show ?thesis by (auto simp: check_lines_def literal_lines_def filter_empty_conv)
qed

text \<open>A walk that finds every directory and file readable reports exactly the lines of the inspected files.\<close>

lemma walk_reports:
  "walk_entries d es vs = Inr ws \<Longrightarrow> \<exists>us. ws = vs @ us \<and> (us = [] \<longleftrightarrow> (\<forall>rel txt. inspected d es rel txt \<longrightarrow> \<not> literal_lines txt))"
  "walk_dir d sub vs = Inr ws \<Longrightarrow> \<exists>es us. sub = Some es \<and> ws = vs @ us \<and>
     (us = [] \<longleftrightarrow> (\<forall>rel txt. inspected d es rel txt \<longrightarrow> \<not> literal_lines txt))"
  "walk_entry d e vs = Inr ws \<Longrightarrow> \<exists>us. ws = vs @ us \<and> (us = [] \<longleftrightarrow> (\<forall>rel txt. inspected d [e] rel txt \<longrightarrow> \<not> literal_lines txt))"
proof (induction d es vs and d sub vs and d e vs arbitrary: ws and ws and ws rule: walk_entries_walk_dir_walk_entry.induct)
  case (2 d e es vs)
  then obtain vs' where v: "walk_entry d e vs = Inr vs'" "walk_entries d es vs' = Inr ws" by (auto split: sum.splits)
  from "2.IH"(1) [OF v(1)] "2.IH"(2) [OF v(1) v(2)] show ?case
    by (subst inspected_Cons) auto
qed (auto simp: check_file_def check_lines_Nil split: if_splits option.splits)

lemma walk_no_report:
  "walk_entries d es vs = Inl err \<Longrightarrow> \<not> (\<exists>us. err = Forbidden us)"
  "walk_dir d sub vs = Inl err \<Longrightarrow> \<not> (\<exists>us. err = Forbidden us)"
  "walk_entry d e vs = Inl err \<Longrightarrow> \<not> (\<exists>us. err = Forbidden us)"
  by (induction d es vs and d sub vs and d e vs arbitrary: err and err and err
      rule: walk_entries_walk_dir_walk_entry.induct)
    (auto simp: check_file_def split: if_splits option.splits sum.splits)

lemma repo_root_no_report: "repo_root exist ps = Inl err \<Longrightarrow> err = NoWorkspaceRoot"
  by (induction ps) (auto split: if_splits)

section \<open>Properties\<close>

text \<open>
  C36: the lint says what the tree contains. When it succeeds, no line of a Rust file outside the
  allowed directories has a colour literal; when it reports violations, there is such a line.
\<close>

theorem check_theme_verdict:
  "case check_theme_run exist ancestors tree of
     Inr u \<Rightarrow> \<exists>base es. repo_root exist ancestors = Inr base \<and> tree base = Some es \<and>
       (\<forall>rel txt. inspected [] es rel txt \<longrightarrow> \<not> literal_lines txt)
   | Inl err \<Rightarrow> (case err of
       Forbidden vs \<Rightarrow> vs \<noteq> [] \<and> (\<exists>base es rel txt. repo_root exist ancestors = Inr base \<and> tree base = Some es \<and>
         inspected [] es rel txt \<and> literal_lines txt)
     | _ \<Rightarrow> True)"
proof (cases "repo_root exist ancestors")
  case (Inr base)
  show ?thesis
  proof (cases "walk_dir [] (tree base) []")
    case (Inl err)
    then show ?thesis using \<open>repo_root exist ancestors = Inr base\<close> walk_no_report(2) [OF Inl]
      by (auto simp: check_theme_run_def split: xtask_error.split)
  next
    case (Inr vs)
    with walk_reports(2) [OF Inr] \<open>repo_root exist ancestors = Inr base\<close> show ?thesis
      by (auto simp: check_theme_run_def)
  qed
qed (auto simp: check_theme_run_def dest: repo_root_no_report split: xtask_error.split)

definition bad_line :: rstring where
  "bad_line = lit ''let c = Color::from_hex(0x112233);''"

theorem check_theme_verdict_witness:
  "\<exists>rel txt. inspected [] [FsFile (lit ''a.rs'') (Some bad_line)] rel txt \<and> literal_lines txt"
proof -
  let ?tree = "\<lambda>p. Some [FsFile (lit ''a.rs'') (Some bad_line)]"
  have "has_literal bad_line" "str_lines bad_line = [bad_line]" by code_simp+
  then have "check_lines (lit ''a.rs'') bad_line \<noteq> []" by (simp add: check_lines_Nil literal_lines_def)
  moreover have "\<not> is_allowed (lit ''a.rs'')" "is_rust (lit ''a.rs'')" "rel_path [] (lit ''a.rs'') = lit ''a.rs''"
    by code_simp+
  ultimately have "check_theme_run (\<lambda>p. True) [lit ''/src''] ?tree = Inl (Forbidden (check_lines (lit ''a.rs'') bad_line))"
    by (simp add: check_theme_run_def check_file_def)
  with check_theme_verdict [of "\<lambda>p. True" "[lit ''/src'']" ?tree] show ?thesis by auto
qed

definition own_line :: rstring where
  "own_line = lit ''const FORBIDDEN_HEX: &str = \"Color::from_hex(0x\";''"

text \<open>
  The lint fails on its own repository. Its source file lies outside the allowed directories
  and the line that defines the forbidden text contains it, so on every tree with this file it
  does not succeed.
\<close>

lemma check_theme_rejects_its_own_source:
  assumes "repo_root exist ancestors = Inr base" and "tree base = Some es"
    and "FsDir (lit ''crates'') (Some crates) \<in> set es" and "FsDir (lit ''xtask'') (Some xtask) \<in> set crates"
    and "FsDir (lit ''src'') (Some srcs) \<in> set xtask"
    and "FsFile (lit ''check_theme.rs'') (Some txt) \<in> set srcs" and "own_line \<in> set (str_lines txt)"
  shows "\<exists>err. check_theme_run exist ancestors tree = Inl err"
proof -
  have paths: "rel_path [] (lit ''crates'') = lit ''crates''"
    "rel_path (lit ''crates'') (lit ''xtask'') = lit ''crates/xtask''"
    "rel_path (lit ''crates/xtask'') (lit ''src'') = lit ''crates/xtask/src''"
    "rel_path (lit ''crates/xtask/src'') (lit ''check_theme.rs'') = lit ''crates/xtask/src/check_theme.rs''"
    "\<not> is_allowed (lit ''crates'')" "\<not> is_allowed (lit ''crates/xtask'')" "\<not> is_allowed (lit ''crates/xtask/src'')"
    "\<not> is_allowed (lit ''crates/xtask/src/check_theme.rs'')" "is_rust (lit ''check_theme.rs'')" by code_simp+
  have "inspected (lit ''crates/xtask/src'') srcs (lit ''crates/xtask/src/check_theme.rs'') (Some txt)"
    using inspected_file [OF assms(6), of "lit ''crates/xtask/src''"] by (simp add: paths)
  then have "inspected (lit ''crates/xtask'') xtask (lit ''crates/xtask/src/check_theme.rs'') (Some txt)"
    using inspected_dir [OF assms(5), of "lit ''crates/xtask''"] by (simp add: paths)
  then have "inspected (lit ''crates'') crates (lit ''crates/xtask/src/check_theme.rs'') (Some txt)"
    using inspected_dir [OF assms(4), of "lit ''crates''"] by (simp add: paths)
  then have i: "inspected [] es (lit ''crates/xtask/src/check_theme.rs'') (Some txt)"
    using inspected_dir [OF assms(3), of "[]"] by (simp add: paths)
  have "has_literal own_line" by code_simp
  with assms(7) have l: "literal_lines (Some txt)" by (auto simp: literal_lines_def)
  show ?thesis
  proof (cases "walk_dir [] (tree base) []")
    case (Inr vs)
    with walk_reports(2) [OF Inr] assms(2) i l show ?thesis by (auto simp: check_theme_run_def assms(1))
  qed (simp add: check_theme_run_def assms(1))
qed

end
