(* ===== verification/Theme_Export.thy ===== *)
theory Theme_Export
  imports Theme Launcher_Apps
begin

text \<open>
  The branding assets made from the theme (\<open>crates/theme/src/export\<close>) and the command that makes
  them (\<open>crates/theme/src/bin/theme_export.rs\<close>): style sheets for GTK, a palette for Qt, the marks of
  the boot splash, an icon theme and the greeter's environment file. The encoders of the image
  library, the two static plymouth files and the file system are parameters.
\<close>

section \<open>Colours as text\<close>

text \<open>
  \<open>{:.0}\<close> and \<open>{:.3}\<close> of a finite \<open>f32\<close> that is not negative: the exact value rounded to the last
  digit, ties to even. \<open>{:02x}\<close> of a byte.
\<close>

definition fixed0 :: "rat \<Rightarrow> rstring" where
  "fixed0 x = dec (nat (round_even x))"

definition fixed3 :: "rat \<Rightarrow> rstring" where
  "fixed3 x =
     (let n = nat (round_even (x * 1000))
      in dec (n div 1000) @ [46, 48 + n div 100 mod 10, 48 + n div 10 mod 10, 48 + n mod 10])"

definition hex_digit :: "nat \<Rightarrow> rchar" where
  "hex_digit d = (if d < 10 then 48 + d else 87 + d)"

definition hex2 :: "u8 \<Rightarrow> rstring" where
  "hex2 b = [hex_digit (unat b div 16), hex_digit (unat b mod 16)]"

definition gtk_rgba :: "color \<Rightarrow> rstring" where
  "gtk_rgba c =
     lit ''rgba('' @ fixed0 (fl 24 (col_r c * 255)) @ lit '', '' @ fixed0 (fl 24 (col_g c * 255)) @ lit '', '' @
     fixed0 (fl 24 (col_b c * 255)) @ lit '', '' @ fixed3 (col_a c) @ lit '')''"

definition qt_rgb :: "color \<Rightarrow> rstring" where
  "qt_rgb c = (case to_u8 c of (r, g, b, _) \<Rightarrow> [35] @ hex2 r @ hex2 g @ hex2 b)"

section \<open>Style sheets and palettes\<close>

definition css_lines :: "rstring list \<Rightarrow> rstring" where
  "css_lines ls = concat (map (\<lambda>l. l @ [10]) ls)"

definition gtk3 :: "color \<Rightarrow> rstring" where
  "gtk3 accent_color =
     (let bg = gtk_rgba BG; fg = gtk_rgba TEXT_PRIMARY; fg_disabled = gtk_rgba TEXT_DISABLED;
          surf2 = gtk_rgba SURFACE_2; surf3 = gtk_rgba SURFACE_3; surf4 = gtk_rgba SURFACE_4;
          surf5 = gtk_rgba SURFACE_5; divider = gtk_rgba DIVIDER; accent = gtk_rgba accent_color
      in css_lines [
     lit ''/* NULLXES GTK 3 '' @ [0x2014] @ lit '' generated by theme-export. Do not edit. */'',
     lit ''@define-color theme_bg_color '' @ bg @ lit '';'',
     lit ''@define-color theme_fg_color '' @ fg @ lit '';'',
     lit ''@define-color theme_base_color '' @ surf2 @ lit '';'',
     lit ''@define-color theme_text_color '' @ fg @ lit '';'',
     lit ''@define-color theme_selected_bg_color '' @ accent @ lit '';'',
     lit ''@define-color theme_selected_fg_color '' @ bg @ lit '';'',
     lit ''@define-color insensitive_bg_color '' @ surf3 @ lit '';'',
     lit ''@define-color insensitive_fg_color '' @ fg_disabled @ lit '';'',
     lit ''@define-color borders '' @ divider @ lit '';'',
     [],
     lit ''window {'',
     lit ''    background-color: @theme_bg_color;'',
     lit ''    color: @theme_fg_color;'',
     lit ''}'',
     [],
     lit ''button {'',
     lit ''    background-color: '' @ surf3 @ lit '';'',
     lit ''    color: '' @ fg @ lit '';'',
     lit ''    border: 1px solid '' @ divider @ lit '';'',
     lit ''    padding: 6px 12px;'',
     lit ''    border-radius: 4px;'',
     lit ''}'',
     lit ''button:hover { background-color: '' @ surf4 @ lit ''; }'',
     lit ''button:active { background-color: '' @ surf5 @ lit ''; }''])"

definition gtk4 :: "color \<Rightarrow> rstring" where
  "gtk4 accent_color =
     (let bg = gtk_rgba BG; fg = gtk_rgba TEXT_PRIMARY; surf2 = gtk_rgba SURFACE_2;
          divider = gtk_rgba DIVIDER; accent = gtk_rgba accent_color; destructive = gtk_rgba DESTRUCTIVE;
          success = gtk_rgba SUCCESS; warning = gtk_rgba WARNING
      in css_lines [
     lit ''/* NULLXES GTK 4 '' @ [0x2014] @ lit '' generated by theme-export. Do not edit. */'',
     lit ''@define-color window_bg_color '' @ bg @ lit '';'',
     lit ''@define-color view_bg_color '' @ surf2 @ lit '';'',
     lit ''@define-color window_fg_color '' @ fg @ lit '';'',
     lit ''@define-color view_fg_color '' @ fg @ lit '';'',
     lit ''@define-color accent_bg_color '' @ accent @ lit '';'',
     lit ''@define-color accent_color '' @ accent @ lit '';'',
     lit ''@define-color accent_fg_color '' @ bg @ lit '';'',
     lit ''@define-color destructive_bg_color '' @ destructive @ lit '';'',
     lit ''@define-color destructive_color '' @ destructive @ lit '';'',
     lit ''@define-color destructive_fg_color '' @ bg @ lit '';'',
     lit ''@define-color success_bg_color '' @ success @ lit '';'',
     lit ''@define-color success_color '' @ success @ lit '';'',
     lit ''@define-color warning_bg_color '' @ warning @ lit '';'',
     lit ''@define-color warning_color '' @ warning @ lit '';'',
     lit ''@define-color error_bg_color '' @ destructive @ lit '';'',
     lit ''@define-color error_color '' @ destructive @ lit '';'',
     lit ''@define-color shade_color rgba(0, 0, 0, 0.36);'',
     lit ''@define-color borders '' @ divider @ lit '';'',
     [],
     lit ''window { background-color: @window_bg_color; color: @window_fg_color; }'',
     [],
     lit ''button.suggested-action { background-color: @accent_bg_color; color: @accent_fg_color; }'',
     lit ''button.destructive-action { background-color: @destructive_bg_color; color: @destructive_fg_color; }''])"

text \<open>The twenty colour roles of a Qt palette, with the text colours as arguments.\<close>

definition qt_roles :: "rstring \<Rightarrow> rstring \<Rightarrow> rstring list" where
  "qt_roles accent txt =
     (let bg = qt_rgb BG; surf2 = qt_rgb SURFACE_2; surf3 = qt_rgb SURFACE_3; surf4 = qt_rgb SURFACE_4; acc_fg = qt_rgb BG
      in [surf2, txt, surf3, surf2, surf4, txt, txt, surf2, txt, bg, bg, txt, accent, acc_fg, accent,
          txt, txt, txt, bg, txt])"

fun comma_separated :: "rstring list \<Rightarrow> rstring" where
  "comma_separated [] = []"
| "comma_separated [x] = x"
| "comma_separated (x # xs) = x @ [44] @ comma_separated xs"

definition qt_palette :: "color \<Rightarrow> rstring" where
  "qt_palette accent_color =
     (let txt = qt_rgb TEXT_PRIMARY; acc = qt_rgb accent_color; dis = qt_rgb TEXT_DISABLED
      in css_lines [lit ''[ColorScheme]'',
           lit ''active_colors='' @ comma_separated (qt_roles acc txt),
           lit ''disabled_colors='' @ comma_separated (qt_roles acc dis),
           lit ''inactive_colors='' @ comma_separated (qt_roles acc txt)])"

definition icon_theme :: rstring where
  "icon_theme = css_lines [lit ''[Icon Theme]'', lit ''Name=NULLXES'', lit ''Comment=NULLXES system icon theme'',
     lit ''Inherits=Adwaita,hicolor'', lit ''Directories='']"

definition greeter_env_text :: rstring where
  "greeter_env_text = css_lines [lit ''# NULLXES NX-GREET configuration (read by /usr/bin/nullxes-greet)'',
     lit ''# Optional startup wallpaper for greeter:'',
     lit ''# NULLXES_GREET_BACKGROUND=/usr/share/nullxes/backgrounds/default.png'']"

section \<open>The marks\<close>

text \<open>An \<open>RgbaImage\<close>: \<open>put_pixel\<close> panics outside the image.\<close>

type_synonym pixel = "u8 \<times> u8 \<times> u8 \<times> u8"

record image =
  im_width :: nat
  im_height :: nat
  im_pixels :: "pixel list"

definition from_pixel :: "nat \<Rightarrow> nat \<Rightarrow> pixel \<Rightarrow> image" where
  "from_pixel w h c = \<lparr>im_width = w, im_height = h, im_pixels = replicate (w * h) c\<rparr>"

definition put_pixel :: "nat \<Rightarrow> nat \<Rightarrow> pixel \<Rightarrow> image \<Rightarrow> image option" where
  "put_pixel x y c im =
     (if x < im_width im \<and> y < im_height im
      then Some (im\<lparr>im_pixels := (im_pixels im)[y * im_width im + x := c]\<rparr>) else None)"

definition get_pixel :: "image \<Rightarrow> nat \<Rightarrow> nat \<Rightarrow> pixel" where
  "get_pixel im x y = im_pixels im ! (y * im_width im + x)"

text \<open>The guarded write of both marks, and the loops over a square of 18 by 18.\<close>

definition mark_pixel :: "int \<Rightarrow> int \<Rightarrow> pixel \<Rightarrow> image \<Rightarrow> image option" where
  "mark_pixel px py c im =
     (if 0 \<le> px \<and> 0 \<le> py \<and> nat px < im_width im \<and> nat py < im_height im
      then put_pixel (nat px) (nat py) c im else Some im)"

definition mark_square :: "int \<Rightarrow> pixel \<Rightarrow> int \<times> int \<Rightarrow> image \<Rightarrow> image option" where
  "mark_square dot c = (\<lambda>(x, y). fold_opt (\<lambda>dy. fold_opt (\<lambda>dx. mark_pixel (x + dx) (y + dy) c) [0..dot - 1]) [0..dot - 1])"

definition plymouth_logo :: "color \<Rightarrow> image option" where
  "plymouth_logo accent =
     (let cx = i32_quot 96 2; cy = i32_quot 96 2; dot = 18; gap = 6
      in fold_opt (mark_square dot (to_u8 accent))
           [(cx - dot - i32_quot gap 2, cy - dot - i32_quot gap 2), (cx + i32_quot gap 2, cy - dot - i32_quot gap 2),
            (cx - dot - i32_quot gap 2, cy + i32_quot gap 2), (cx + i32_quot gap 2, cy + i32_quot gap 2)]
           (from_pixel 96 96 (to_u8 BG)))"

definition systemd_splash :: "color \<Rightarrow> image option" where
  "systemd_splash accent =
     (let cx = i32_quot 256 2; cy = i32_quot 128 2
      in fold_opt (\<lambda>(dx, dy). mark_square 18 (to_u8 accent) (cx + dx, cy + dy)) [(-22, -22), (4, -22), (-22, 4), (4, 4)]
           (from_pixel 256 128 (to_u8 BG)))"

section \<open>Writing the files\<close>

datatype export_op = MkDir rstring | WriteText rstring rstring | WriteImage rstring "image option"

text \<open>
  The operations run until one fails; an image that panics or cannot be encoded stops it. \<open>ex_left\<close> is what the
  failed operation leaves in its target, given what was there: \<open>std::fs::write\<close> and \<open>save\<close> write in place, so
  it may be anything.
\<close>

record export_env =
  ex_ok :: "export_op \<Rightarrow> bool"
  ex_left :: "export_op \<Rightarrow> rstring option \<Rightarrow> rstring option"
  ex_encode :: "rstring \<Rightarrow> image \<Rightarrow> rstring option"
  ex_plymouth :: "rstring \<times> rstring"

definition op_target :: "export_op \<Rightarrow> rstring option" where
  "op_target op = (case op of MkDir d \<Rightarrow> None | WriteText p s \<Rightarrow> Some p | WriteImage p im \<Rightarrow> Some p)"

definition export_op_run ::
  "export_env \<Rightarrow> export_op \<Rightarrow> (rstring \<Rightarrow> rstring option) \<Rightarrow> (rstring \<Rightarrow> rstring option) option" where
  "export_op_run ex op files =
     (if \<not> ex_ok ex op then None
      else case op of
        MkDir d \<Rightarrow> Some files
      | WriteText p s \<Rightarrow> Some (files(p := Some s))
      | WriteImage p im \<Rightarrow>
          map_option (\<lambda>s. files(p := Some s)) (Option.bind im (ex_encode ex p)))"

definition export_op_failed ::
  "export_env \<Rightarrow> export_op \<Rightarrow> (rstring \<Rightarrow> rstring option) \<Rightarrow> rstring \<Rightarrow> rstring option" where
  "export_op_failed ex op files =
     (case op_target op of None \<Rightarrow> files | Some p \<Rightarrow> files(p := ex_left ex op (files p)))"

fun export_run ::
  "export_env \<Rightarrow> export_op list \<Rightarrow> (rstring \<Rightarrow> rstring option) \<Rightarrow> bool \<times> (rstring \<Rightarrow> rstring option)" where
  "export_run ex [] files = (True, files)"
| "export_run ex (op # ops) files =
     (case export_op_run ex op files of
        None \<Rightarrow> (False, export_op_failed ex op files)
      | Some files' \<Rightarrow> export_run ex ops files')"

definition export_gtk :: "theme \<Rightarrow> rstring \<Rightarrow> export_op list" where
  "export_gtk t out =
     [MkDir (path_join out (lit ''gtk-3.0'')), MkDir (path_join out (lit ''gtk-4.0'')),
      WriteText (path_join out (lit ''gtk-3.0/gtk.css'')) (gtk3 (theme_accent t)),
      WriteText (path_join out (lit ''gtk-4.0/gtk.css'')) (gtk4 (theme_accent t))]"

definition export_qt :: "theme \<Rightarrow> rstring \<Rightarrow> export_op list" where
  "export_qt t out = [MkDir out, WriteText (path_join out (lit ''nullxes.conf'')) (qt_palette (theme_accent t))]"

definition export_plymouth :: "export_env \<Rightarrow> theme \<Rightarrow> rstring \<Rightarrow> export_op list" where
  "export_plymouth ex t out =
     [MkDir out, WriteText (path_join out (lit ''nullxes.plymouth'')) (fst (ex_plymouth ex)),
      WriteText (path_join out (lit ''nullxes.script'')) (snd (ex_plymouth ex)),
      WriteImage (path_join out (lit ''logo.png'')) (plymouth_logo (theme_accent t))]"

definition export_systemd_boot :: "theme \<Rightarrow> rstring \<Rightarrow> export_op list" where
  "export_systemd_boot t out =
     [MkDir out, WriteImage (path_join out (lit ''splash.bmp'')) (systemd_splash (theme_accent t))]"

definition export_greetd :: "theme \<Rightarrow> rstring \<Rightarrow> export_op list" where
  "export_greetd t out = [MkDir out, WriteText (path_join out (lit ''greet.env'')) greeter_env_text]"

definition export_icons :: "theme \<Rightarrow> rstring \<Rightarrow> export_op list" where
  "export_icons t out = [MkDir out, WriteText (path_join out (lit ''index.theme'')) icon_theme]"

section \<open>The command\<close>

datatype export_cmd = CmdGtk rstring | CmdQt6 rstring | CmdPlymouth rstring | CmdSystemdBoot rstring
  | CmdGreetd rstring | CmdIcons rstring | CmdAll rstring

fun export_ops :: "export_env \<Rightarrow> theme \<Rightarrow> export_cmd \<Rightarrow> export_op list" where
  "export_ops ex t (CmdGtk out) = export_gtk t out"
| "export_ops ex t (CmdQt6 out) = export_qt t out"
| "export_ops ex t (CmdPlymouth out) = export_plymouth ex t out"
| "export_ops ex t (CmdSystemdBoot out) = export_systemd_boot t out"
| "export_ops ex t (CmdGreetd out) = export_greetd t out"
| "export_ops ex t (CmdIcons out) = export_icons t out"
| "export_ops ex t (CmdAll out) =
     export_gtk t (path_join out (lit ''themes/NULLXES'')) @ export_qt t (path_join out (lit ''qt6'')) @
     export_plymouth ex t (path_join out (lit ''plymouth/nullxes'')) @
     export_systemd_boot t (path_join out (lit ''systemd-boot'')) @
     export_greetd t (path_join out (lit ''greetd'')) @ export_icons t (path_join out (lit ''icons/NULLXES''))"

definition theme_export_main ::
  "export_env \<Rightarrow> (rstring \<Rightarrow> theme option) \<Rightarrow> rstring \<Rightarrow> export_cmd \<Rightarrow> (rstring \<Rightarrow> rstring option) \<Rightarrow>
   bool \<times> (rstring \<Rightarrow> rstring option)" where
  "theme_export_main ex parse path cmd files =
     export_run ex (export_ops ex (theme_load_or_default files parse path) cmd) files"

section \<open>What the colour texts say\<close>

lemma hex_value_digit: "d < 16 \<Longrightarrow> hex_value (hex_digit d) = Some d"
  by (auto simp: hex_value_def hex_digit_def)

lemma hex2_digits:
  assumes "256 * n + unat b < 2 ^ 32"
  shows "hex_digits_value n (hex2 b @ s) = hex_digits_value (256 * n + unat b) s"
proof -
  define q r where "q = unat b div 16" and "r = unat b mod 16"
  have "unat b < 256" using unsigned_less [of b] by simp
  then have d: "q < 16" "r < 16" "16 * q + r = unat b"
    by (simp_all add: q_def r_def div_less_iff_less_mult)
  have "16 * n + q < 2 ^ 32" using assms unfolding d(3) [symmetric] by simp
  moreover have "hex2 b @ s = hex_digit q # hex_digit r # s" by (simp add: hex2_def q_def r_def)
  ultimately show ?thesis using assms d(1,2) by (simp add: hex_value_digit d(3) [symmetric] add.assoc)
qed

lemma low_bytes: "(n div 65536) mod 256 * 65536 + (n div 256) mod 256 * 256 + n mod 256 = n mod (2 ^ 24 :: nat)"
proof -
  have "n mod (256 * 65536) = 65536 * (n div 65536 mod 256) + n mod 65536"
    using mod_mult2_eq [of n 65536 256] by (simp add: mult.commute)
  moreover have "n mod (256 * 256) = 256 * (n div 256 mod 256) + n mod 256"
    by (rule mod_mult2_eq)
  ultimately show ?thesis by simp
qed

lemma unat_ucast_u8: "unat (ucast w :: u8) = unat (w :: u32) mod 256"
  by (simp add: unsigned_ucast_eq take_bit_eq_mod)

lemma unat_byte: "unat (ucast (drop_bit k w) :: u8) = unat (w :: u32) div 2 ^ k mod 256"
  by (simp add: unsigned_ucast_eq take_bit_eq_mod unat_drop_bit_eq flip: drop_bit_eq_div)

text \<open>The low 24 bits of a literal, as both exports write them.\<close>

definition rgb_value :: "u32 \<Rightarrow> u32" where
  "rgb_value h = of_nat (unat h mod 2 ^ 24)"

lemma qt_rgb_parses:
  "qt_rgb (from_hex h) = 35 # tl (qt_rgb (from_hex h)) \<and>
   from_str_radix_16 (tl (qt_rgb (from_hex h))) = Some (rgb_value h)"
proof -
  let ?r = "ucast (drop_bit 16 h) :: u8" and ?g = "ucast (drop_bit 8 h) :: u8" and ?b = "ucast h :: u8"
  have t: "qt_rgb (from_hex h) = 35 # hex2 ?r @ hex2 ?g @ hex2 ?b"
    by (simp add: qt_rgb_def to_u8_def from_hex_def rgba_def channel_byte)
  have lt: "unat ?r < 256" "unat ?g < 256" "unat ?b < 256"
    using unsigned_less [of ?r] unsigned_less [of ?g] unsigned_less [of ?b] by simp_all
  have "hex_digits_value 0 (hex2 ?r @ hex2 ?g @ hex2 ?b) = Some (256 * (256 * unat ?r + unat ?g) + unat ?b)"
    using lt hex2_digits [of 0 ?r "hex2 ?g @ hex2 ?b"] hex2_digits [of "unat ?r" ?g "hex2 ?b"]
      hex2_digits [of "256 * unat ?r + unat ?g" ?b "[]"] by simp
  also have "256 * (256 * unat ?r + unat ?g) + unat ?b = unat h mod 2 ^ 24"
    using low_bytes [of "unat h"] unfolding unat_byte unfolding unat_ucast_u8 by simp
  finally have "hex_digits_value 0 (hex2 ?r @ hex2 ?g @ hex2 ?b) = Some (unat h mod 2 ^ 24)" .
  moreover have "hex2 ?r @ hex2 ?g @ hex2 ?b \<noteq> []" "hd (hex2 ?r @ hex2 ?g @ hex2 ?b) \<noteq> 43"
    by (simp_all add: hex2_def hex_digit_def)
  ultimately show ?thesis by (auto simp: t from_str_radix_16_def Let_def rgb_value_def split: list.splits)
qed

text \<open>An integral channel is printed without a fraction.\<close>

lemma fixed0_nat: "fixed0 (of_nat n) = dec n"
  by (simp add: fixed0_def round_even_def Let_def)

lemma gtk_rgba_text:
  "gtk_rgba (from_hex h) = (case hex_bytes h of (r, g, b) \<Rightarrow>
     lit ''rgba('' @ dec (unat r) @ lit '', '' @ dec (unat g) @ lit '', '' @ dec (unat b) @ lit '', 1.000)'')"
proof -
  have ch: "fl 24 (byte_channel (unat (and w 0xFF :: u32)) * 255) = of_nat (unat (ucast w :: u8))" for w
  proof -
    have "unat (and w 0xFF :: u32) = unat (ucast w :: u8)"
      using and_255_less [of w] by (metis ucast_and_255 unat_ucast_u8 mod_less)
    then show ?thesis using channel_roundtrip [OF and_255_less [of w]] by metis
  qed
  have "fixed3 1 = lit ''1.000''" by code_simp
  then show ?thesis
    by (simp add: gtk_rgba_def from_hex_def rgba_def ch fixed0_nat hex_bytes_def lit_def del: of_nat_unat)
qed

section \<open>Reading the exports back\<close>

text \<open>
  What GTK and qt6ct look up: the values that the lines \<open>@define-color name value;\<close> of a style sheet give a name, and the
  lists of colours that the lines \<open>key=...\<close> of a palette give a key. Role 12 of a Qt palette is the highlight, role 14 the
  link.
\<close>

fun strip_prefix :: "rstring \<Rightarrow> rstring \<Rightarrow> rstring option" where
  "strip_prefix [] l = Some l"
| "strip_prefix (p # ps) [] = None"
| "strip_prefix (p # ps) (x # xs) = (if p = x then strip_prefix ps xs else None)"

definition lines_with :: "rstring \<Rightarrow> rstring \<Rightarrow> rstring list" where
  "lines_with p text = List.map_filter (strip_prefix p) (str_split 10 text)"

definition css_colors :: "string \<Rightarrow> rstring \<Rightarrow> rstring list" where
  "css_colors name text =
     map (takeWhile (\<lambda>c. c \<noteq> 59)) (lines_with (lit ''@define-color '' @ lit name @ [32]) text)"

definition qt_colors :: "string \<Rightarrow> rstring \<Rightarrow> rstring list list" where
  "qt_colors key text = map (str_split 44) (lines_with (lit key @ [61]) text)"

lemma str_split_append: "c \<notin> set l \<Longrightarrow> str_split c (l @ c # s) = l # str_split c s"
  by (induction l) auto

lemma str_split_whole: "c \<notin> set l \<Longrightarrow> str_split c l = [l]"
  by (induction l) auto

lemma split_css_lines: "list_all (\<lambda>l. 10 \<notin> set l) ls \<Longrightarrow> str_split 10 (css_lines ls) = ls @ [[]]"
  by (induction ls) (auto simp: css_lines_def str_split_append)

lemma split_commas: "list_all (\<lambda>r. 44 \<notin> set r) rs \<Longrightarrow> rs \<noteq> [] \<Longrightarrow> str_split 44 (comma_separated rs) = rs"
  by (induction rs rule: comma_separated.induct) (auto simp: str_split_append str_split_whole)

lemma dec_digits: "c \<in> set (dec n) \<Longrightarrow> 48 \<le> c \<and> c \<le> 57"
proof (induction n rule: dec.induct)
  case (1 n)
  show ?case using 1 by (subst (asm) (2) dec.simps) (auto split: if_splits)
qed

lemma gtk_rgba_chars [simp]: "10 \<notin> set (gtk_rgba c)" "59 \<notin> set (gtk_rgba c)"
  by (auto simp: gtk_rgba_def fixed0_def fixed3_def Let_def lit_def dest!: dec_digits)

lemma qt_rgb_chars [simp]: "10 \<notin> set (qt_rgb c)" "44 \<notin> set (qt_rgb c)"
  by (auto simp: qt_rgb_def hex2_def hex_digit_def split: prod.split)

lemma takeWhile_value [simp]: "59 \<notin> set v \<Longrightarrow> takeWhile (\<lambda>c. c \<noteq> 59) (v @ [59]) = v"
  by (subst takeWhile_append2) auto

lemma gtk3_accent: "css_colors ''theme_selected_bg_color'' (gtk3 a) = [gtk_rgba a]"
  unfolding css_colors_def lines_with_def gtk3_def Let_def
  by (subst split_css_lines) (simp_all add: lit_def List.map_filter_simps)

lemma gtk4_accent:
  "css_colors ''accent_color'' (gtk4 a) = [gtk_rgba a]" "css_colors ''accent_bg_color'' (gtk4 a) = [gtk_rgba a]"
  unfolding css_colors_def lines_with_def gtk4_def Let_def
  by (subst split_css_lines; simp add: lit_def List.map_filter_simps)+

lemma comma_separated_chars: "list_all (\<lambda>r. c \<notin> set r) rs \<Longrightarrow> c \<noteq> 44 \<Longrightarrow> c \<notin> set (comma_separated rs)"
  by (induction rs rule: comma_separated.induct) auto

lemma qt_roles_chars [simp]:
  "list_all (\<lambda>r. 10 \<notin> set r) (qt_roles (qt_rgb a) (qt_rgb t))" "list_all (\<lambda>r. 44 \<notin> set r) (qt_roles (qt_rgb a) (qt_rgb t))"
  "qt_roles (qt_rgb a) (qt_rgb t) \<noteq> []"
  by (simp_all add: qt_roles_def Let_def)

lemma qt_palette_lines:
  "qt_colors ''active_colors'' (qt_palette a) = [qt_roles (qt_rgb a) (qt_rgb TEXT_PRIMARY)]"
  "qt_colors ''disabled_colors'' (qt_palette a) = [qt_roles (qt_rgb a) (qt_rgb TEXT_DISABLED)]"
  "qt_colors ''inactive_colors'' (qt_palette a) = [qt_roles (qt_rgb a) (qt_rgb TEXT_PRIMARY)]"
  unfolding qt_colors_def lines_with_def qt_palette_def Let_def
  by (subst split_css_lines; simp add: lit_def List.map_filter_simps comma_separated_chars split_commas)+

section \<open>What the marks show\<close>

definition image_ok :: "image \<Rightarrow> bool" where
  "image_ok im \<longleftrightarrow> length (im_pixels im) = im_width im * im_height im"

lemma pixel_index_eq:
  "x < w \<Longrightarrow> x' < w \<Longrightarrow> y * w + x = y' * w + x' \<longleftrightarrow> x = x' \<and> y = (y' :: nat)"
  by (metis add.commute div_mult_self_is_m div_mult_self1 div_less mod_mult_self1 mod_less add_0 mult.commute
      less_nat_zero_code add_left_cancel)

lemma pixel_index_less: "x < w \<Longrightarrow> y < h \<Longrightarrow> y * w + x < w * (h :: nat)"
proof -
  assume "x < w" "y < h"
  then have "y * w + x < Suc y * w" by simp
  also have "\<dots> \<le> h * w" using \<open>y < h\<close> by (intro mult_le_mono1) simp
  finally show ?thesis by (simp add: mult.commute)
qed

lemma mark_pixel_ok:
  assumes "image_ok im"
  shows "\<exists>im'. mark_pixel px py c im = Some im' \<and> image_ok im' \<and> im_width im' = im_width im \<and> im_height im' = im_height im \<and>
    (\<forall>x < im_width im. \<forall>y < im_height im.
       get_pixel im' x y = (if (px, py) = (int x, int y) then c else get_pixel im x y))"
proof (cases "0 \<le> px \<and> 0 \<le> py \<and> nat px < im_width im \<and> nat py < im_height im")
  case True
  then obtain a b where ab: "px = int a" "py = int b" "a < im_width im" "b < im_height im"
    by (metis int_nat_eq)
  have "mark_pixel px py c im = Some (im\<lparr>im_pixels := (im_pixels im)[b * im_width im + a := c]\<rparr>)"
    using ab by (simp add: mark_pixel_def put_pixel_def)
  moreover have "get_pixel (im\<lparr>im_pixels := (im_pixels im)[b * im_width im + a := c]\<rparr>) x y =
      (if (px, py) = (int x, int y) then c else get_pixel im x y)" if "x < im_width im" "y < im_height im" for x y
    using that ab pixel_index_less [OF ab(3,4)] assms pixel_index_eq [OF ab(3) that(1), of b y]
    by (auto simp: get_pixel_def image_ok_def nth_list_update)
  ultimately show ?thesis using assms by (simp add: image_ok_def)
next
  case False
  then have "mark_pixel px py c im = Some im" unfolding mark_pixel_def by (rule if_not_P)
  with False assms show ?thesis by auto
qed

lemma mark_points:
  assumes "image_ok im"
  shows "\<exists>im'. fold_opt (\<lambda>(px, py). mark_pixel px py c) ps im = Some im' \<and> image_ok im' \<and>
    im_width im' = im_width im \<and> im_height im' = im_height im \<and>
    (\<forall>x < im_width im. \<forall>y < im_height im.
       get_pixel im' x y = (if (int x, int y) \<in> set ps then c else get_pixel im x y))"
  using assms
proof (induction ps arbitrary: im)
  case (Cons p ps)
  obtain px py where p: "p = (px, py)" by (cases p)
  obtain im1 where im1: "mark_pixel px py c im = Some im1" "image_ok im1" "im_width im1 = im_width im"
    "im_height im1 = im_height im" "\<forall>x < im_width im. \<forall>y < im_height im.
       get_pixel im1 x y = (if (px, py) = (int x, int y) then c else get_pixel im x y)"
    using mark_pixel_ok [OF Cons.prems] by blast
  from Cons.IH [OF im1(2)] im1 show ?case by (auto simp: p)
qed auto

definition square_points :: "int \<Rightarrow> int \<times> int \<Rightarrow> (int \<times> int) list" where
  "square_points dot = (\<lambda>(x, y). concat (map (\<lambda>dy. map (\<lambda>dx. (x + dx, y + dy)) [0..dot - 1]) [0..dot - 1]))"

lemma mark_square_points:
  "mark_square dot c p = fold_opt (\<lambda>(px, py). mark_pixel px py c) (square_points dot p)"
  by (cases p) (simp add: mark_square_def square_points_def fun_eq_iff fold_opt_concat fold_opt_map)

lemma square_points_set: "(a, b) \<in> set (square_points dot (x, y)) \<longleftrightarrow> x \<le> a \<and> a < x + dot \<and> y \<le> b \<and> b < y + dot"
proof -
  have pts: "set (square_points dot (x, y)) = (\<Union>dy \<in> {0..dot - 1}. (\<lambda>dx. (x + dx, y + dy)) ` {0..dot - 1})"
    by (simp add: square_points_def)
  have "(a, b) \<in> set (square_points dot (x, y))" if "x \<le> a" "a < x + dot" "y \<le> b" "b < y + dot"
    unfolding pts using that by (intro UN_I [of "b - y"] image_eqI [of _ _ "a - x"]) auto
  then show ?thesis by (auto simp: pts)
qed

text \<open>Both marks are four squares of 18 by 18 pixels on the background.\<close>

lemma squares_exact:
  "\<exists>im. fold_opt (\<lambda>p. mark_square dot c p) ps (from_pixel w h bg) = Some im \<and> im_width im = w \<and> im_height im = h \<and>
    (\<forall>x < w. \<forall>y < h. get_pixel im x y =
       (if \<exists>(a, b) \<in> set ps. a \<le> int x \<and> int x < a + dot \<and> b \<le> int y \<and> int y < b + dot then c else bg))"
proof -
  have ok: "image_ok (from_pixel w h bg)" by (simp add: image_ok_def from_pixel_def)
  have old: "get_pixel (from_pixel w h bg) x y = bg" if "x < w" "y < h" for x y
    using pixel_index_less [OF that] by (simp add: get_pixel_def from_pixel_def)
  have "fold_opt (\<lambda>p. mark_square dot c p) ps = fold_opt (\<lambda>(px, py). mark_pixel px py c) (concat (map (square_points dot) ps))"
    by (simp add: mark_square_points fun_eq_iff fold_opt_concat fold_opt_map)
  with mark_points [OF ok, of c "concat (map (square_points dot) ps)"] old show ?thesis
    by (auto simp: from_pixel_def square_points_set simp del: map_concat split: prod.splits)
      (metis (no_types, lifting) case_prod_conv square_points_set)+
qed

section \<open>Only the output directory is written\<close>

lemma export_run_targets:
  "p \<notin> {q. Some q \<in> op_target ` set ops} \<Longrightarrow> snd (export_run ex ops files) p = files p"
  by (induction ops arbitrary: files)
    (auto simp: export_op_run_def export_op_failed_def op_target_def split: option.splits export_op.splits if_splits)

lemma take_path_join: "hd s \<noteq> 47 \<Longrightarrow> take (length out) (path_join out s) = out"
  by (simp add: path_join_def)

text \<open>Paths with different ends of the same length differ.\<close>

lemma path_join_tail:
  assumes "length p = length q" and "p \<noteq> q"
  shows "path_join a p \<noteq> path_join b q"
proof -
  have "\<exists>d. path_join x y = d @ y" for x y
    unfolding path_join_def by (metis append.simps(1) append_Cons append_assoc)
  then show ?thesis using assms by (metis append_eq_append_conv)
qed

lemmas export_defs = export_gtk_def export_qt_def export_plymouth_def export_systemd_boot_def
  export_greetd_def export_icons_def

fun cmd_out :: "export_cmd \<Rightarrow> rstring" where
  "cmd_out (CmdGtk out) = out" | "cmd_out (CmdQt6 out) = out" | "cmd_out (CmdPlymouth out) = out"
| "cmd_out (CmdSystemdBoot out) = out" | "cmd_out (CmdGreetd out) = out" | "cmd_out (CmdIcons out) = out"
| "cmd_out (CmdAll out) = out"

lemma take_nested_join:
  "hd s \<noteq> 47 \<Longrightarrow> hd r \<noteq> 47 \<Longrightarrow> take (length out) (path_join (path_join out r) s) = out"
proof -
  assume "hd s \<noteq> 47" "hd r \<noteq> 47"
  then have "take (length (path_join out r)) (path_join (path_join out r) s) = path_join out r"
    by (intro take_path_join)
  moreover have "length out \<le> length (path_join out r)" using \<open>hd r \<noteq> 47\<close> by (simp add: path_join_def)
  ultimately show ?thesis using take_path_join [OF \<open>hd r \<noteq> 47\<close>, of out] by (metis min.absorb1 take_take)
qed

lemma lit_hd [simp]: "hd (lit (c # cs)) = of_char c"
  by (simp add: lit_def)

lemma export_targets: "op \<in> set (export_ops ex t cmd) \<Longrightarrow> op_target op = Some p \<Longrightarrow> take (length (cmd_out cmd)) p = cmd_out cmd"
  by (cases cmd) (auto simp: export_defs op_target_def take_path_join take_nested_join)

section \<open>Properties\<close>

lemma gtk_written:
  assumes "theme_export_main ex parse path (CmdGtk out) files = (True, files')"
  shows "files' (path_join out (lit ''gtk-3.0/gtk.css'')) = Some (gtk3 (theme_accent (theme_load_or_default files parse path))) \<and>
    files' (path_join out (lit ''gtk-4.0/gtk.css'')) = Some (gtk4 (theme_accent (theme_load_or_default files parse path)))"
proof -
  have "path_join out (lit ''gtk-3.0/gtk.css'') \<noteq> path_join out (lit ''gtk-4.0/gtk.css'')"
    by (rule path_join_tail) (simp_all add: lit_def)
  with assms show ?thesis
    by (auto simp: theme_export_main_def export_gtk_def export_op_run_def split: if_splits)
qed

lemma qt_written:
  assumes "theme_export_main ex parse path (CmdQt6 out) files = (True, files')"
  shows "files' (path_join out (lit ''nullxes.conf'')) = Some (qt_palette (theme_accent (theme_load_or_default files parse path)))"
  using assms by (auto simp: theme_export_main_def export_qt_def export_op_run_def split: if_splits)

lemma qt_roles_accent:
  "length (qt_roles a t) = 20" "qt_roles a t ! 12 = a" "qt_roles a t ! 14 = a"
  by (simp_all add: qt_roles_def Let_def)



text \<open>
  The marks of the boot splash are drawn without leaving the image, and pixel by pixel they
  are four squares of the accent colour on the background.
\<close>

lemma boot_marks_exact:
  "\<exists>logo splash. plymouth_logo accent = Some logo \<and> im_width logo = 96 \<and> im_height logo = 96 \<and>
     systemd_splash accent = Some splash \<and> im_width splash = 256 \<and> im_height splash = 128 \<and>
     (\<forall>x < 96. \<forall>y < 96. get_pixel logo x y =
       (if (27 \<le> x \<and> x < 45 \<or> 51 \<le> x \<and> x < 69) \<and> (27 \<le> y \<and> y < 45 \<or> 51 \<le> y \<and> y < 69) then to_u8 accent else to_u8 BG)) \<and>
     (\<forall>x < 256. \<forall>y < 128. get_pixel splash x y =
       (if (106 \<le> x \<and> x < 124 \<or> 132 \<le> x \<and> x < 150) \<and> (42 \<le> y \<and> y < 60 \<or> 68 \<le> y \<and> y < 86) then to_u8 accent else to_u8 BG))"
proof -
  have q: "i32_quot 96 2 = 48" "i32_quot 6 2 = 3" "i32_quot 256 2 = 128" "i32_quot 128 2 = 64"
    by (simp_all add: i32_quot_def)
  let ?p = "[(27, 27), (51, 27), (27, 51), (51, 51)] :: (int \<times> int) list"
  let ?s = "[(106, 42), (132, 42), (106, 68), (132, 68)] :: (int \<times> int) list"
  have "(\<lambda>(dx, dy). mark_square 18 (to_u8 accent) (128 + dx, 64 + dy)) =
      (\<lambda>d. mark_square 18 (to_u8 accent) ((\<lambda>(dx, dy). (128 + dx, 64 + dy)) d))" by auto
  then have "plymouth_logo accent = fold_opt (mark_square 18 (to_u8 accent)) ?p (from_pixel 96 96 (to_u8 BG))"
    "systemd_splash accent = fold_opt (mark_square 18 (to_u8 accent)) ?s (from_pixel 256 128 (to_u8 BG))"
    by (simp_all add: plymouth_logo_def systemd_splash_def q fold_opt_map [symmetric] del: fold_opt.simps)
  note def = this
  from squares_exact [of 18 "to_u8 accent" ?p 96 96 "to_u8 BG"] obtain logo where
    logo: "plymouth_logo accent = Some logo" "im_width logo = 96" "im_height logo = 96" and
    lpx: "\<forall>x < 96. \<forall>y < 96. get_pixel logo x y = (if \<exists>(a, b) \<in> set ?p. a \<le> int x \<and>
        int x < a + 18 \<and> b \<le> int y \<and> int y < b + 18 then to_u8 accent else to_u8 BG)"
    unfolding def by blast
  from squares_exact [of 18 "to_u8 accent" ?s 256 128 "to_u8 BG"] obtain splash where
    splash: "systemd_splash accent = Some splash" "im_width splash = 256" "im_height splash = 128" and
    spx: "\<forall>x < 256. \<forall>y < 128. get_pixel splash x y = (if \<exists>(a, b) \<in> set ?s. a \<le> int x \<and>
        int x < a + 18 \<and> b \<le> int y \<and> int y < b + 18 then to_u8 accent else to_u8 BG)"
    unfolding def by blast
  have "(\<exists>(a, b) \<in> set ?p. a \<le> int x \<and> int x < a + 18 \<and> b \<le> int y \<and> int y < b + 18) =
      ((27 \<le> x \<and> x < 45 \<or> 51 \<le> x \<and> x < 69) \<and> (27 \<le> y \<and> y < 45 \<or> 51 \<le> y \<and> y < 69))"
    "(\<exists>(a, b) \<in> set ?s. a \<le> int x \<and> int x < a + 18 \<and> b \<le> int y \<and> int y < b + 18) =
      ((106 \<le> x \<and> x < 124 \<or> 132 \<le> x \<and> x < 150) \<and> (42 \<le> y \<and> y < 60 \<or> 68 \<le> y \<and> y < 86))" for x y by auto
  then show ?thesis using logo lpx splash spx by simp
qed

end
