(* ===== verification/Tokens.thy ===== *)
theory Tokens
  imports Floats
begin

text \<open>
  The design tokens that are not colours: the spacing grid (\<open>crates/theme/src/spacing.rs\<close>), the type
  scale (\<open>typography.rs\<close>) and the animation timing (\<open>motion.rs\<close>).
\<close>

section \<open>Spacing\<close>

definition BASE :: u32 where "BASE = 4"
definition SP_1 :: u32 where "SP_1 = BASE"
definition SP_2 :: u32 where "SP_2 = BASE * 2"
definition SP_3 :: u32 where "SP_3 = BASE * 3"
definition SP_4 :: u32 where "SP_4 = BASE * 4"
definition SP_6 :: u32 where "SP_6 = BASE * 6"
definition SP_8 :: u32 where "SP_8 = BASE * 8"
definition SP_12 :: u32 where "SP_12 = BASE * 12"
definition SP_16 :: u32 where "SP_16 = BASE * 16"

text \<open>The modules \<open>radius\<close> and \<open>height\<close>.\<close>

definition radius_scale :: "(string \<times> u32) list" where
  "radius_scale = [(''NONE'', 0), (''XS'', 2), (''SM'', 4), (''MD'', 6), (''LG'', 8), (''XL'', 12)]"

definition height_scale :: "(string \<times> u32) list" where
  "height_scale = [(''COMPACT'', 32), (''COMFORTABLE'', 36), (''LARGE'', 44), (''PANEL'', 48), (''TITLE_BAR'', 32)]"

definition MIN_TARGET :: u32 where "MIN_TARGET = 32"

section \<open>Typography\<close>

datatype font_family = Inter | JetBrainsMono
datatype font_weight = W_Regular | W_Medium | W_SemiBold | W_Bold

fun weight_value :: "font_weight \<Rightarrow> nat" where
  "weight_value W_Regular = 400"
| "weight_value W_Medium = 500"
| "weight_value W_SemiBold = 600"
| "weight_value W_Bold = 700"

text \<open>Weights are ordered by their numeric value.\<close>

instantiation font_weight :: linorder
begin

definition less_eq_font_weight :: "font_weight \<Rightarrow> font_weight \<Rightarrow> bool" where
  "less_eq_font_weight v w \<longleftrightarrow> weight_value v \<le> weight_value w"

definition less_font_weight :: "font_weight \<Rightarrow> font_weight \<Rightarrow> bool" where
  "less_font_weight v w \<longleftrightarrow> weight_value v < weight_value w"

instance
proof
  fix u v w :: font_weight
  show "(v < w) = (v \<le> w \<and> \<not> w \<le> v)" by (auto simp: less_eq_font_weight_def less_font_weight_def)
  show "v \<le> v" by (simp add: less_eq_font_weight_def)
  show "v \<le> w \<or> w \<le> v" by (auto simp: less_eq_font_weight_def)
  show "u \<le> v \<Longrightarrow> v \<le> w \<Longrightarrow> u \<le> w" by (simp add: less_eq_font_weight_def)
  show "v \<le> w \<Longrightarrow> w \<le> v \<Longrightarrow> v = w" by (cases v; cases w) (simp_all add: less_eq_font_weight_def)
qed

end

record text_style =
  ts_family :: font_family
  ts_weight :: font_weight
  ts_size_px :: rat
  ts_line_height :: rat
  ts_tracking :: rat

definition text_style_new :: "rat \<Rightarrow> rat \<Rightarrow> font_weight \<Rightarrow> text_style" where
  "text_style_new size_px line_height w =
     \<lparr>ts_family = Inter, ts_weight = w, ts_size_px = size_px, ts_line_height = line_height, ts_tracking = 0\<rparr>"

definition type_scale :: "(string \<times> text_style) list" where
  "type_scale = [
     (''CAPTION'', text_style_new 11 14 W_Regular),
     (''BODY_SMALL'', text_style_new 13 18 W_Regular),
     (''BODY'', text_style_new 14 20 W_Regular),
     (''BODY_LARGE'', text_style_new 15 22 W_Regular),
     (''LABEL'', \<lparr>ts_family = Inter, ts_weight = W_Medium, ts_size_px = 12, ts_line_height = 16, ts_tracking = 1 / 2\<rparr>),
     (''HEADING_4'', text_style_new 16 22 W_SemiBold),
     (''HEADING_3'', text_style_new 19 26 W_SemiBold),
     (''HEADING_2'', text_style_new 24 32 W_Bold),
     (''HEADING_1'', text_style_new 32 40 W_Bold),
     (''CODE'', \<lparr>ts_family = JetBrainsMono, ts_weight = W_Regular, ts_size_px = 13, ts_line_height = 20, ts_tracking = 0\<rparr>)]"

section \<open>Motion\<close>

text \<open>Durations in milliseconds.\<close>

definition durations :: "(string \<times> nat) list" where
  "durations = [(''INSTANT'', 0), (''MICRO'', 80), (''FAST'', 120), (''STANDARD'', 200), (''SLOW'', 350)]"

datatype easing = EaseOutExpo | EaseInExpo | Linear

text \<open>\<open>exp2\<close> is \<open>2.0_f32.powf\<close>.\<close>

definition easing_eval :: "(rat \<Rightarrow> rat) \<Rightarrow> easing \<Rightarrow> rat \<Rightarrow> rat" where
  "easing_eval exp2 e t0 =
     (let t = max 0 (min 1 t0) in
      case e of
        Linear \<Rightarrow> t
      | EaseOutExpo \<Rightarrow> if 1 \<le> t then 1 else fl 24 (1 - exp2 (fl 24 (- 10 * t)))
      | EaseInExpo \<Rightarrow> if t \<le> 0 then 0 else exp2 (fl 24 (fl 24 (10 * t) - 10)))"

text \<open>
  What the code relies on: \<open>powf\<close> of a number that is not positive lies between 0 and 1, and is
  1 at 0.
\<close>

definition exp2_documented :: "(rat \<Rightarrow> rat) \<Rightarrow> bool" where
  "exp2_documented exp2 \<longleftrightarrow> exp2 0 = 1 \<and> (\<forall>x \<le> 0. 0 \<le> exp2 x \<and> exp2 x \<le> 1)"

section \<open>Rounding within the unit interval\<close>

lemma round_even_mono_int: "q \<le> of_int m \<Longrightarrow> round_even q \<le> m"
proof -
  assume q: "q \<le> of_int m"
  show "round_even q \<le> m"
  proof (cases "q = of_int m")
    case True
    then have "round_even q = m" by (intro round_even_near) simp
    then show ?thesis by simp
  next
    case False
    with q have "\<lfloor>q\<rfloor> < m" by linarith
    then show ?thesis unfolding round_even_def Let_def by auto
  qed
qed

lemma round_even_nonneg: "0 \<le> q \<Longrightarrow> 0 \<le> round_even q"
proof -
  assume "0 \<le> q"
  then have "0 \<le> \<lfloor>q\<rfloor>" by simp
  then show ?thesis unfolding round_even_def Let_def by auto
qed

lemma fl_pos: "0 < x \<Longrightarrow> fl p x = of_int (round_even (x / pow2 (expo x + 1 - int p))) * pow2 (expo x + 1 - int p)"
  by (simp add: fl_def Let_def)

lemma fl_nonneg: "0 \<le> x \<Longrightarrow> 0 \<le> fl p x"
proof (cases "x = 0")
  case False
  assume "0 \<le> x"
  with False have "0 < x" by simp
  then show ?thesis by (simp add: fl_pos round_even_nonneg less_imp_le)
qed (simp add: fl_def)

text \<open>Rounding does not cross a power of two.\<close>

lemma fl_le_pow2:
  assumes "0 < p" and "0 \<le> x" and "x \<le> pow2 k"
  shows "fl p x \<le> pow2 k"
proof (cases "x = 0 \<or> x = pow2 k")
  case True
  then show ?thesis
  proof
    assume x: "x = pow2 k"
    have "expo (pow2 k) = k" using pow2_mono [of k "k + 1"] by (intro expo_unique) (simp_all add: pow2_add)
    moreover have "pow2 k / pow2 (k + 1 - int p) = of_int (2 ^ (p - 1))"
    proof -
      have "k = (k + 1 - int p) + int (p - 1)" using assms(1) by simp
      then have "pow2 k = pow2 (k + 1 - int p) * 2 ^ (p - 1)" by (metis pow2_add pow2_nat)
      then show ?thesis by simp
    qed
    ultimately have "fl p (pow2 k) = of_int (2 ^ (p - 1)) * pow2 (k + 1 - int p)"
      by (simp add: fl_pos round_even_near)
    also have "\<dots> = pow2 k"
      using \<open>pow2 k / pow2 (k + 1 - int p) = of_int (2 ^ (p - 1))\<close> by (simp add: field_simps)
    finally show ?thesis by (simp add: x)
  qed (simp add: fl_def less_imp_le)
next
  case False
  then have x: "0 < x" "x < pow2 k" using assms(2,3) by auto
  let ?u = "pow2 (expo x + 1 - int p)"
  have e: "expo x + 1 \<le> k"
  proof (rule ccontr)
    assume "\<not> expo x + 1 \<le> k"
    then have "pow2 k \<le> pow2 (expo x)" by (intro pow2_mono) simp
    with expo_bounds [OF x(1)] x(2) show False by simp
  qed
  have up: "pow2 (expo x + 1) = 2 ^ p * ?u"
    using pow2_add [of "int p" "expo x + 1 - int p"] by (simp add: pow2_nat)
  have "x / ?u \<le> of_int (2 ^ p)"
    using expo_bounds [OF x(1)] up by (simp add: divide_le_eq)
  then have "round_even (x / ?u) \<le> 2 ^ p" by (rule round_even_mono_int)
  then have "of_int (round_even (x / ?u)) \<le> (2 ^ p :: rat)"
    by (metis of_int_le_iff of_int_numeral of_int_power)
  then have "fl p x \<le> 2 ^ p * ?u" using x(1) by (simp add: fl_pos mult_right_mono less_imp_le)
  also have "\<dots> \<le> pow2 k" using pow2_mono [OF e] by (simp add: up)
  finally show ?thesis .
qed

lemma fl_unit: "0 \<le> x \<Longrightarrow> x \<le> 1 \<Longrightarrow> 0 \<le> fl 24 x \<and> fl 24 x \<le> 1"
  using fl_le_pow2 [of 24 x 0] fl_nonneg [of x 24] by simp

lemma fl_neg: "fl p (- x) = - fl p x"
  by (simp add: fl_def Let_def sgn_if)

lemma fl_le_10: "0 \<le> x \<Longrightarrow> x \<le> 10 \<Longrightarrow> fl 24 x \<le> 10"
proof (cases "x < 8")
  case True
  assume "0 \<le> x"
  with True fl_le_pow2 [of 24 x 3] pow2_nat [of 3] show ?thesis by simp
next
  case False
  assume "x \<le> 10"
  have e: "expo x = 3" using False \<open>x \<le> 10\<close> pow2_nat [of 3] pow2_nat [of 4] by (intro expo_unique) auto
  have u: "pow2 (-20) * 2 ^ 20 = 1" using pow2_add [of "-20" 20] pow2_nat [of 20] by simp
  have "x / pow2 (-20) \<le> of_int (10 * 2 ^ 20)"
    using \<open>x \<le> 10\<close> u by (simp add: divide_le_eq)
  then have r: "round_even (x / pow2 (-20)) \<le> 10 * 2 ^ 20" by (rule round_even_mono_int)
  have "of_int (round_even (x / pow2 (-20))) * pow2 (-20) \<le> of_int (10 * 2 ^ 20) * pow2 (-20)"
    by (intro mult_right_mono) (simp_all only: of_int_le_iff r less_imp_le [OF pow2_pos])
  also have "\<dots> = 10" using u by simp
  finally show ?thesis using False e by (simp add: fl_pos)
qed

section \<open>Property\<close>

text \<open>
  Every easing curve stays in the unit interval, for whatever time it is asked, starts at 0 and
  ends at 1, and a time outside the interval counts as the nearer end.
\<close>

lemma easing_stays_in_unit_interval:
  assumes "exp2_documented exp2"
  shows "0 \<le> easing_eval exp2 e t \<and> easing_eval exp2 e t \<le> 1 \<and>
    easing_eval exp2 e (min 0 t) = 0 \<and> easing_eval exp2 e (max 1 t) = 1"
proof -
  note x = assms [unfolded exp2_documented_def]
  have one: "fl 24 1 = 1" using fl_fraction [of 1 24 1 23 "2 ^ 23"] by simp
  have ten: "fl 24 10 = 10" using fl_fraction [of 1 24 10 20 "10 * 2 ^ 20"] by simp
  have neg: "fl 24 (- 10 * t') \<le> 0" if "0 \<le> t'" for t'
    using that fl_nonneg [of "10 * t'" 24] fl_neg [of 24 "10 * t'"] by simp
  have ten': "fl 24 (fl 24 (10 * t') - 10) \<le> 0" if "0 \<le> t'" "t' \<le> 1" for t'
    using that fl_le_10 [of "10 * t'"] fl_nonneg [of "10 - fl 24 (10 * t')" 24]
      fl_neg [of 24 "10 - fl 24 (10 * t')"] by simp
  have z: "fl 24 0 = 0" by (simp add: fl_def)
  define t' where "t' = max 0 (min 1 t)"
  then have t': "0 \<le> t'" "t' \<le> 1" by auto
  have out: "0 \<le> 1 - exp2 (fl 24 (- 10 * t')) \<and> 1 - exp2 (fl 24 (- 10 * t')) \<le> 1"
    using x neg [OF t'(1)] by simp
  show ?thesis
  proof (cases e)
    case EaseOutExpo
    with out fl_unit [of "1 - exp2 (fl 24 (- 10 * t'))"] x z show ?thesis
      by (auto simp: easing_eval_def Let_def t'_def [symmetric])
  next
    case EaseInExpo
    with x ten' [OF t'] one ten z show ?thesis
      by (auto simp: easing_eval_def Let_def t'_def [symmetric])
  qed (simp add: easing_eval_def Let_def)
qed

end
