(* ===== verification/Font_Search.thy ===== *)
theory Font_Search
  imports Text
begin

text \<open>
  The two searches for the desktop's fonts: the one of the clients
  (\<open>crates/wlcommon/src/fonts.rs\<close>) and the compositor's own copy of it for its panel
  (\<open>crates/frame/src/panel/mod.rs\<close>). The file system is the function \<open>read\<close>, the environment is
  the variable \<open>NULLXES_FONT_DIR\<close> and the path of the running program, when they are known.
\<close>

section \<open>Where the fonts are looked for\<close>

text \<open>\<open>Path::parent\<close> of a path without a trailing slash.\<close>

definition path_parent :: "rstring \<Rightarrow> rstring option" where
  "path_parent p =
     (if p = [] \<or> p = [47] then None
      else let d = rev (dropWhile (\<lambda>c. c \<noteq> 47) (rev p)) in
           if d = [47] then Some d else Some (butlast d))"

definition client_candidate_dirs :: "rstring option \<Rightarrow> rstring option \<Rightarrow> rstring list" where
  "client_candidate_dirs env exe =
     (case env of None \<Rightarrow> [] | Some d \<Rightarrow> [d]) @
     [lit ''/usr/share/fonts/nullxes''] @
     (case exe of None \<Rightarrow> []
      | Some e \<Rightarrow> (case path_parent e of None \<Rightarrow> []
        | Some parent \<Rightarrow> path_join parent (lit ''assets/fonts'') #
            (case path_parent parent of None \<Rightarrow> []
             | Some pre \<Rightarrow> [path_join pre (lit ''share/fonts/nullxes'')]))) @
     [lit ''assets/fonts''] @
     [lit ''/usr/share/fonts/inter'', lit ''/usr/share/fonts/Inter'',
      lit ''/usr/share/fonts/truetype/inter'', lit ''/usr/share/fonts/truetype/Inter'',
      lit ''/usr/share/fonts/TTF'', lit ''/usr/share/fonts/jetbrains-mono'',
      lit ''/usr/share/fonts/JetBrainsMono'', lit ''/usr/share/fonts/truetype/jetbrains-mono'',
      lit ''/usr/share/fonts'']"

definition panel_candidate_dirs :: "rstring option \<Rightarrow> rstring option \<Rightarrow> rstring list" where
  "panel_candidate_dirs env exe =
     (case env of None \<Rightarrow> [] | Some d \<Rightarrow> [d]) @
     [lit ''/usr/share/fonts/nullxes''] @
     (case exe of None \<Rightarrow> []
      | Some e \<Rightarrow> (case path_parent e of None \<Rightarrow> []
        | Some parent \<Rightarrow> [path_join parent (lit ''assets/fonts'')])) @
     [lit ''assets/fonts''] @
     [lit ''/usr/share/fonts/inter'', lit ''/usr/share/fonts/Inter'',
      lit ''/usr/share/fonts/truetype/inter'', lit ''/usr/share/fonts/jetbrains-mono'',
      lit ''/usr/share/fonts/JetBrainsMono'', lit ''/usr/share/fonts'']"

section \<open>The searches\<close>

text \<open>The first directory whose fonts load; a renderer is the fonts with an empty glyph cache.\<close>

fun first_fonts where
  "first_fonts read parse [] = None"
| "first_fonts read parse (d # ds) =
     (case load_from_candidates read parse d of
        Some fonts \<Rightarrow> Some (fonts, (\<lambda>_. None) :: glyph_cache)
      | None \<Rightarrow> first_fonts read parse ds)"

definition load_default_text_renderer where
  "load_default_text_renderer read parse env exe =
     first_fonts read parse (client_candidate_dirs env exe)"

definition wlcommon_text_renderer where
  "wlcommon_text_renderer read parse env exe =
     first_fonts read parse (panel_candidate_dirs env exe)"

text \<open>The panel without a renderer draws its shapes only, see \<open>Panel\<close>.\<close>

section \<open>Properties of the search\<close>

lemma first_fonts_found:
  "first_fonts read parse ds \<noteq> None \<longleftrightarrow> (\<exists>d \<in> set ds. load_from_candidates read parse d \<noteq> None)"
  by (induction ds) (auto split: option.splits)

lemma panel_dirs_subset: "set (panel_candidate_dirs env exe) \<subseteq> set (client_candidate_dirs env exe)"
  by (auto simp: panel_candidate_dirs_def client_candidate_dirs_def split: option.splits)

lemma load_candidate_None:
  assumes "\<forall>n \<in> set names. read (path_join base n) = None"
    and "\<forall>dir \<in> set system_dirs. \<forall>n \<in> set names. read (path_join dir n) = None"
  shows "load_candidate read base names = None"
proof -
  have none: "first_readable read ps = None" if "\<forall>p \<in> set ps. read p = None" for ps
    using that by (induction ps) auto
  show ?thesis using assms by (auto simp: load_candidate_def none)
qed

text \<open>A machine with its fonts in \<open>/usr/share/fonts/TTF\<close> only, where Arch Linux installs them.\<close>

definition ttf_only :: "rstring \<Rightarrow> rstring option" where
  "ttf_only p =
     (if p \<in> {lit ''/usr/share/fonts/TTF/Inter-Regular.ttf'',
              lit ''/usr/share/fonts/TTF/JetBrainsMono-Regular.ttf''} then Some p else None)"

lemma ttf_only_elsewhere:
  assumes "d \<noteq> lit ''/usr/share/fonts/TTF''" and "d \<noteq> lit ''/usr/share/fonts/TTF/''"
  shows "load_from_candidates ttf_only parse d = None"
proof -
  have "load_candidate ttf_only d
      [lit ''Inter-Regular.ttf'', lit ''inter/Inter-Regular.ttf'', lit ''Inter/Inter-Regular.ttf''] = None"
    using assms
    by (intro load_candidate_None) (auto simp: path_join_def ttf_only_def lit_def system_dirs_def)
  then show ?thesis by (simp add: load_from_candidates_def)
qed

lemma ttf_only_found: "load_from_candidates ttf_only Some (lit ''/usr/share/fonts/TTF'') \<noteq> None"
proof -
  have "load_candidate ttf_only (lit ''/usr/share/fonts/TTF'') (lit ''Inter-Regular.ttf'' # ns) \<noteq> None"
    and "load_candidate ttf_only (lit ''/usr/share/fonts/TTF'') (lit ''JetBrainsMono-Regular.ttf'' # ns) \<noteq> None"
    for ns
    by (simp_all add: load_candidate_def path_join_def ttf_only_def lit_def)
  from this(1) [of "[lit ''inter/Inter-Regular.ttf'', lit ''Inter/Inter-Regular.ttf'']"]
    this(2) [of "[lit ''jetbrains-mono/JetBrainsMono-Regular.ttf'', lit ''JetBrainsMono/JetBrainsMono-Regular.ttf'']"]
  show ?thesis
    by (auto simp: load_from_candidates_def fonts_from_bytes_def split: option.splits)
qed

lemma path_parent_frame: "path_parent (lit ''/usr/bin/frame'') = Some (lit ''/usr/bin'')"
  by (simp add: path_parent_def lit_def)

lemma panel_dirs_eval:
  "panel_candidate_dirs None (Some (lit ''/usr/bin/frame'')) =
     [lit ''/usr/share/fonts/nullxes'', lit ''/usr/bin/assets/fonts'', lit ''assets/fonts'',
      lit ''/usr/share/fonts/inter'', lit ''/usr/share/fonts/Inter'',
      lit ''/usr/share/fonts/truetype/inter'', lit ''/usr/share/fonts/jetbrains-mono'',
      lit ''/usr/share/fonts/JetBrainsMono'', lit ''/usr/share/fonts'']"
  by (simp add: panel_candidate_dirs_def path_parent_frame) (simp add: path_join_def lit_def)

lemma panel_dirs_not_ttf:
  "d \<in> set (panel_candidate_dirs None (Some (lit ''/usr/bin/frame''))) \<Longrightarrow>
     d \<noteq> lit ''/usr/share/fonts/TTF'' \<and> d \<noteq> lit ''/usr/share/fonts/TTF/''"
  unfolding panel_dirs_eval by auto

text \<open>
  The panel's search finds fonts only where the clients' search finds some too, but it is no mirror
  of it: with the fonts in \<open>/usr/share/fonts/TTF\<close> every client draws text and the panel none.
\<close>

lemma panel_fonts_imply_client_fonts:
  "(wlcommon_text_renderer read parse env exe \<noteq> None \<longrightarrow>
      load_default_text_renderer read parse env exe \<noteq> None) \<and>
   wlcommon_text_renderer ttf_only Some None (Some (lit ''/usr/bin/frame'')) = None \<and>
   load_default_text_renderer ttf_only Some None (Some (lit ''/usr/bin/frame'')) \<noteq> None"
proof (intro conjI impI)
  assume "wlcommon_text_renderer read parse env exe \<noteq> None"
  then show "load_default_text_renderer read parse env exe \<noteq> None"
    using panel_dirs_subset unfolding wlcommon_text_renderer_def load_default_text_renderer_def first_fonts_found
    by blast
next
  have "load_from_candidates ttf_only Some d = None"
    if "d \<in> set (panel_candidate_dirs None (Some (lit ''/usr/bin/frame'')))" for d
    using ttf_only_elsewhere panel_dirs_not_ttf [OF that] by blast
  then show "wlcommon_text_renderer ttf_only Some None (Some (lit ''/usr/bin/frame'')) = None"
    unfolding wlcommon_text_renderer_def
    by (metis first_fonts_found [of ttf_only Some "panel_candidate_dirs None (Some (lit ''/usr/bin/frame''))"])
next
  have "lit ''/usr/share/fonts/TTF'' \<in> set (client_candidate_dirs None (Some (lit ''/usr/bin/frame'')))"
    by (simp add: client_candidate_dirs_def)
  then show "load_default_text_renderer ttf_only Some None (Some (lit ''/usr/bin/frame'')) \<noteq> None"
    unfolding load_default_text_renderer_def first_fonts_found using ttf_only_found by blast
qed

end
