(* ===== verification/Lock_Session.thy ===== *)
theory Lock_Session
  imports Control Lock_Safety
begin

text \<open>
  FRAME and its screen locker together: the compositor of \<open>crates/frame\<close> and the client
  \<open>crates/nx-lock\<close>, from the moment at which the compositor grants the lock. The compositor hands
  a key to the surface with the keyboard focus, so the locker reads a key only if one was handed
  to a surface of its own; and the protocol lets nobody but the locker ask to unlock.
\<close>

section \<open>The two machines side by side\<close>

text \<open>The keys that the compositor has handed to the client \<open>c\<close> so far.\<close>

fun key_for :: "nat \<Rightarrow> effect \<Rightarrow> bool" where
  "key_for c (KeyForwarded (Some s) k) = (surf_client s = c)"
| "key_for c _ = False"

definition keys_for :: "nat \<Rightarrow> ('s, 'l) nullxes_state \<Rightarrow> nat" where
  "keys_for c st = length (filter (key_for c) (nx_effects st))"

fun is_key :: "lock_input \<Rightarrow> bool" where
  "is_key (Wayland (EvKey k pressed)) = True"
| "is_key _ = False"

text \<open>
  The second component of the joint state is the number of keys the locker has read. A turn of the
  locker's loop reads at most those that were handed to it.
\<close>

type_synonym ('s, 'l) joint = "('s, 'l) nullxes_state \<times> nat \<times> lock_state"

inductive joint_step ::
  "('s, 'l, 'x) smithay_api_scheme \<Rightarrow> lock_env \<Rightarrow> nat \<Rightarrow> ('s, 'l) joint \<Rightarrow> ('s, 'l) joint \<Rightarrow> bool"
  for A env c where
  joint_frame: "frame_step A st e = Some st' \<Longrightarrow> e \<noteq> UnlockRequest \<Longrightarrow> joint_step A env c (st, n, s) (st', n, s)"
| joint_unlock: "frame_step A st UnlockRequest = Some st' \<Longrightarrow> UnlockAndDestroy \<in> set (ls_trace s) \<Longrightarrow>
    joint_step A env c (st, n, s) (st', n, s)"
| joint_locker: "lock_turn env b s = Some s' \<Longrightarrow> \<forall>i \<in> set b. lock_input_ok i \<Longrightarrow>
    n' = n + length (filter is_key b) \<Longrightarrow> n' \<le> keys_for c st \<Longrightarrow> joint_step A env c (st, n, s) (st, n', s')"

inductive_cases joint_step_cases: "joint_step A env c (st, n, s) j"

inductive joint_reach ::
  "('s, 'l, 'x) smithay_api_scheme \<Rightarrow> lock_env \<Rightarrow> nat \<Rightarrow> ('s, 'l) joint \<Rightarrow> ('s, 'l) joint \<Rightarrow> bool"
  for A env c j0 where
  joint_start: "joint_reach A env c j0 j0"
| joint_next: "joint_reach A env c j0 j \<Longrightarrow> joint_step A env c j j' \<Longrightarrow> joint_reach A env c j0 j'"

section \<open>The compositor hands no key to anybody\<close>

lemma keys_for_fields [simp]:
  "keys_for c (st\<lparr>nx_workspaces := ws\<rparr>) = keys_for c st" "keys_for c (st\<lparr>nx_mgr := m\<rparr>) = keys_for c st"
  "keys_for c (st\<lparr>nx_lock := l\<rparr>) = keys_for c st" "keys_for c (st\<lparr>nx_kbd := f\<rparr>) = keys_for c st"
  "keys_for c (st\<lparr>nx_ptr := p\<rparr>) = keys_for c st" "keys_for c (st\<lparr>nx_layer_maps := lm\<rparr>) = keys_for c st"
  "keys_for c (st\<lparr>nx_config := g\<rparr>) = keys_for c st" "keys_for c (st\<lparr>nx_stopped := b\<rparr>) = keys_for c st"
  "keys_for c (st\<lparr>nx_shutdown_reason := r\<rparr>) = keys_for c st" "keys_for c (st\<lparr>nx_primary := o'\<rparr>) = keys_for c st"
  "keys_for c (st\<lparr>nx_xwm := x\<rparr>) = keys_for c st"
  by (simp_all add: keys_for_def)

lemma keys_for_log [simp]: "\<not> key_for c e \<Longrightarrow> keys_for c (nx_log e st) = keys_for c st"
  by (simp add: keys_for_def nx_log_def)

lemma keys_for_frames: "keys_for c (fold (\<lambda>w. nx_log (FrameSent w out)) ws st) = keys_for c st"
  by (induction ws arbitrary: st) auto

lemma keys_for_request:
  "handle_request_on_main A reload req st = Some (st', r) \<Longrightarrow> keys_for c st' = keys_for c st"
  by (cases req) (auto simp: move_window_between_workspaces_def Let_def spawn_detached_def
      split: option.splits prod.splits bool.splits)

text \<open>While locked nothing has the keyboard focus, so a key goes to no client.\<close>

lemma keys_for_input:
  assumes "frame_ok st" "nx_lock st \<noteq> None" "process_input_event A ev st = Some st'"
  shows "keys_for c st' = keys_for c st"
  using assms(2,3) frame_okD(5) [OF assms(1,2)]
  by (cases ev) (auto simp: process_input_event_def handle_keyboard_def Let_def split: option.splits)

lemma keys_for_step:
  assumes "frame_ok st" "nx_lock st \<noteq> None" "frame_step A st e = Some st'" "e \<noteq> UnlockRequest"
  shows "keys_for c st' = keys_for c st"
proof (cases e)
  case (InputEv ev)
  with assms(3) keys_for_input [OF assms(1,2)] show ?thesis by simp
next
  case (NewToplevel w)
  with assms show ?thesis by (auto simp: new_toplevel_def active_space_mut_def)
next
  case (MoveRequest wl g start)
  with assms show ?thesis by (auto simp: move_request_def Let_def split: option.splits if_splits)
next
  case (ToplevelDestroyed wl)
  with assms show ?thesis by (auto simp: toplevel_destroyed_def Let_def split: prod.splits option.splits)
next
  case (NewLockSurface s out)
  with assms show ?thesis by (auto simp: new_lock_surface_def Let_def split: option.splits)
next
  case (NewLayer l out)
  with assms show ?thesis by (auto simp: new_layer_surface_def split: option.splits)
next
  case (LayerDestroyed s)
  with assms show ?thesis by (auto simp: layer_destroyed_def Let_def split: option.splits)
next
  case (CommitSurface s sync)
  with assms show ?thesis by (auto simp: compositor_commit_def Let_def)
next
  case FrameDone
  with assms show ?thesis by (auto simp: send_frames_after_render_def keys_for_frames split: option.splits)
next
  case (IpcRequest reload req)
  with assms keys_for_request show ?thesis by auto
qed (use assms in \<open>auto simp: session_lock_def handle_signal_def winit_resized_def winit_close_requested_def
      new_popup_def reposition_request_def ignored_request_def\<close>)

section \<open>The locker asks nothing without keys\<close>

definition mute :: "lock_state \<Rightarrow> bool" where
  "mute s \<longleftrightarrow> ls_password s = [] \<and> (\<forall>u pw. SendAuth u pw \<notin> set (ls_trace s))"

lemma mute_emit [simp]: "(\<forall>u pw. e \<noteq> SendAuth u pw) \<Longrightarrow> mute (emit e s) = mute s"
  by (auto simp: mute_def emit_def)

lemma mute_fields [simp]:
  "mute (s\<lparr>ls_outputs := os\<rparr>) = mute s" "mute (s\<lparr>ls_next := n\<rparr>) = mute s" "mute (s\<lparr>ls_locked := b\<rparr>) = mute s"
  "mute (s\<lparr>ls_should_quit := b\<rparr>) = mute s" "mute (s\<lparr>ls_exit_code := x\<rparr>) = mute s" "mute (s\<lparr>ls_keyboard := b\<rparr>) = mute s"
  "mute (s\<lparr>ls_keymap := km\<rparr>) = mute s" "mute (s\<lparr>ls_pending := b\<rparr>) = mute s" "mute (s\<lparr>ls_results := rs\<rparr>) = mute s"
  "mute (s\<lparr>ls_requests := qs\<rparr>) = mute s" "mute (s\<lparr>ls_answered := a\<rparr>) = mute s" "mute (s\<lparr>ls_fail_count := fc\<rparr>) = mute s"
  by (simp_all add: mute_def)

lemma mute_repainted: "repainted s s' \<Longrightarrow> mute s' = mute s"
  using commits_elsewhere [of s s' "SendAuth u p" for u p] by (auto simp: mute_def repainted_parts)

lemma mute_not_granted:
  assumes "lock_inv env s" and "mute s"
  shows "UnlockAndDestroy \<notin> set (ls_trace s)"
  using assms by (auto simp: lock_inv_def unlock_ok_def granted_def mute_def)

lemma repaint_output_mute:
  assumes "rast_ok (le_rast env)" "view_ok s" "repaint_output env i s = Some s'" "mute s"
  shows "mute s'"
  using repaint_output_ok [OF assms(1,2), of i] mute_repainted assms(3,4) by auto

lemma create_lock_surface_mute: "mute s \<Longrightarrow> mute (create_lock_surface_for i s)"
  by (simp add: create_lock_surface_for_def Let_def)

text \<open>The muted locker stays muted, together with its invariant.\<close>

definition mute_inv :: "lock_env \<Rightarrow> lock_state \<Rightarrow> bool" where
  "mute_inv env s \<longleftrightarrow> lock_inv env s \<and> mute s"

lemma configure_surface_mute:
  assumes "lock_inv env s" "dims_ok (max w 1) (max h 1)" "configure_surface env surf serial w h s = Some s'" "mute s"
  shows "mute s'"
proof (cases "position (\<lambda>o'. lo_lock_surface o' = Some surf) (ls_outputs (emit (AckConfigure serial) s))")
  case (Some i)
  let ?s = "emit (AckConfigure serial) s"
  let ?t = "?s\<lparr>ls_outputs := (ls_outputs ?s)[i := (ls_outputs ?s ! i)\<lparr>lo_width := max w 1, lo_height := max h 1, lo_configured := True\<rparr>]\<rparr>"
  have inv: "lock_inv env ?s" using assms(1) by (simp add: lock_inv_emit)
  with lock_inv_output [OF inv position_bound [OF Some]] assms(2) have "lock_inv env ?t"
    by (intro lock_inv_set_output) (simp_all add: output_ok_def)
  moreover have "repaint_output env i ?t = Some s'" "mute ?t"
    using assms(3,4) Some by (simp_all add: configure_surface_def Let_def)
  ultimately show ?thesis using repaint_output_mute by (auto simp: lock_inv_def)
next
  case None
  with assms(3) have "s' = emit (AckConfigure serial) s" by (simp add: configure_surface_def)
  with assms(4) show ?thesis by simp
qed

lemma lock_dispatch_mute:
  assumes "lock_inv env s" "lock_input_ok (Wayland ev)" "\<not> is_key (Wayland ev)" "lock_dispatch env ev s = Some s'" "mute s"
  shows "mute s'"
proof (cases ev)
  case EvLocked
  have "mute t \<Longrightarrow> mute (fold create_lock_surface_for xs t)" for xs t
    by (induction xs arbitrary: t) (auto simp: create_lock_surface_mute)
  with EvLocked assms(4,5) show ?thesis by (auto simp: lock_dispatch_def)
next
  case (EvConfigure surf serial w h)
  with assms show ?thesis by (auto simp: lock_dispatch_def intro: configure_surface_mute)
next
  case (EvOutputMode obj w h)
  with assms show ?thesis
    by (auto simp: lock_dispatch_def output_mode_def Let_def create_lock_surface_mute split: option.splits)
qed (use assms in \<open>auto simp: lock_dispatch_def\<close>)

lemma lock_input_mute:
  assumes "lock_input_ok i" "\<not> is_key i"
  shows "keeps (mute_inv env) (lock_input_step env i)"
proof (rule keepsI)
  fix s assume s: "mute_inv env s"
  then obtain s' where "lock_input_step env i s = Some s'" "lock_inv env s'"
    using lock_machine.handle_total [of env s i] assms(1) by (auto simp: mute_inv_def)
  moreover have "mute s'" if "lock_input_step env i s = Some s'" for s'
    using that s assms
    by (cases i) (auto simp: mute_inv_def lock_input_step_def worker_step_def intro: lock_dispatch_mute split: list.splits)
  ultimately show "\<exists>s'. lock_input_step env i s = Some s' \<and> mute_inv env s'" by (auto simp: mute_inv_def)
qed

lemma poll_auth_mute: "keeps (mute_inv env) (poll_auth env)"
proof (rule keepsI)
  fix s assume s: "mute_inv env s"
  then obtain s' where s': "poll_auth env s = Some s'" "lock_inv env s'"
    using poll_auth_inv [of env s] by (auto simp: mute_inv_def)
  have view: "rast_ok (le_rast env)" "view_ok s" "mute s" "length (ls_results s) \<le> 1"
    using s by (auto simp: mute_inv_def lock_inv_def requests_ok_def of_bool_def split: if_splits)
  have "mute s'"
  proof (cases "ls_results s")
    case Nil
    with s'(1) have "s' = s\<lparr>ls_results := []\<rparr>" by (simp add: poll_auth_def each_def)
    with view(3) show ?thesis by simp
  next
    case (Cons r rs)
    with view(4) have r: "receive_auth env r (s\<lparr>ls_results := []\<rparr>) = Some s'"
      using s'(1) by (simp add: poll_auth_def each_def split: option.splits)
    show ?thesis
    proof (cases r)
      case (AuthFail reason)
      let ?t = "s\<lparr>ls_results := [], ls_pending := False, ls_fail_count := ls_fail_count s + 1, ls_password := []\<rparr>"
      obtain s1 where s1: "repaint_all env ?t = Some s1" "repainted ?t s1"
        using repaint_all_ok [OF view(1), of ?t] view(2) by (auto simp: view_ok_def)
      have "mute ?t" using view(3) by (simp add: mute_def)
      with mute_repainted [OF s1(2)] r s1(1) AuthFail show ?thesis by (auto simp: receive_auth_def Let_def)
    qed (use r view(3) in \<open>auto simp: receive_auth_def Let_def\<close>)
  qed
  with s' show "\<exists>s'. poll_auth env s = Some s' \<and> mute_inv env s'" by (auto simp: mute_inv_def)
qed

lemma lock_turn_mute:
  assumes "\<forall>i \<in> set b. lock_input_ok i" "filter is_key b = []"
  shows "keeps (mute_inv env) (lock_turn env b)"
proof -
  have "keeps (mute_inv env) (steps [each b (lock_input_step env), poll_auth env])"
    using assms by (intro keeping lock_input_mute poll_auth_mute) (auto simp: filter_empty_conv)
  then show ?thesis by (auto simp: keeps_def lock_turn_def)
qed

section \<open>The joint invariant\<close>

definition joint_ok :: "lock_env \<Rightarrow> nat \<Rightarrow> ('s, 'l) joint \<Rightarrow> bool" where
  "joint_ok env c = (\<lambda>(st, n, s). frame_ok st \<and> nx_lock st \<noteq> None \<and> keys_for c st \<le> n \<and> mute_inv env s)"

lemma joint_step_ok:
  assumes "space_laws A" and "joint_ok env c j" and "joint_step A env c j j'"
  shows "joint_ok env c j' \<and> fst (snd j') = fst (snd j)"
proof -
  obtain st n s where j: "j = (st, n, s)" by (cases j)
  with assms(2) have ok: "frame_ok st" "nx_lock st \<noteq> None" "keys_for c st \<le> n" "mute_inv env s"
    by (simp_all add: joint_ok_def)
  have fm: "frame_machine A" using assms(1) by unfold_locales
  have "joint_step A env c (st, n, s) j'" using assms(3) j by simp
  then consider
      (joint_frame) e st' where "j' = (st', n, s)" "frame_step A st e = Some st'" "e \<noteq> UnlockRequest"
    | (joint_unlock) "UnlockAndDestroy \<in> set (ls_trace s)"
    | (joint_locker) b s' where "j' = (st, n + length (filter is_key b), s')" "lock_turn env b s = Some s'"
        "\<forall>i \<in> set b. lock_input_ok i" "n + length (filter is_key b) \<le> keys_for c st"
    by (rule joint_step_cases) blast+
  then show ?thesis
  proof cases
    case joint_frame
    then have "frame_ok st'" using frame_machine.step_ok [OF fm ok(1), of e] by (auto dest: opt_okD)
    moreover have "nx_lock st' \<noteq> None" using step_lock [OF joint_frame(2,3)] ok(2) by auto
    moreover have "keys_for c st' = keys_for c st" by (rule keys_for_step [OF ok(1,2) joint_frame(2,3)])
    ultimately show ?thesis using joint_frame(1) ok j by (simp add: joint_ok_def)
  next
    case joint_unlock
    then show ?thesis using mute_not_granted ok(4) by (auto simp: mute_inv_def)
  next
    case joint_locker
    have k: "filter is_key b = []" using joint_locker(4) ok(3) by (cases "filter is_key b") auto
    from keepsD [OF lock_turn_mute [OF joint_locker(3) k] ok(4)] joint_locker(1,2) k ok j show ?thesis
      by (auto simp: joint_ok_def)
  qed
qed

lemma joint_reach_ok:
  assumes "space_laws A" and "joint_reach A env c j0 j" and "joint_ok env c j0"
  shows "joint_ok env c j \<and> fst (snd j) = fst (snd j0)"
  using assms(2)
proof (induction rule: joint_reach.induct)
  case (joint_next j j')
  then show ?case using joint_step_ok [OF assms(1)] by metis
qed (use assms(3) in simp)

lemma joint_start_ok:
  assumes "frame_ok st" and "rast_ok (le_rast env)" and "nx_lock st = None"
  shows "joint_ok env c (session_lock st, keys_for c st, engage (lock_new f entry))"
  using session_lock_ok [OF assms(1)] lock_inv_initial [OF assms(2), of f entry] assms(3)
  by (simp add: joint_ok_def mute_inv_def session_lock_def)
    (auto simp: mute_def engage_def lock_new_def emit_def kbd_set_focus_def split: option.splits)

section \<open>Property\<close>



end
