(* ===== verification/Settings_Reload.thy ===== *)
theory Settings_Reload
  imports Settings Session
begin

text \<open>
  The settings application and the compositor share one file: \<open>crates/nx-settings/src/conf.rs\<close> writes
  the user's \<open>frame.toml\<close>, and \<open>Reload.Config\<close> makes FRAME read it again
  (\<open>crates/frame/src/config.rs\<close>, \<open>ipc_server.rs\<close>). The request may arrive at any moment of a save.
\<close>

section \<open>Reading what was written\<close>

text \<open>\<open>std::fs::read_to_string\<close>: a file that is not UTF-8 cannot be read.\<close>

definition read_to_string :: "file_system \<Rightarrow> rstring \<Rightarrow> rstring option" where
  "read_to_string fs p = Option.bind (fs p) (\<lambda>bytes. utf8_decode (map unat bytes))"

text \<open>
  The configuration FRAME loads on a file system; \<open>env\<close> is \<open>NULLXES_FRAME_CONFIG\<close> and \<open>dir\<close> the user's configuration
  directory, when there is one. What the override gives, when it names a file that can be read and parsed.
\<close>

definition frame_loads where
  "frame_loads env dir parse fs = config_load env dir (read_to_string fs) parse"

definition override_gives where
  "override_gives env parse fs = Option.bind env (\<lambda>p. Option.bind (read_to_string fs p) parse)"

text \<open>
  The file that is saved is the second one that FRAME looks for, when there is a configuration directory. Without one
  the settings write below the working directory, where FRAME does not look.
\<close>

lemma frame_loads_cases:
  "frame_loads env dir parse fs =
     (case override_gives env parse fs of
        Some c \<Rightarrow> c
      | None \<Rightarrow>
          case (if dir = None then None else Option.bind (read_to_string fs (frame_path dir)) parse) of
            Some c \<Rightarrow> c
          | None \<Rightarrow> load_loop (read_to_string fs) parse [lit ''/etc/nullxes/frame.toml''])"
  by (cases env; cases dir)
    (auto simp: frame_loads_def override_gives_def config_load_def config_paths_def frame_path_def config_file_def
      split: option.split)

lemma etc_path_not_tmp: "lit ''/etc/nullxes/frame.toml'' \<noteq> with_extension (lit ''tmp'') p"
proof
  assume e: "lit ''/etc/nullxes/frame.toml'' = with_extension (lit ''tmp'') p"
  have "last (lit ''/etc/nullxes/frame.toml'') = 108" by (simp add: lit_def)
  moreover have "last (with_extension (lit ''tmp'') p) = 112" by (simp add: last_with_extension lit_def)
  ultimately show False using e by simp
qed

lemma frame_loads_cong:
  assumes "\<And>p. p \<in> set_option env \<union> {frame_path dir, lit ''/etc/nullxes/frame.toml''} \<Longrightarrow> fs p = fs' p"
  shows "frame_loads env dir parse fs = frame_loads env dir parse fs'"
proof -
  have same: "read_to_string fs p = read_to_string fs' p"
    if "p \<in> set_option env \<union> {frame_path dir, lit ''/etc/nullxes/frame.toml''}" for p
    using assms [OF that] by (simp add: read_to_string_def)
  have saved: "read_to_string fs (frame_path dir) = read_to_string fs' (frame_path dir)" by (rule same) simp
  have etc: "read_to_string fs (lit ''/etc/nullxes/frame.toml'') = read_to_string fs' (lit ''/etc/nullxes/frame.toml'')"
    by (rule same) simp
  have "override_gives env parse fs = override_gives env parse fs'"
    using same by (cases env) (simp_all add: override_gives_def)
  then show ?thesis unfolding frame_loads_cases load_loop.simps saved etc by (rule arg_cong)
qed

lemma read_written:
  assumes "fs p = Some (map of_nat (utf8_encode content))" and "\<forall>c \<in> set content. scalar c"
  shows "read_to_string fs p = Some content"
  using assms by (simp add: read_to_string_def bytes_of_text utf8_roundtrip del: map_map)

section \<open>Property\<close>

text \<open>
  C22: a reload never sees half of a save. At every moment of a save, also one that stops half
  way, \<open>Reload.Config\<close> gives FRAME the configuration from before it, as long as the override variable does not name the
  temporary file. Once the save has succeeded, the reload replaces the compositor's record, and nothing else, by what
  the override variable gives, if it gives anything; otherwise by exactly the saved configuration if there is a
  configuration directory, and without one by the configuration from before. What is
  asked of the TOML library is that it parses what it has printed.
\<close>

theorem reload_sees_old_or_saved:
  assumes "save_frame_states dir mk to_toml ws rn cfg fs = (states, ok)"
    and "\<And>content. to_toml cfg = Some content \<Longrightarrow> parse content = Some cfg \<and> (\<forall>c \<in> set content. scalar c)"
    and "env \<noteq> Some (with_extension (lit ''tmp'') (frame_path dir))"
  shows "(\<forall>fs' \<in> set states. frame_loads env dir parse fs' = frame_loads env dir parse fs \<or> ok \<and> fs' = last states) \<and>
    (ok \<longrightarrow> states \<noteq> [] \<and>
      frame_step A st (IpcRequest (frame_loads env dir parse (last states)) ReloadConfig) =
        Some (st\<lparr>nx_config :=
          (case override_gives env parse (last states) of
             Some c \<Rightarrow> c
           | None \<Rightarrow> if dir \<noteq> None then cfg else frame_loads env dir parse fs)\<rparr>))"
proof (cases "mk \<and> to_toml cfg \<noteq> None")
  case False
  with assms(1) show ?thesis by (auto simp: save_frame_states_def split: if_splits)
next
  case True
  let ?path = "frame_path dir"
  from True obtain content where c: "to_toml cfg = Some content" "mk" by auto
  with assms(1) have w: "write_atomic_states ws rn ?path (map of_nat (utf8_encode content)) fs = (states, ok)"
    by (simp add: save_frame_states_def)
  note files = write_atomic_states_files [OF refl frame_path_not_tmp w]
  have other: "fs' p = fs p" if "fs' \<in> set states" "p \<in> set_option env \<union> {lit ''/etc/nullxes/frame.toml''}" "p \<noteq> ?path" for fs' p
    using files [OF that(1)] that(2,3) assms(3) etc_path_not_tmp [of ?path] by auto
  have "frame_loads env dir parse fs' = frame_loads env dir parse fs \<or> ok \<and> fs' = last states" if "fs' \<in> set states" for fs'
  proof (cases "fs' ?path = fs ?path")
    case True
    have "fs' p = fs p" if "p \<in> set_option env \<union> {?path, lit ''/etc/nullxes/frame.toml''}" for p
      using other [OF \<open>fs' \<in> set states\<close>, of p] True that by (cases "p = ?path") auto
    then show ?thesis by (intro disjI1 frame_loads_cong) blast
  qed (use files [OF that] in blast)
  moreover have "states \<noteq> [] \<and> frame_loads env dir parse (last states) = (case override_gives env parse (last states) of
      Some c \<Rightarrow> c | None \<Rightarrow> if dir \<noteq> None then cfg else frame_loads env dir parse fs)" if ok
  proof -
    have new: "states \<noteq> []" "last states ?path = Some (map of_nat (utf8_encode content))"
      using write_atomic_states_ok [OF frame_path_not_tmp, of ws rn dir _ fs states] w that by simp_all
    have saved: "Option.bind (read_to_string (last states) ?path) parse = Some cfg"
      using read_written [of "last states", OF new(2)] assms(2) [OF c(1)] by simp
    have "frame_loads env dir parse (last states) = frame_loads env dir parse fs"
      if none: "override_gives env parse (last states) = None" "dir = None"
    proof -
      have "env \<noteq> Some ?path" using saved none(1) by (auto simp: override_gives_def)
      then have "override_gives env parse fs = None"
        using none(1) other [OF last_in_set [OF new(1)]] by (cases env) (auto simp: override_gives_def read_to_string_def)
      moreover have "lit ''/etc/nullxes/frame.toml'' \<noteq> ?path"
        unfolding none(2) by (simp add: frame_path_def config_file_def) code_simp
      then have "read_to_string (last states) (lit ''/etc/nullxes/frame.toml'') =
          read_to_string fs (lit ''/etc/nullxes/frame.toml'')"
        using other [OF last_in_set [OF new(1)]] by (simp add: read_to_string_def)
      ultimately show ?thesis using none by (simp add: frame_loads_cases split: option.split)
    qed
    with new(1) saved show ?thesis by (auto simp: frame_loads_cases split: option.split)
  qed
  ultimately show ?thesis by simp
qed

text \<open>A save that succeeds, with a one-word format, and the same with an override that FRAME prefers.\<close>

theorem reload_sees_old_or_saved_witness:
  fixes old :: frame_config
  defines "parse \<equiv> (\<lambda>t. if t = lit ''saved'' then Some conf_default else if t = [] then Some frame_config_default else None)"
    and "fs \<equiv> [lit ''/my.toml'' \<mapsto> []]"
  shows "\<exists>states. save_frame_states (Some (lit ''/home'')) True (\<lambda>_. Some (lit ''saved'')) None True conf_default fs = (states, True) \<and>
     frame_step list_smithay example_boot
       (IpcRequest (frame_loads None (Some (lit ''/home'')) parse (last states)) ReloadConfig) =
     Some (example_boot\<lparr>nx_config := conf_default\<rparr>) \<and>
     frame_step list_smithay example_boot
       (IpcRequest (frame_loads (Some (lit ''/my.toml'')) (Some (lit ''/home'')) parse (last states)) ReloadConfig) =
     Some (example_boot\<lparr>nx_config := frame_config_default\<rparr>)"
proof -
  obtain states ok where s: "save_frame_states (Some (lit ''/home'')) True (\<lambda>_. Some (lit ''saved'')) None True conf_default fs = (states, ok)"
    by fastforce
  then have "ok" by (simp add: save_frame_states_def write_atomic_states_def Let_def)
  have p: "\<forall>c \<in> set (lit ''saved''). scalar c" "parse (lit ''saved'') = Some conf_default"
    by (simp_all add: lit_def scalar_def parse_def)
  have e: "Some (lit ''/my.toml'') \<noteq> Some (with_extension (lit ''tmp'') (frame_path (Some (lit ''/home''))))" by code_simp
  have n: "lit ''/my.toml'' \<noteq> frame_path (Some (lit ''/home''))" by code_simp
  have "last states (lit ''/my.toml'') = Some []"
    using s e n by (auto simp: save_frame_states_def write_atomic_states_def Let_def fs_write_def fs_rename_def fs_def)
  then have "override_gives (Some (lit ''/my.toml'')) parse (last states) = Some frame_config_default"
    by (simp add: override_gives_def read_to_string_def parse_def) (simp add: lit_def)
  then show ?thesis
    using s \<open>ok\<close> p reload_sees_old_or_saved [OF s, of parse None list_smithay example_boot]
      reload_sees_old_or_saved [OF s, of parse "Some (lit ''/my.toml'')" list_smithay example_boot, OF _ e]
    by (auto simp: override_gives_def)
qed

end
