(* ===== verification/Desktop.thy ===== *)
theory Desktop
  imports Control
begin

text \<open>
  FRAME and one of its clients side by side. The client is a \<open>program\<close>: its main loop, what it
  reads from the compositor, and what it asks the compositor for. A client reads at most what
  the compositor has sent it; everything else that happens, the other clients, the user and the
  system, are the events of the compositor. The theories \<open>Desktop_Launcher\<close> and \<open>Desktop_Windows\<close> put the
  programs in.
\<close>

section \<open>What the compositor has told a client\<close>

datatype message = KeyMsg | ConfigureMsg | CloseMsg

definition window_client :: "window_h \<Rightarrow> nat option" where
  "window_client w = map_option surf_client (win_surface w)"

text \<open>
  The messages of FRAME's own code. smithay sends none of them by itself: a key goes to the
  keyboard focus, and the configure events of a toplevel, a lock surface or a popup are left to the compositor.
\<close>

fun tells :: "nat \<Rightarrow> message \<Rightarrow> effect \<Rightarrow> bool" where
  "tells c KeyMsg (KeyForwarded (Some s) k) = (surf_client s = c)"
| "tells c ConfigureMsg (LockConfigure s sz) = (surf_client s = c)"
| "tells c ConfigureMsg (PopupRepositioned s token geo) = (surf_client s = c)"
| "tells c CloseMsg (SendClose w) = (window_client w = Some c)"
| "tells c CloseMsg (LayerClosed s) = (surf_client s = c)"
| "tells c m e = False"

definition delivered :: "nat \<Rightarrow> ('s, 'l) nullxes_state \<Rightarrow> message \<Rightarrow> nat" where
  "delivered c st m = length (filter (tells c m) (nx_effects st))"

text \<open>The client whose request an event of the compositor is.\<close>

fun asked_by :: "frame_event \<Rightarrow> nat option" where
  "asked_by (NewToplevel w) = window_client w"
| "asked_by (MoveRequest s g start) = Some (surf_client s)"
| "asked_by (ToplevelDestroyed s) = Some (surf_client s)"
| "asked_by (NewLockSurface s out) = Some (surf_client s)"
| "asked_by (NewLayer l out) = Some (surf_client (lay_surface l))"
| "asked_by (LayerDestroyed s) = Some (surf_client s)"
| "asked_by (CommitSurface s sync) = Some (surf_client s)"
| "asked_by (NewPopup s tracked) = Some (surf_client s)"
| "asked_by (RepositionRequest s geo token) = Some (surf_client s)"
| "asked_by (IgnoredRequest s) = Some (surf_client s)"
| "asked_by e = None"

section \<open>The two programs side by side\<close>

record ('e, 'c) program =
  pg_turn :: "'e list \<Rightarrow> 'c \<Rightarrow> 'c option"
  pg_reads :: "'e \<Rightarrow> message option"
  pg_asks :: "frame_event \<Rightarrow> bool"
  pg_ok :: "'e \<Rightarrow> bool"

definition reads :: "('e, 'c) program \<Rightarrow> 'e list \<Rightarrow> message \<Rightarrow> nat" where
  "reads P b m = length (filter (\<lambda>i. pg_reads P i = Some m) b)"

type_synonym ('s, 'l, 'c) desk = "('s, 'l) nullxes_state \<times> (message \<Rightarrow> nat) \<times> 'c"

text \<open>The second component counts the messages that the client has read.\<close>

inductive desk_step ::
  "('s, 'l, 'x) smithay_api_scheme \<Rightarrow> nat \<Rightarrow> ('e, 'c) program \<Rightarrow> ('s, 'l, 'c) desk \<Rightarrow> ('s, 'l, 'c) desk \<Rightarrow> bool"
  for A c P where
  desk_frame: "frame_step A st e = Some st' \<Longrightarrow> asked_by e = Some c \<longrightarrow> pg_asks P e \<Longrightarrow>
    desk_step A c P (st, n, s) (st', n, s)"
| desk_client: "pg_turn P b s = Some s' \<Longrightarrow> \<forall>i \<in> set b. pg_ok P i \<Longrightarrow> n' = (\<lambda>m. n m + reads P b m) \<Longrightarrow>
    \<forall>m. n' m \<le> delivered c st m \<Longrightarrow> desk_step A c P (st, n, s) (st, n', s')"

inductive_cases desk_step_cases: "desk_step A c P (st, n, s) j"

inductive desk_reach ::
  "('s, 'l, 'x) smithay_api_scheme \<Rightarrow> nat \<Rightarrow> ('e, 'c) program \<Rightarrow> ('s, 'l, 'c) desk \<Rightarrow> ('s, 'l, 'c) desk \<Rightarrow> bool"
  for A c P j0 where
  desk_start: "desk_reach A c P j0 j0"
| desk_next: "desk_reach A c P j0 j \<Longrightarrow> desk_step A c P j j' \<Longrightarrow> desk_reach A c P j0 j'"

text \<open>
  The contract between the compositor and a program: an invariant \<open>inv\<close> of the program and one
  \<open>host\<close> of the compositor, such that under \<open>host\<close> the messages of the kinds \<open>silent\<close> are not
  sent to the client, and without such messages the program keeps its invariant.
\<close>

locale silent_client =
  fixes A :: "('s, 'l, 'x) smithay_api_scheme"
    and c :: nat
    and P :: "('e, 'c) program"
    and silent :: "message set"
    and host :: "('s, 'l) nullxes_state \<Rightarrow> bool"
    and inv :: "'c \<Rightarrow> bool"
  assumes host_step: "host st \<Longrightarrow> frame_step A st e = Some st' \<Longrightarrow> asked_by e = Some c \<longrightarrow> pg_asks P e \<Longrightarrow>
      host st' \<and> (\<forall>m \<in> silent. delivered c st' m = delivered c st m)"
    and turn_inv: "inv s \<Longrightarrow> \<forall>i \<in> set b. pg_ok P i \<Longrightarrow> \<forall>m \<in> silent. reads P b m = 0 \<Longrightarrow>
      \<exists>s'. pg_turn P b s = Some s' \<and> inv s'"
begin

definition desk_inv :: "('s, 'l, 'c) desk \<Rightarrow> bool" where
  "desk_inv = (\<lambda>(st, n, s). host st \<and> inv s \<and> (\<forall>m \<in> silent. n m = delivered c st m))"

lemma desk_inv_step:
  assumes "desk_inv j" and "desk_step A c P j j'"
  shows "desk_inv j' \<and> (\<forall>m \<in> silent. fst (snd j') m = fst (snd j) m)"
proof -
  obtain st n s where j: "j = (st, n, s)" by (cases j)
  with assms(1) have ok: "host st" "inv s" "\<forall>m \<in> silent. n m = delivered c st m" by (simp_all add: desk_inv_def)
  have "desk_step A c P (st, n, s) j'" using assms(2) j by simp
  then consider
      (frame) e st' where "j' = (st', n, s)" "frame_step A st e = Some st'" "asked_by e = Some c \<longrightarrow> pg_asks P e"
    | (client) b s' n' where "j' = (st, n', s')" "pg_turn P b s = Some s'" "\<forall>i \<in> set b. pg_ok P i"
        "n' = (\<lambda>m. n m + reads P b m)" "\<forall>m. n' m \<le> delivered c st m"
    by (rule desk_step_cases) blast+
  then show ?thesis
  proof cases
    case frame
    with host_step [OF ok(1) frame(2,3)] ok j show ?thesis by (simp add: desk_inv_def)
  next
    case client
    then have "\<forall>m \<in> silent. reads P b m = 0" using ok(3) by (metis add_le_same_cancel1 le_zero_eq)
    with turn_inv [OF ok(2) client(3)] client ok j show ?thesis by (auto simp: desk_inv_def)
  qed
qed

text \<open>In every reachable state: both invariants hold, and the client has read none of the silent messages.\<close>

lemma desk_inv_reach:
  assumes "desk_reach A c P j0 j" and "desk_inv j0"
  shows "desk_inv j \<and> (\<forall>m \<in> silent. fst (snd j) m = fst (snd j0) m)"
  using assms
proof (induction rule: desk_reach.induct)
  case (desk_next j j')
  then have j: "desk_inv j" "\<forall>m \<in> silent. fst (snd j) m = fst (snd j0) m" by blast+
  from desk_inv_step [OF j(1) desk_next.hyps(2)] j(2) show ?case by metis
qed blast

lemma silent_run:
  assumes "desk_reach A c P (st0, delivered c st0, s0) (st, n, s)" and "host st0" and "inv s0"
  shows "host st" and "inv s" and "\<forall>m \<in> silent. n m = delivered c st0 m"
proof -
  have "desk_inv (st0, delivered c st0, s0)" using assms(2,3) by (simp add: desk_inv_def)
  note r = desk_inv_reach [OF assms(1) this]
  then show "host st" "inv s" by (simp_all add: desk_inv_def)
  show "\<forall>m \<in> silent. n m = delivered c st0 m" using r by simp
qed

end

section \<open>The compositor speaks only to windows\<close>

lemma delivered_fields [simp]:
  "delivered c (st\<lparr>nx_workspaces := ws\<rparr>) = delivered c st" "delivered c (st\<lparr>nx_mgr := m\<rparr>) = delivered c st"
  "delivered c (st\<lparr>nx_lock := l\<rparr>) = delivered c st" "delivered c (st\<lparr>nx_kbd := f\<rparr>) = delivered c st"
  "delivered c (st\<lparr>nx_ptr := p\<rparr>) = delivered c st" "delivered c (st\<lparr>nx_layer_maps := lm\<rparr>) = delivered c st"
  "delivered c (st\<lparr>nx_config := g\<rparr>) = delivered c st" "delivered c (st\<lparr>nx_stopped := b\<rparr>) = delivered c st"
  "delivered c (st\<lparr>nx_shutdown_reason := r\<rparr>) = delivered c st" "delivered c (st\<lparr>nx_primary := o'\<rparr>) = delivered c st"
  "delivered c (st\<lparr>nx_xwm := x\<rparr>) = delivered c st" "delivered c (kbd_set_focus f' st) = delivered c st"
  by (simp_all add: delivered_def fun_eq_iff kbd_set_focus_def split: option.split)

lemma delivered_log [simp]: "\<not> tells c m e \<Longrightarrow> delivered c (nx_log e st) m = delivered c st m"
  by (simp add: delivered_def nx_log_def)

lemma tells_others [simp]:
  "\<not> tells c m (SpawnDetached b)" "\<not> tells c m (PointerButtonSent u k pressed)" "\<not> tells c m (PointerAxisSent u f)"
  "\<not> tells c m (BufferCommitted s)" "\<not> tells c m (FrameSent w out)" "\<not> tells c m (PopupTracked s)"
  "\<not> tells c m (KeyForwarded None k)"
  by (cases m; simp)+

lemma delivered_frames [simp]: "delivered c (fold (\<lambda>w. nx_log (FrameSent w out)) ws st) m = delivered c st m"
  by (induction ws arbitrary: st) auto

lemma delivered_parts [simp]:
  "delivered c (move_window_between_workspaces A src t wid st) = delivered c st"
  "delivered c (spawn_detached b st) m = delivered c st m"
  "delivered c (pointer_button p k pressed still st) m = delivered c st m"
  "delivered c (handle_pointer_axis fg v v120 h st) m = delivered c st m"
  by (simp_all add: move_window_between_workspaces_def spawn_detached_def pointer_button_def handle_pointer_axis_def
      Let_def split: option.split)

lemma active_mut_delivered: "active_space_mut st f = Some st' \<Longrightarrow> delivered c st' = delivered c st"
  by (auto simp: active_space_mut_def)

text \<open>
  \<open>stranger\<close>: the client \<open>c\<close> has no window in any workspace or in the hand of the pointer, and the
  keyboard focus is not on a surface of it.
\<close>

definition foreign :: "('s, 'x) space_api_scheme \<Rightarrow> nat \<Rightarrow> 's workspaces \<Rightarrow> bool" where
  "foreign A c ws \<longleftrightarrow> (\<forall>s \<in> set ws. \<forall>w \<in> set (sp_elements A s). window_client w \<noteq> Some c)"

definition focus_off :: "nat \<Rightarrow> ('s, 'l) nullxes_state \<Rightarrow> bool" where
  "focus_off c st \<longleftrightarrow> (\<forall>f. nx_kbd st = Some (Some f) \<longrightarrow> surf_client f \<noteq> c)"

definition grab_off :: "nat \<Rightarrow> pointer_st option \<Rightarrow> bool" where
  "grab_off c p \<longleftrightarrow> (\<forall>ptr g. p = Some ptr \<longrightarrow> ptr_grab ptr = Some g \<longrightarrow> window_client (grab_window g) \<noteq> Some c)"

definition stranger :: "('s, 'x) space_api_scheme \<Rightarrow> nat \<Rightarrow> ('s, 'l) nullxes_state \<Rightarrow> bool" where
  "stranger A c st \<longleftrightarrow> foreign A c (nx_workspaces st) \<and> focus_off c st \<and> grab_off c (nx_ptr st)"

lemma stranger_fields [simp]:
  "stranger A c (st\<lparr>nx_mgr := m\<rparr>) = stranger A c st" "stranger A c (st\<lparr>nx_lock := l\<rparr>) = stranger A c st"
  "stranger A c (st\<lparr>nx_layer_maps := lm\<rparr>) = stranger A c st" "stranger A c (st\<lparr>nx_config := g\<rparr>) = stranger A c st"
  "stranger A c (st\<lparr>nx_stopped := b\<rparr>) = stranger A c st" "stranger A c (st\<lparr>nx_shutdown_reason := r\<rparr>) = stranger A c st"
  "stranger A c (st\<lparr>nx_primary := o'\<rparr>) = stranger A c st" "stranger A c (st\<lparr>nx_xwm := x\<rparr>) = stranger A c st"
  "stranger A c (nx_log e st) = stranger A c st" "stranger A c (spawn_detached bin st) = stranger A c st"
  "stranger A c (fold (\<lambda>w. nx_log (FrameSent w out)) ws st) = stranger A c st"
proof -
  show "stranger A c (fold (\<lambda>w. nx_log (FrameSent w out)) ws st) = stranger A c st"
    by (induction ws arbitrary: st) (auto simp: stranger_def focus_off_def nx_log_def)
qed (simp_all add: stranger_def focus_off_def nx_log_def spawn_detached_def)

lemma stranger_workspaces:
  "stranger A c st \<Longrightarrow> foreign A c ws \<Longrightarrow> stranger A c (st\<lparr>nx_workspaces := ws\<rparr>)"
  by (simp add: stranger_def focus_off_def)

lemma stranger_ptr: "stranger A c st \<Longrightarrow> grab_off c p \<Longrightarrow> stranger A c (st\<lparr>nx_ptr := p\<rparr>)"
  by (simp add: stranger_def focus_off_def)

lemma stranger_focus:
  "stranger A c st \<Longrightarrow> (\<And>s. f = Some s \<Longrightarrow> surf_client s \<noteq> c) \<Longrightarrow> stranger A c (kbd_set_focus f st)"
  by (auto simp: stranger_def focus_off_def kbd_set_focus_def split: option.splits)

lemma strangerD:
  assumes "stranger A c st"
  shows "foreign A c (nx_workspaces st)" and "grab_off c (nx_ptr st)" and "focus_off c st"
  using assms by (simp_all add: stranger_def)

lemma foreign_update:
  assumes "foreign A c ws" and "\<And>w. w \<in> set (sp_elements A s) \<Longrightarrow> window_client w \<noteq> Some c"
  shows "foreign A c (ws[i := s])"
  using assms set_update_subset_insert [of ws i s] by (auto simp: foreign_def)

lemma foreign_nth: "foreign A c ws \<Longrightarrow> i < length ws \<Longrightarrow> w \<in> set (sp_elements A (ws ! i)) \<Longrightarrow> window_client w \<noteq> Some c"
  by (auto simp: foreign_def)

lemma foreign_get_mut:
  assumes "foreign A c ws"
    and "\<And>s w. s \<in> set ws \<Longrightarrow> w \<in> set (sp_elements A (f s)) \<Longrightarrow> window_client w \<noteq> Some c"
  shows "foreign A c (workspaces_get_mut ws i f)"
  using foreign_update [OF assms(1), of "f (ws ! i)" i] assms(2) [of "ws ! i"]
  by (auto simp: workspaces_get_mut_def assms(1))

lemma foreign_fold_same:
  assumes "foreign A c ws" and "\<And>s. set (sp_elements A (f s)) = set (sp_elements A s)"
  shows "foreign A c (fold (\<lambda>i ws. workspaces_get_mut ws i f) is ws)"
  using assms(1)
proof (induction "is" arbitrary: ws)
  case (Cons i ks)
  then show ?case using foreign_get_mut [of A c ws f i] assms(2) by (simp add: foreign_def)
qed simp

lemma stranger_active_mut:
  assumes "stranger A c st" and "active_space_mut st f = Some st'"
    and "\<And>s w. s \<in> set (nx_workspaces st) \<Longrightarrow> w \<in> set (sp_elements A (f s)) \<Longrightarrow> window_client w \<noteq> Some c"
  shows "stranger A c st'"
proof -
  let ?ws = "nx_workspaces st" and ?i = "min (mgr_active (nx_mgr st)) (length (nx_workspaces st) - 1)"
  have i: "?i < length ?ws" and st': "st' = st\<lparr>nx_workspaces := ?ws[?i := f (?ws ! ?i)]\<rparr>"
    using assms(2) by (auto simp: active_space_mut_def workspaces_active_mut_def Let_def split: if_splits)
  have "foreign A c (?ws[?i := f (?ws ! ?i)])"
    using assms(3) [OF nth_mem [OF i]] by (intro foreign_update strangerD(1) [OF assms(1)])
  with st' assms(1) show ?thesis by (simp add: stranger_workspaces)
qed

text \<open>After the boot nobody has a window and nobody has been delivered anything.\<close>

lemma stranger_boot:
  assumes laws: "space_laws A"
  shows "stranger A c (winit_boot A cfg maps out kbd_ok)" and "delivered c (winit_boot A cfg maps out kbd_ok) m = 0"
proof -
  have "foreign A c (workspaces_new A n)" for n
    by (simp add: foreign_def workspaces_new_def space_lawsD(1) [OF laws])
  then have "foreign A c (fold (\<lambda>i ws. workspaces_get_mut ws i (\<lambda>s. sp_map_output A s out (0, 0))) is (workspaces_new A n))" for "is" n
    by (rule foreign_fold_same) (simp add: space_lawsD(8) [OF laws])
  then show "stranger A c (winit_boot A cfg maps out kbd_ok)"
    by (simp add: stranger_def winit_boot_def nx_new_def Let_def focus_off_def grab_off_def)
  show "delivered c (winit_boot A cfg maps out kbd_ok) m = 0"
    by (simp add: delivered_def winit_boot_def nx_new_def Let_def)
qed

text \<open>The handlers keep it, one by one; only a new toplevel of the client itself could end it.\<close>

lemma stranger_move_window:
  assumes laws: "space_laws A" and "stranger A c st"
  shows "stranger A c (move_window_between_workspaces A src t wid st)"
proof (cases "workspaces_get (nx_workspaces st) src")
  case None
  with assms(2) show ?thesis by (simp add: move_window_between_workspaces_def)
next
  case (Some sp)
  then have src: "src < length (nx_workspaces st)" "sp = nx_workspaces st ! src"
    by (auto simp: workspaces_get_def split: if_splits)
  show ?thesis
  proof (cases "find_by_id wid (sp_elements A sp)")
    case None
    with Some assms(2) show ?thesis by (simp add: move_window_between_workspaces_def)
  next
    case (Some w)
    then have "w \<in> set (sp_elements A sp)" by (auto simp: find_by_id_def dest: find_in_set)
    with src foreign_nth [OF strangerD(1) [OF assms(2)]] have w: "window_client w \<noteq> Some c" by blast
    have "foreign A c (workspaces_get_mut (nx_workspaces st) src (\<lambda>s. sp_unmap A s w))" (is "foreign A c ?ws")
      using strangerD(1) [OF assms(2)] by (intro foreign_get_mut) (auto simp: foreign_def space_lawsD(3) [OF laws])
    then have "foreign A c (workspaces_get_mut ?ws t (\<lambda>s. sp_map A s w l True))" for l
      using w by - (rule foreign_get_mut, auto simp: foreign_def space_lawsD(2) [OF laws])
    with Some \<open>workspaces_get (nx_workspaces st) src = Some sp\<close> show ?thesis
      by (simp add: move_window_between_workspaces_def Let_def stranger_workspaces [OF assms(2)])
  qed
qed

lemma close_focused_delivered:
  assumes "stranger A c st"
  shows "delivered c (close_focused_window A st) = delivered c st" "stranger A c (close_focused_window A st)"
proof -
  have "delivered c (close_focused_window A st) m = delivered c st m" for m
  proof (cases "\<exists>w. close_focused_window A st = nx_log (SendClose w) st \<and> window_client w \<noteq> Some c")
    case True
    then obtain w where "close_focused_window A st = nx_log (SendClose w) st" "window_client w \<noteq> Some c" by blast
    then show ?thesis by (cases m) simp_all
  next
    case False
    then show ?thesis using foreign_nth [OF strangerD(1) [OF assms]]
      by (auto simp: close_focused_window_def workspaces_get_def split: option.splits if_splits dest!: find_in_set)
  qed
  then show "delivered c (close_focused_window A st) = delivered c st" by (rule ext)
  show "stranger A c (close_focused_window A st)"
    using assms by (simp add: close_focused_window_def split: option.split)
qed

lemma keybind_delivered:
  assumes "space_laws A" and "stranger A c st" and "handle_keybind A logo shift k st = Some (st', fwd)"
  shows "stranger A c st' \<and> delivered c st' = delivered c st"
  using assms(3,2) close_focused_delivered [OF assms(2)] unfolding handle_keybind_def Let_def
  by (auto simp: fun_eq_iff split: if_splits option.splits intro!: stranger_move_window [OF assms(1)])

lemma keyboard_delivered:
  assumes "space_laws A" and "stranger A c st" and "handle_keyboard A locked logo shift k pressed st = Some st'"
  shows "stranger A c st' \<and> delivered c st' = delivered c st"
proof -
  have fwd: "delivered c (nx_log (KeyForwarded f k) s) = delivered c s" if "stranger A c s" "nx_kbd s = Some f" for s f
  proof
    show "delivered c (nx_log (KeyForwarded f k) s) m = delivered c s m" for m
      using strangerD(3) [OF that(1)] that(2) by (cases f; cases m) (auto simp: focus_off_def)
  qed
  show ?thesis
    using assms(2,3) keybind_delivered [OF assms(1,2)]
    by (auto simp: handle_keyboard_def Let_def fwd split: option.splits if_splits)
qed

lemma pointer_motion_delivered:
  assumes laws: "space_laws A" and "stranger A c st" and "nx_ptr st = Some ptr" and "pointer_motion A ptr u loc st = Some st'"
  shows "stranger A c st' \<and> delivered c st' = delivered c st"
proof (cases "ptr_grab ptr")
  case (Some g)
  let ?st1 = "st\<lparr>nx_ptr := Some (ptr\<lparr>ptr_pending := u, ptr_location := loc, ptr_focus := None\<rparr>)\<rparr>"
  have g: "window_client (grab_window g) \<noteq> Some c"
    using strangerD(2) [OF assms(2)] assms(3) Some by (simp add: grab_off_def)
  from assms(4) Some obtain l where m: "active_space_mut ?st1 (\<lambda>sp. sp_map A sp (grab_window g) l True) = Some st'"
    by (auto simp: pointer_motion_def Let_def move_grab_motion_def)
  have st1: "stranger A c ?st1"
    using assms(2,3) Some g by (intro stranger_ptr) (auto simp: grab_off_def)
  have "stranger A c st'"
    using strangerD(1) [OF assms(2)] g
    by (intro stranger_active_mut [OF st1 m]) (auto simp: foreign_def space_lawsD(2) [OF laws])
  with active_mut_delivered [OF m] show ?thesis by simp
next
  case None
  with assms(2-4) show ?thesis by (auto simp: pointer_motion_def Let_def grab_off_def intro!: stranger_ptr)
qed

lemma pointer_button_stranger: "stranger A c st \<Longrightarrow> stranger A c (pointer_button p k pressed still st)"
  by (auto simp: pointer_button_def Let_def grab_off_def intro!: stranger_ptr)

lemma handle_pointer_button_delivered:
  assumes laws: "space_laws A" and "stranger A c st" and "handle_pointer_button A b pressed still st = Some st'"
  shows "stranger A c st' \<and> delivered c st' = delivered c st"
proof -
  have raise: "stranger A c (kbd_set_focus (win_surface w) s) \<and> delivered c s = delivered c st"
    if "active_space_mut st (\<lambda>space. sp_raise A space w True) = Some s" "window_client w \<noteq> Some c" for w s
    using that strangerD(1) [OF assms(2)] active_mut_delivered [OF that(1)]
    by (intro conjI stranger_focus stranger_active_mut [OF assms(2) that(1)])
      (auto simp: foreign_def space_lawsD(4) [OF laws] window_client_def)
  have under: "window_client w \<noteq> Some c" if "i < length (nx_workspaces st)" "sp_under A (nx_workspaces st ! i) l = Some w" for i l w
    using foreign_nth [OF strangerD(1) [OF assms(2)] that(1) space_lawsD(6) [OF laws that(2)]] .
  have none: "stranger A c (kbd_set_focus None st)" by (rule stranger_focus [OF assms(2)]) simp
  have sent: "stranger A c (pointer_button p b pressed still s) \<and> delivered c (pointer_button p b pressed still s) = delivered c st"
    if "stranger A c s \<and> delivered c s = delivered c st" for p s
    using that by (simp add: pointer_button_stranger fun_eq_iff)
  show ?thesis
  proof (cases "nx_ptr st")
    case (Some ptr)
    then obtain s1 where s1: "st' = pointer_button ptr b pressed still s1" and
      "s1 = st \<or> s1 = kbd_set_focus None st \<or> (\<exists>w s. s1 = kbd_set_focus (win_surface w) s \<and> window_client w \<noteq> Some c \<and>
        active_space_mut st (\<lambda>space. sp_raise A space w True) = Some s)"
      using assms(3) by (auto simp: handle_pointer_button_def Let_def bind_eq_Some_conv dest: under split: option.splits if_splits)
    then have "stranger A c s1 \<and> delivered c s1 = delivered c st" using assms(2) none raise by auto
    from sent [OF this] s1 show ?thesis by blast
  qed (use assms(2,3) in \<open>simp add: handle_pointer_button_def\<close>)
qed

lemma input_delivered:
  assumes laws: "space_laws A" and "stranger A c st" and "process_input_event A ev st = Some st'"
  shows "stranger A c st' \<and> delivered c st' = delivered c st"
proof (cases ev)
  case (Keyboard logo shift k pressed)
  with assms keyboard_delivered [OF laws assms(2)] show ?thesis by (simp add: process_input_event_def Let_def)
next
  case (PointerButton b pressed still)
  with assms handle_pointer_button_delivered [OF laws assms(2)] show ?thesis
    by (auto simp: process_input_event_def Let_def split: if_splits)
qed (use assms(2,3) pointer_motion_delivered [OF laws assms(2)] in
  \<open>auto simp: process_input_event_def Let_def handle_pointer_motion_def handle_pointer_motion_absolute_def
     handle_pointer_axis_def bind_eq_Some_conv fun_eq_iff split: option.splits if_splits\<close>)

section \<open>Every step\<close>

lemma destroy_scan_foreign:
  assumes laws: "space_laws A"
  shows "foreign A c ws \<Longrightarrow> foreign A c (fst (destroy_scan A wl is ws))"
proof (induction "is")
  case (Cons i ks)
  have "foreign A c (workspaces_get_mut ws i (\<lambda>s. sp_unmap A s w))" for w
    using Cons.prems by - (rule foreign_get_mut, auto simp: foreign_def space_lawsD(3) [OF laws])
  with Cons show ?case by (auto split: option.splits)
qed simp

lemma request_delivered:
  assumes "space_laws A" and "stranger A c st" and "handle_request_on_main A reload req st = Some (st', r)"
  shows "stranger A c st' \<and> delivered c st' = delivered c st"
  using assms(2,3) by (cases req) (auto simp: fun_eq_iff split: option.splits prod.splits bool.splits
      intro!: stranger_move_window [OF assms(1)])

lemma unlock_stranger:
  assumes "stranger A c st" and "session_unlock A st = Some st'"
  shows "stranger A c st' \<and> delivered c st' = delivered c st"
proof -
  have top: "surf_client s \<noteq> c" if "active_space (st\<lparr>nx_lock := None\<rparr>) = Some sp" "sp_elements A sp = e # es"
      "win_surface (last (e # es)) = Some s" for sp e es s
  proof -
    have "sp \<in> set (nx_workspaces st)"
      using that(1) nth_mem [of "mgr_active (nx_mgr st)" "nx_workspaces st"]
      by (cases "nx_workspaces st") (auto simp: active_space_def workspaces_active_def simp del: set_simps(2)
          split: if_splits intro: list.set_intros)
    moreover have "last (e # es) \<in> set (sp_elements A sp)" using that(2) by simp
    ultimately have "window_client (last (e # es)) \<noteq> Some c" using strangerD(1) [OF assms(1)] by (auto simp: foreign_def)
    with that(3) show ?thesis by (simp add: window_client_def)
  qed
  have set: "stranger A c (kbd_set_focus (Some s) (st\<lparr>nx_lock := None\<rparr>))" if "surf_client s \<noteq> c" for s
    using assms(1) that by (intro stranger_focus) simp_all
  show ?thesis
    using assms set top by (auto simp: session_unlock_def Let_def simp del: last.simps split: option.splits list.splits)
qed

text \<open>
  The messages a client without a window gets: none with a key; a configure event only if it asked for a
  lock surface or a popup, and the closing of a layer surface only when there was no output.
\<close>

lemma stranger_step:
  assumes laws: "space_laws A" and "stranger A c st" and "frame_step A st e = Some st'"
    and "\<And>w. e = NewToplevel w \<Longrightarrow> window_client w \<noteq> Some c"
  shows "stranger A c st' \<and> delivered c st' KeyMsg = delivered c st KeyMsg \<and>
    (delivered c st' CloseMsg = delivered c st CloseMsg \<or> (\<exists>l out. e = NewLayer l out \<and> surf_client (lay_surface l) = c \<and>
       (case out of Some o' \<Rightarrow> o' | None \<Rightarrow> nx_primary st) = None))"
proof (cases e)
  case (InputEv ev)
  with input_delivered [OF laws assms(2)] assms(3) show ?thesis by simp
next
  case (NewToplevel w)
  with assms(3) obtain s where s: "active_space_mut st (\<lambda>space. sp_map A space w (toplevel_location A (nx_primary st) space) True) = Some s"
      "stranger A c s = stranger A c st'" "delivered c s = delivered c st'"
    by (auto simp: new_toplevel_def)
  have "stranger A c s"
    using strangerD(1) [OF assms(2)] assms(4) [OF NewToplevel]
    by (intro stranger_active_mut [OF assms(2) s(1)]) (auto simp: foreign_def space_lawsD(2) [OF laws])
  with s active_mut_delivered [OF s(1)] show ?thesis by simp
next
  case (MoveRequest wl g start)
  have "window_client w \<noteq> Some c" if "i < length (nx_workspaces st)" "window_of A wl (nx_workspaces st ! i) = Some w" for i w
    using foreign_nth [OF strangerD(1) [OF assms(2)] that(1)] that(2) by (auto simp: window_of_def dest: find_in_set)
  with MoveRequest assms(2,3) show ?thesis
    by (auto simp: move_request_def Let_def grab_off_def intro!: stranger_ptr split: option.splits if_splits)
next
  case (ToplevelDestroyed wl)
  have "foreign A c (fst (destroy_scan A wl [0..<workspaces_count (nx_workspaces st)] (nx_workspaces st)))"
    by (rule destroy_scan_foreign [OF laws strangerD(1) [OF assms(2)]])
  with ToplevelDestroyed assms(2,3) show ?thesis
    by (auto simp: toplevel_destroyed_def Let_def stranger_workspaces split: prod.splits option.splits)
next
  case LockRequest
  with assms(2,3) show ?thesis by (auto simp: session_lock_def intro!: stranger_focus)
next
  case UnlockRequest
  with assms(3) unlock_stranger [OF assms(2)] show ?thesis by simp
next
  case (NewLockSurface s out)
  with assms(2,3) show ?thesis by (auto simp: new_lock_surface_def Let_def split: option.splits)
next
  case (NewLayer l out)
  have "stranger A c st' \<and> delivered c st' KeyMsg = delivered c st KeyMsg"
    using NewLayer assms(2,3) by (auto simp: new_layer_surface_def split: option.splits)
  moreover have "delivered c st' CloseMsg = delivered c st CloseMsg"
    if "surf_client (lay_surface l) \<noteq> c \<or> (case out of Some o' \<Rightarrow> o' | None \<Rightarrow> nx_primary st) \<noteq> None"
    using NewLayer assms(3) that by (auto simp: new_layer_surface_def split: option.splits)
  ultimately show ?thesis
    using NewLayer by (cases "surf_client (lay_surface l) = c \<and> (case out of Some o' \<Rightarrow> o' | None \<Rightarrow> nx_primary st) = None")
      (blast, simp)
next
  case (LayerDestroyed s)
  with assms(2,3) show ?thesis by (auto simp: layer_destroyed_def Let_def split: option.splits)
next
  case (CommitSurface s sync)
  have "foreign A c (fold (\<lambda>i ws. workspaces_get_mut ws i (\<lambda>t. sp_commit A t s)) [0..<n] (nx_workspaces st))" for n
    using strangerD(1) [OF assms(2)] by (rule foreign_fold_same) (simp add: space_lawsD(7) [OF laws])
  moreover have "nx_workspaces (nx_log (BufferCommitted s) st) = nx_workspaces st" by (simp add: nx_log_def)
  ultimately show ?thesis
    using CommitSurface assms(2,3) by (auto simp: compositor_commit_def Let_def intro!: stranger_workspaces)
next
  case (RepositionRequest s geo token)
  with assms(2,3) show ?thesis by (auto simp: reposition_request_def)
next
  case FrameDone
  with assms(2,3) show ?thesis by (auto simp: send_frames_after_render_def split: option.splits)
next
  case (IpcRequest reload req)
  with assms(3) request_delivered [OF laws assms(2)] show ?thesis by auto
qed (use assms(2,3) in \<open>auto simp: handle_signal_def winit_resized_def winit_close_requested_def
      new_popup_def ignored_request_def\<close>)

text \<open>Configure events are sent only for lock surfaces and popups, whoever has windows or the focus.\<close>

lemma configure_step:
  assumes "frame_step A st e = Some st'"
    and "\<And>s out. e = NewLockSurface s out \<Longrightarrow> surf_client s \<noteq> c"
    and "\<And>s geo token. e = RepositionRequest s geo token \<Longrightarrow> surf_client s \<noteq> c"
  shows "delivered c st' ConfigureMsg = delivered c st ConfigureMsg"
proof -
  have close: "delivered c (close_focused_window A s) ConfigureMsg = delivered c s ConfigureMsg" for s :: "('a, 'b) nullxes_state"
    by (simp add: close_focused_window_def split: option.split)
  have bind: "delivered c s' ConfigureMsg = delivered c s ConfigureMsg" if "handle_keybind A logo shift k s = Some (s', fwd)"
    for logo shift k fwd and s s' :: "('a, 'b) nullxes_state"
    using that close [of s] unfolding handle_keybind_def Let_def by (auto split: if_splits option.splits)
  have key: "delivered c s' ConfigureMsg = delivered c s ConfigureMsg" if "handle_keyboard A locked logo shift k pressed s = Some s'"
    for locked logo shift k pressed and s s' :: "('a, 'b) nullxes_state"
    using that bind by (fastforce simp: handle_keyboard_def Let_def split: option.splits if_splits)
  have motion: "delivered c s' = delivered c s" if "pointer_motion A ptr u loc s = Some s'" for ptr u loc and s s' :: "('a, 'b) nullxes_state"
    using that by (auto simp: pointer_motion_def move_grab_motion_def Let_def dest: active_mut_delivered split: option.splits)
  show ?thesis
  proof (cases e)
    case (InputEv ev)
    then show ?thesis
      using assms(1) key motion
      by (cases ev) (auto simp: process_input_event_def Let_def handle_pointer_motion_def handle_pointer_button_def
          handle_pointer_motion_absolute_def bind_eq_Some_conv active_space_mut_def split: option.splits if_splits)
  next
    case (NewLayer l out)
    with assms(1) show ?thesis by (auto simp: new_layer_surface_def split: option.splits)
  next
    case (NewLockSurface s out)
    with assms(1,2) show ?thesis by (auto simp: new_lock_surface_def Let_def split: option.splits)
  next
    case (RepositionRequest s geo token)
    with assms(1,3) show ?thesis by (auto simp: reposition_request_def)
  next
    case (IpcRequest reload req)
    with assms(1) show ?thesis by (cases req) (auto split: option.splits prod.splits bool.splits)
  qed (use assms(1) in \<open>auto simp: new_toplevel_def move_request_def toplevel_destroyed_def session_lock_def
      session_unlock_def layer_destroyed_def compositor_commit_def send_frames_after_render_def handle_signal_def
      winit_resized_def winit_close_requested_def new_popup_def ignored_request_def Let_def active_space_mut_def
      split: option.splits prod.splits list.splits if_splits\<close>)
qed

end
