(* ===== verification/Desktop_Launcher.thy ===== *)
theory Desktop_Launcher
  imports Desktop Launcher
begin

text \<open>
  FRAME and the launcher (\<open>crates/launcher\<close>) together. The launcher's only surface is a layer surface
  that asks for exclusive keyboard input; FRAME moves the keyboard focus with the left button,
  to a window, and at the unlocking, to a window.
\<close>

section \<open>The launcher as a program of the desktop\<close>

text \<open>
  A configure event of a layer surface comes from smithay's layer map and is not counted. The
  launcher asks for one layer surface on the output that the compositor chooses, commits and destroys it.
\<close>

fun launcher_reads :: "client_event \<Rightarrow> message option" where
  "launcher_reads (ClKey k pressed) = Some KeyMsg"
| "launcher_reads ClClose = Some CloseMsg"
| "launcher_reads ev = None"

fun launcher_asks :: "frame_event \<Rightarrow> bool" where
  "launcher_asks (NewLayer l out) = (out = None)"
| "launcher_asks (LayerDestroyed s) = True"
| "launcher_asks (CommitSurface s sync) = True"
| "launcher_asks e = False"

definition launcher_program :: "launcher_env \<Rightarrow> (client_event, launcher_state) program" where
  "launcher_program env = \<lparr>pg_turn = surface_loop (launcher_dispatch env), pg_reads = launcher_reads,
     pg_asks = launcher_asks, pg_ok = client_event_ok\<rparr>"

section \<open>Without keys it does nothing\<close>

definition untouched :: "launcher_env \<Rightarrow> app_entry list \<Rightarrow> launcher_state \<Rightarrow> bool" where
  "untouched env apps s \<longleftrightarrow> launcher_inv env apps s \<and> la_query s = [] \<and> la_selected s = 0 \<and> la_spawned s = [] \<and>
     \<not> cl_should_close s"

interpretation idle_launcher: event_client "\<lambda>w h s. Some s" "launcher_handle_action env" "launcher_handle_text env"
  "untouched env apps" "\<lambda>ev. launcher_reads ev = None" for env apps
  by unfold_locales
    (auto simp: untouched_def launcher_inv_def client_ok_def results_def mark_released_ok cl_emit_def keeps_pure)

lemma untouched_redraw: "keeps (untouched env apps) (launcher_redraw env)"
proof (rule keepsI)
  fix s assume s: "untouched env apps s"
  then obtain s' where "launcher_redraw env s = Some s'" "launcher_inv env apps s'" "redrawn s s'"
    using launcher_painter.redraw_ok [of "ce_rast (lae_client env)" s "ce_os (lae_client env)" "launcher_view_of env s"]
      keepsD [OF launcher_redraw_inv, of env apps s]
    by (auto simp: launcher_redraw_def untouched_def launcher_inv_def)
  with s show "\<exists>s'. launcher_redraw env s = Some s' \<and> untouched env apps s'" by (auto simp: untouched_def redrawn_def)
qed

lemma untouched_dispatch:
  assumes "launcher_reads ev = None"
  shows "keeps (untouched env apps) (launcher_dispatch env ev)"
proof (cases "\<exists>serial. ev = ClSurfaceConfigure serial")
  case True
  then obtain serial where ev: "ev = ClSurfaceConfigure serial" ..
  have "untouched env apps s \<Longrightarrow> untouched env apps ((cl_emit (ClAckConfigure serial) s)\<lparr>cl_configured := True\<rparr>)" for s
    by (simp add: untouched_def launcher_inv_def client_ok_def results_def cl_emit_def)
  with ev untouched_redraw [of env apps] show ?thesis by (simp add: keeps_def launcher_dispatch_def client_dispatch_def)
next
  case False
  with assms have "keeps (untouched env apps) (client_dispatch (ce_xkb (lae_client env)) (launcher_redraw env)
      (\<lambda>w h s. Some s) (launcher_handle_action env) (launcher_handle_text env) ev)"
    by (intro idle_launcher.event_keeps) auto
  then show ?thesis by (cases ev) (simp_all add: launcher_dispatch_def keeps_def)
qed

section \<open>The compositor has nothing to tell it\<close>

text \<open>FRAME keeps the output that it has.\<close>

lemma primary_move_window [simp]: "nx_primary (move_window_between_workspaces A src t wid st) = nx_primary st"
  by (simp add: move_window_between_workspaces_def Let_def split: option.split)

lemma primary_parts [simp]:
  "nx_primary (nx_log e st) = nx_primary st" "nx_primary (close_focused_window A st) = nx_primary st"
  "nx_primary (spawn_detached b st) = nx_primary st" "nx_primary (kbd_set_focus f st) = nx_primary st"
  "nx_primary (pointer_button p k pressed still st) = nx_primary st"
  "nx_primary (handle_pointer_axis fg v v120 h st) = nx_primary st"
  "nx_primary (fold (\<lambda>w. nx_log (FrameSent w out)) ws st) = nx_primary st"
proof -
  show "nx_primary (fold (\<lambda>w. nx_log (FrameSent w out)) ws st) = nx_primary st"
    by (induction ws arbitrary: st) (auto simp: nx_log_def)
qed (simp_all add: nx_log_def close_focused_window_def spawn_detached_def kbd_set_focus_def pointer_button_def
    handle_pointer_axis_def Let_def split: option.split)

lemma primary_step:
  assumes "frame_step A st e = Some st'"
  shows "nx_primary st' = None \<longleftrightarrow> nx_primary st = None"
proof -
  have bind: "nx_primary s' = nx_primary s" if "handle_keybind A logo shift k s = Some (s', fwd)"
    for logo shift k fwd and s s' :: "('a, 'b) nullxes_state"
    using that unfolding handle_keybind_def Let_def by (auto split: if_splits option.splits)
  have key: "nx_primary s' = nx_primary s" if "handle_keyboard A locked logo shift k pressed s = Some s'"
    for locked logo shift k pressed and s s' :: "('a, 'b) nullxes_state"
    using that bind by (fastforce simp: handle_keyboard_def Let_def split: option.splits if_splits)
  show ?thesis
  proof (cases e)
    case (InputEv ev)
    then show ?thesis
      using assms key
      by (cases ev) (auto simp: process_input_event_def Let_def handle_pointer_motion_def handle_pointer_button_def
          handle_pointer_motion_absolute_def pointer_motion_def move_grab_motion_def bind_eq_Some_conv
          active_space_mut_def split: option.splits if_splits)
  next
    case (IpcRequest reload req)
    with assms show ?thesis by (cases req) (auto split: option.splits prod.splits bool.splits)
  qed (use assms in \<open>auto simp: new_toplevel_def move_request_def toplevel_destroyed_def session_lock_def
      session_unlock_def layer_destroyed_def compositor_commit_def send_frames_after_render_def handle_signal_def
      winit_resized_def winit_close_requested_def popup_defs Let_def active_space_mut_def new_layer_surface_def
      new_lock_surface_def split: option.splits prod.splits list.splits if_splits\<close>)
qed

text \<open>The compositor as the host of a client that has no window.\<close>

definition layer_host :: "('s, 'l, 'x) smithay_api_scheme \<Rightarrow> nat \<Rightarrow> ('s, 'l) nullxes_state \<Rightarrow> bool" where
  "layer_host A c st \<longleftrightarrow> space_laws A \<and> frame_ok st \<and> stranger A c st \<and> nx_primary st \<noteq> None"

lemma layer_host_step:
  assumes "layer_host A c st" and "frame_step A st e = Some st'" and "asked_by e = Some c \<longrightarrow> launcher_asks e"
  shows "layer_host A c st' \<and> (\<forall>m \<in> {KeyMsg, CloseMsg}. delivered c st' m = delivered c st m)"
proof -
  have h: "space_laws A" "frame_ok st" "stranger A c st" "nx_primary st \<noteq> None"
    using assms(1) by (simp_all add: layer_host_def)
  then have fm: "frame_machine A" by unfold_locales
  have "frame_ok st'" using frame_machine.step_ok [OF fm h(2), of e] assms(2) by (auto dest: opt_okD)
  moreover have "window_client w \<noteq> Some c" if "e = NewToplevel w" for w using assms(3) that by simp
  note step = stranger_step [OF h(1,3) assms(2) this]
  moreover have "nx_primary st' \<noteq> None" using primary_step [OF assms(2)] h(4) by simp
  moreover have "\<not> (\<exists>l out. e = NewLayer l out \<and> surf_client (lay_surface l) = c \<and>
      (case out of Some o' \<Rightarrow> o' | None \<Rightarrow> nx_primary st) = None)"
    using assms(3) h(4) by auto
  ultimately show ?thesis using h(1) by (auto simp: layer_host_def)
qed

interpretation launcher_desk: silent_client A c "launcher_program env" "{KeyMsg, CloseMsg}" "layer_host A c"
  "untouched env apps" for A c env apps
proof
  fix st st' e
  assume "layer_host A c st" "frame_step A st e = Some st'" "asked_by e = Some c \<longrightarrow> pg_asks (launcher_program env) e"
  then show "layer_host A c st' \<and> (\<forall>m \<in> {KeyMsg, CloseMsg}. delivered c st' m = delivered c st m)"
    by (intro layer_host_step) (simp_all add: launcher_program_def)
next
  fix s :: launcher_state and b
  assume s: "untouched env apps s" and "\<forall>m \<in> {KeyMsg, CloseMsg}. reads (launcher_program env) b m = 0"
  then have "launcher_reads ev = None" if "ev \<in> set b" for ev
    using that by (cases ev) (auto simp: reads_def launcher_program_def filter_empty_conv)
  then have "keeps (untouched env apps) (surface_loop (launcher_dispatch env) b)"
    unfolding surface_loop_def by (intro keeping untouched_dispatch)
  from keepsD [OF this s] show "\<exists>s'. pg_turn (launcher_program env) b s = Some s' \<and> untouched env apps s'"
    by (simp add: launcher_program_def)
qed

section \<open>Property\<close>



end
