(* ===== verification/Desktop_Windows.thy ===== *)
theory Desktop_Windows
  imports Desktop Slate_Safety Settings
begin

text \<open>
  FRAME and its clients with a window, \<open>slate\<close> and \<open>nx-settings\<close>, together. An xdg surface
  may show nothing before its first configure event, and the clients wait for it; the compositor has
  to send it.
\<close>

section \<open>Window clients as programs of the desktop\<close>

fun window_reads :: "client_event \<Rightarrow> message option" where
  "window_reads (ClKey k pressed) = Some KeyMsg"
| "window_reads ClClose = Some CloseMsg"
| "window_reads (ClSurfaceConfigure serial) = Some ConfigureMsg"
| "window_reads ev = None"

text \<open>They ask for a toplevel, commit and destroy it; none opens a popup or asks for a lock surface.\<close>

fun window_asks :: "frame_event \<Rightarrow> bool" where
  "window_asks (NewToplevel w) = True"
| "window_asks (ToplevelDestroyed s) = True"
| "window_asks (CommitSurface s sync) = True"
| "window_asks e = False"

definition slate_program :: "slate_env \<Rightarrow> (slate_input, slate_state) program" where
  "slate_program env = \<lparr>pg_turn = slate_turn env,
     pg_reads = (\<lambda>i. case i of SlateEvent ev \<Rightarrow> window_reads ev | TermEvent _ \<Rightarrow> None),
     pg_asks = window_asks, pg_ok = (\<lambda>_. True)\<rparr>"

definition settings_program :: "settings_env \<Rightarrow> (settings_input, settings_state) program" where
  "settings_program env = \<lparr>pg_turn = surface_loop (settings_step env),
     pg_reads = (\<lambda>i. case i of SettingsEvent ev \<Rightarrow> window_reads ev | ReloadDone _ \<Rightarrow> None),
     pg_asks = window_asks, pg_ok = (\<lambda>_. True)\<rparr>"

section \<open>Without a configure event nothing is shown\<close>

definition blank :: "'x client_scheme \<Rightarrow> bool" where
  "blank s \<longleftrightarrow> \<not> cl_configured s \<and> (\<forall>obj w h. ClCommit obj w h \<notin> set (cl_trace s))"

lemma blank_redraw: "blank s \<Longrightarrow> client_redraw os paint s = Some s"
  by (simp add: blank_def client_redraw_def)

lemma blank_fields [simp]:
  "blank (s\<lparr>cl_should_close := b\<rparr>) = blank s" "blank (s\<lparr>cl_keyboard := b\<rparr>) = blank s"
  "blank (s\<lparr>cl_keymap := km\<rparr>) = blank s" "blank (s\<lparr>cl_buffer := p\<rparr>) = blank s"
  "blank (s\<lparr>cl_width := w\<rparr>) = blank s" "blank (s\<lparr>cl_height := h\<rparr>) = blank s"
  "blank (cl_emit (ClPong serial) s) = blank s"
  by (simp_all add: blank_def cl_emit_def)

definition blank_slate :: "slate_state \<Rightarrow> bool" where
  "blank_slate s \<longleftrightarrow> blank s \<and> sl_term s = None"

interpretation blank_slate: event_client "slate_resize env" slate_handle_action slate_handle_text blank_slate
  "\<lambda>_. True" for env
  by unfold_locales (auto simp: keeps_def blank_slate_def slate_resize_def slate_handle_action_def
      slate_handle_text_def cl_emit_def blank_def Let_def)

lemma blank_slate_turn:
  assumes "\<forall>i \<in> set b. pg_reads (slate_program env) i \<noteq> Some ConfigureMsg"
  shows "keeps blank_slate (slate_turn env b)"
proof -
  have "keeps blank_slate (slate_step env i)" if "i \<in> set b" for i
  proof (cases i)
    case (SlateEvent ev)
    with assms that have "ev \<noteq> ClSurfaceConfigure serial" for serial by (auto simp: slate_program_def)
    with SlateEvent show ?thesis
      by (simp add: slate_step_def slate_dispatch_def blank_slate.event_keeps)
  qed (simp add: slate_step_def keeps_def blank_slate_def)
  moreover have "keeps blank_slate (slate_drain env)"
    by (simp add: keeps_def slate_drain_def blank_slate_def)
  ultimately show ?thesis unfolding slate_turn_def by (intro keeping)
qed

lemma settings_redraw_blank: "blank s \<Longrightarrow> settings_redraw env s = Some s"
  by (simp add: settings_redraw_def blank_redraw)

interpretation blank_settings: event_client "\<lambda>w h s. Some s" "settings_handle_action env" "\<lambda>str s. Some s"
  "blank :: settings_state \<Rightarrow> bool" "\<lambda>_. True" for env
proof
  show "keeps blank (settings_handle_action env a)" for a
  proof (rule keepsI)
    fix s :: settings_state assume s: "blank s"
    have "blank (s\<lparr>ss_section := x\<rparr>)" "blank (s\<lparr>ss_status := y, ss_reloads := k\<rparr>)" for x y k
      using s by (simp_all add: blank_def)
    with s show "\<exists>s'. settings_handle_action env a s = Some s' \<and> blank s'"
      by (cases a) (simp_all add: settings_handle_action_def settings_redraw_blank)
  qed
qed (auto simp: keeps_def)

lemma blank_settings_turn:
  assumes "\<forall>i \<in> set b. pg_reads (settings_program env) i \<noteq> Some ConfigureMsg"
  shows "keeps blank (surface_loop (settings_step env) b)"
proof -
  have "keeps blank (settings_step env i)" if "i \<in> set b" for i
  proof (cases i)
    case (SettingsEvent ev)
    with assms that have "ev \<noteq> ClSurfaceConfigure serial" for serial by (auto simp: settings_program_def)
    with SettingsEvent show ?thesis
      by (simp add: settings_step_def settings_dispatch_def blank_settings.event_keeps)
  qed (simp add: settings_step_def keeps_def reload_done_def blank_def)
  then show ?thesis unfolding surface_loop_def by (intro keeping)
qed

section \<open>The compositor sends none\<close>

definition window_host :: "('s, 'l, 'x) smithay_api_scheme \<Rightarrow> ('s, 'l) nullxes_state \<Rightarrow> bool" where
  "window_host A st \<longleftrightarrow> space_laws A \<and> frame_ok st"

lemma window_host_total: "window_host A st \<Longrightarrow> \<exists>st'. frame_step A st e = Some st' \<and> window_host A st'"
proof -
  assume h: "window_host A st"
  then have fm: "frame_machine A" unfolding window_host_def by unfold_locales simp
  show ?thesis using frame_machine.step_ok [OF fm, of st e] h by (auto simp: window_host_def dest: opt_okD)
qed

lemma window_host_step:
  assumes "window_host A st" and "frame_step A st e = Some st'" and "asked_by e = Some c \<longrightarrow> window_asks e"
  shows "window_host A st' \<and> (\<forall>m \<in> {ConfigureMsg}. delivered c st' m = delivered c st m)"
proof -
  have "delivered c st' ConfigureMsg = delivered c st ConfigureMsg"
    by (rule configure_step [OF assms(2)]) (use assms(3) in auto)
  then show ?thesis using window_host_total [OF assms(1), of e] assms(2) by auto
qed

text \<open>A batch without the silent message has no event that is one.\<close>

lemma reads_none: "reads P b m = 0 \<longleftrightarrow> (\<forall>i \<in> set b. pg_reads P i \<noteq> Some m)"
  by (auto simp: reads_def filter_empty_conv)

interpretation slate_desk: silent_client A c "slate_program env" "{ConfigureMsg}" "window_host A" blank_slate for A c env
proof
  fix s :: slate_state and b
  assume "blank_slate s" "\<forall>m \<in> {ConfigureMsg}. reads (slate_program env) b m = 0"
  with keepsD [OF blank_slate_turn [of b env]] show "\<exists>s'. pg_turn (slate_program env) b s = Some s' \<and> blank_slate s'"
    by (auto simp: reads_none slate_program_def)
qed (use window_host_step in \<open>simp add: slate_program_def\<close>)

interpretation settings_desk: silent_client A c "settings_program env" "{ConfigureMsg}" "window_host A" blank for A c env
proof
  fix s :: settings_state and b
  assume "blank s" "\<forall>m \<in> {ConfigureMsg}. reads (settings_program env) b m = 0"
  with keepsD [OF blank_settings_turn [of b env]] show "\<exists>s'. pg_turn (settings_program env) b s = Some s' \<and> blank s'"
    by (auto simp: reads_none settings_program_def)
qed (use window_host_step in \<open>simp add: settings_program_def\<close>)

section \<open>Property\<close>


text \<open>The same of the settings window.\<close>

lemma settings_never_appear:
  assumes "space_laws A" and "frame_ok st0"
    and "desk_reach A c (settings_program env) (st0, delivered c st0, settings_init f) (st, n, s)"
  shows "\<not> cl_configured s \<and> (\<forall>obj w h. ClCommit obj w h \<notin> set (cl_trace s)) \<and> (\<forall>e. frame_step A st e \<noteq> None)"
proof -
  have "window_host A st0" using assms(1,2) by (simp add: window_host_def)
  moreover have "blank (settings_init f)"
    by (simp add: blank_def settings_init_def settings_new_def client_init_surface_def cl_emit_def client_new_def
        client.defs settings_state.defs)
  ultimately have "window_host A st" "blank s" using settings_desk.silent_run [OF assms(3)] by blast+
  with window_host_total [of A st] show ?thesis by (fastforce simp: blank_def)
qed


end
