(* ===== verification/Client_Protocol.thy ===== *)
theory Client_Protocol
  imports Slate_Safety Settings Greeter_Safety Launcher
begin

text \<open>
  How the four clients with one surface (\<open>slate\<close>, \<open>nx-settings\<close>, \<open>nx-greet\<close>, \<open>launcher\<close>) speak to their
  compositor: the answers to ping and configure events and the commits of frames, in the order of
  the trace. xdg-shell and layer-shell make a frame before the first \<open>ack_configure\<close> an error of
  the protocol.
\<close>

section \<open>Answers and frames\<close>

fun is_answer :: "client_effect \<Rightarrow> bool" where
  "is_answer (ClPong serial) = True"
| "is_answer (ClAckConfigure serial) = True"
| "is_answer e = False"

fun is_frame :: "client_effect \<Rightarrow> bool" where
  "is_frame (ClCommit obj w h) = True"
| "is_frame e = False"

text \<open>What an event must be answered with.\<close>

fun answer :: "client_event \<Rightarrow> client_effect list" where
  "answer (ClPing serial) = [ClPong serial]"
| "answer (ClSurfaceConfigure serial) = [ClAckConfigure serial]"
| "answer ev = []"

definition frames_acked :: "client_effect list \<Rightarrow> bool" where
  "frames_acked tr \<longleftrightarrow> (\<forall>i < length tr. is_frame (tr ! i) \<longrightarrow> (\<exists>j < i. \<exists>serial. tr ! j = ClAckConfigure serial))"

definition proper :: "'x client_scheme \<Rightarrow> bool" where
  "proper s \<longleftrightarrow> frames_acked (cl_trace s) \<and> (cl_configured s \<longrightarrow> (\<exists>serial. ClAckConfigure serial \<in> set (cl_trace s)))"

text \<open>From \<open>s\<close> to \<open>s'\<close> the client has given exactly the answers \<open>ans\<close>, and has stayed proper.\<close>

definition talked :: "client_effect list \<Rightarrow> 'x client_scheme \<Rightarrow> 'x client_scheme \<Rightarrow> bool" where
  "talked ans s s' \<longleftrightarrow> filter is_answer (cl_trace s') = filter is_answer (cl_trace s) @ ans \<and> (proper s \<longrightarrow> proper s')"

text \<open>From \<open>s\<close> to \<open>s'\<close> the client has at most committed frames, and these only when it was configured.\<close>

definition speaks :: "'x client_scheme \<Rightarrow> 'x client_scheme \<Rightarrow> bool" where
  "speaks s s' \<longleftrightarrow> cl_configured s' = cl_configured s \<and>
     (\<exists>cs. cl_trace s' = cl_trace s @ cs \<and> (\<forall>e \<in> set cs. is_frame e) \<and> (cs \<noteq> [] \<longrightarrow> cl_configured s))"

lemma talked_refl [simp]: "talked [] s s"
  by (simp add: talked_def)

lemma talked_trans: "talked a s t \<Longrightarrow> talked b t u \<Longrightarrow> talked (a @ b) s u"
  by (simp add: talked_def)

lemma frames_acked_append:
  assumes "frames_acked tr" and "ClAckConfigure serial \<in> set tr"
  shows "frames_acked (tr @ cs)"
proof -
  obtain k where k: "k < length tr" "tr ! k = ClAckConfigure serial" using assms(2) by (auto simp: in_set_conv_nth)
  have "\<exists>j < i. \<exists>serial. (tr @ cs) ! j = ClAckConfigure serial" if "is_frame ((tr @ cs) ! i)" for i
  proof (cases "i < length tr")
    case True
    with that assms(1) obtain j n where "j < i" "tr ! j = ClAckConfigure n" by (auto simp: frames_acked_def nth_append)
    with True show ?thesis by (intro exI [of _ j]) (simp add: nth_append)
  next
    case False
    with k show ?thesis by (intro exI [of _ k]) (simp add: nth_append)
  qed
  then show ?thesis by (simp add: frames_acked_def)
qed

lemma frames_acked_quiet:
  assumes "frames_acked tr" and "\<not> is_frame e"
  shows "frames_acked (tr @ [e])"
  unfolding frames_acked_def
proof (intro allI impI)
  fix i assume "i < length (tr @ [e])" and f: "is_frame ((tr @ [e]) ! i)"
  with assms(2) have i: "i < length tr" by (cases "i = length tr") auto
  with f assms(1) obtain j n where "j < i" "tr ! j = ClAckConfigure n" by (auto simp: frames_acked_def nth_append)
  with i show "\<exists>j < i. \<exists>serial. (tr @ [e]) ! j = ClAckConfigure serial" by (intro exI [of _ j]) (simp add: nth_append)
qed

lemma speaks_talked: "speaks s s' \<Longrightarrow> talked [] s s'"
proof -
  assume "speaks s s'"
  then obtain cs where cs: "cl_trace s' = cl_trace s @ cs" "\<forall>e \<in> set cs. is_frame e" "cs \<noteq> [] \<longrightarrow> cl_configured s"
      "cl_configured s' = cl_configured s"
    by (auto simp: speaks_def)
  have "\<not> is_answer e" if "is_frame e" for e using that by (cases e) auto
  with cs(2) have "filter is_answer cs = []" by (simp add: filter_empty_conv)
  moreover have "proper s'" if "proper s"
    using that cs by (cases cs) (auto simp: proper_def intro: frames_acked_append)
  ultimately show ?thesis using cs(1) by (simp add: talked_def)
qed

lemma talked_answer:
  "talked [ClPong n] s (cl_emit (ClPong n) s)"
  "talked [ClAckConfigure n] s ((cl_emit (ClAckConfigure n) s)\<lparr>cl_configured := True\<rparr>)"
  by (auto simp: talked_def proper_def cl_emit_def intro: frames_acked_quiet)

text \<open>Fields that no part of the conversation reads.\<close>

lemma talked_fields [simp]:
  "talked ans s (s'\<lparr>cl_should_close := b\<rparr>) = talked ans s s'" "talked ans s (s'\<lparr>cl_keyboard := b\<rparr>) = talked ans s s'"
  "talked ans s (s'\<lparr>cl_keymap := km\<rparr>) = talked ans s s'" "talked ans s (s'\<lparr>cl_buffer := p\<rparr>) = talked ans s s'"
  by (simp_all add: talked_def proper_def)

section \<open>The contract of the handlers\<close>

locale speaking_client =
  fixes redraw :: "'x client_scheme \<Rightarrow> 'x client_scheme option"
    and on_resize :: "i32 \<Rightarrow> i32 \<Rightarrow> 'x client_scheme \<Rightarrow> 'x client_scheme option"
    and on_action :: "action \<Rightarrow> 'x client_scheme \<Rightarrow> 'x client_scheme option"
    and on_text :: "rstring \<Rightarrow> 'x client_scheme \<Rightarrow> 'x client_scheme option"
  assumes redraw_speaks: "redraw s = Some s' \<Longrightarrow> speaks s s'"
    and resize_speaks: "on_resize w h s = Some s' \<Longrightarrow> speaks s s'"
    and action_speaks: "on_action a s = Some s' \<Longrightarrow> speaks s s'"
    and text_speaks: "on_text str s = Some s' \<Longrightarrow> speaks s s'"
begin

lemma dispatch_talks:
  assumes "client_dispatch x redraw on_resize on_action on_text ev s = Some s'"
  shows "talked (answer ev) s s'"
proof (cases ev)
  case (ClSurfaceConfigure serial)
  let ?t = "(cl_emit (ClAckConfigure serial) s)\<lparr>cl_configured := True\<rparr>"
  have "redraw ?t = Some s'" using assms ClSurfaceConfigure by (simp add: client_dispatch_def)
  then have "talked [] ?t s'" by (intro speaks_talked redraw_speaks)
  moreover have "talked [ClAckConfigure serial] s ?t" by (rule talked_answer(2))
  ultimately show ?thesis using ClSurfaceConfigure talked_trans by fastforce
next
  case (ClKey k pressed)
  with assms show ?thesis
    by (auto simp: client_dispatch_def intro: speaks_talked action_speaks text_speaks split: if_splits key_symbol.splits)
qed (use assms resize_speaks in \<open>auto simp: client_dispatch_def talked_answer intro: speaks_talked\<close>)

end

text \<open>A batch, and the turns of a main loop that ends when the client wants to close.\<close>

lemma each_Cons: "each (x # xs) f s = Option.bind (f x s) (each xs f)"
  by (simp add: each_def fun_eq_iff split: option.split Option.bind_split)

lemma each_talked:
  assumes "\<And>i s s'. f i s = Some s' \<Longrightarrow> talked (ans i) s s'" and "each xs f s = Some s'"
  shows "talked (concat (map ans xs)) s s'"
  using assms(2)
proof (induction xs arbitrary: s)
  case (Cons i xs)
  then obtain t where "f i s = Some t" "each xs f t = Some s'" by (auto simp: each_Cons bind_eq_Some_conv)
  from talked_trans [OF assms(1) [OF this(1)] Cons.IH [OF this(2)]] show ?case by simp
qed (simp add: each_def)

lemma turns_talked:
  assumes "\<And>b s s'. turn b s = Some s' \<Longrightarrow> talked (concat (map ans b)) s s'"
    and "each turns (\<lambda>b. guarded_by (\<lambda>s. \<not> cl_should_close s) (turn b)) s = Some s'"
  shows "\<exists>k \<le> length turns. (k < length turns \<longrightarrow> cl_should_close s') \<and>
    talked (concat (map ans (concat (take k turns)))) s s'"
  using assms(2)
proof (induction turns arbitrary: s)
  case (Cons b turns)
  let ?each = "each turns (\<lambda>b. guarded_by (\<lambda>s. \<not> cl_should_close s) (turn b))"
  show ?case
  proof (cases "cl_should_close s")
    case True
    have "each bs (\<lambda>b. guarded_by (\<lambda>s. \<not> cl_should_close s) (turn b)) s = Some s" for bs
      using True by (induction bs) (simp_all add: each_def guarded_by_def)
    with Cons.prems True show ?thesis by (intro exI [of _ 0]) simp
  next
    case False
    then have "guarded_by (\<lambda>s. \<not> cl_should_close s) (turn b) s = turn b s" by (simp add: guarded_by_def)
    with Cons.prems have "Option.bind (turn b s) ?each = Some s'" by (simp add: each_Cons)
    then obtain t where t: "turn b s = Some t" "?each t = Some s'" by (auto simp: bind_eq_Some_conv)
    from Cons.IH [OF t(2)] obtain k where k: "k \<le> length turns" "k < length turns \<longrightarrow> cl_should_close s'"
        "talked (concat (map ans (concat (take k turns)))) t s'" by blast
    with talked_trans [OF assms(1) [OF t(1)] k(3)] show ?thesis by (intro exI [of _ "Suc k"]) simp
  qed
qed (simp add: each_def)

section \<open>The four clients\<close>

text \<open>A handler that changes only the client's own fields and then draws.\<close>

lemma speaks_from:
  "speaks t s' \<Longrightarrow> cl_trace t = cl_trace s \<Longrightarrow> cl_configured t = cl_configured s \<Longrightarrow> speaks s s'"
  by (simp add: speaks_def)

lemma speaks_refl [simp]: "cl_trace s' = cl_trace s \<Longrightarrow> cl_configured s' = cl_configured s \<Longrightarrow> speaks s s'"
  by (simp add: speaks_def)

lemma speaks_commit:
  "cl_trace s' = cl_trace s \<Longrightarrow> cl_configured s' = cl_configured s \<Longrightarrow> cl_configured s \<Longrightarrow>
    speaks s (cl_emit (ClCommit obj w h) s')"
  by (simp add: speaks_def cl_emit_def)

text \<open>Drawing commits a frame at most when the client is configured.\<close>

lemma client_redraw_speaks:
  assumes "client_redraw os paint s = Some s'"
  shows "speaks s s'"
proof (cases "cl_configured s \<and> (\<exists>p. client_pool os s = Inr p)")
  case True
  then obtain p where p: "cl_configured s" "client_pool os s = Inr p" by blast
  with assms obtain p' t' r where "pool_draw os paint (p, cl_text s) = Some ((p', t'), r)"
    by (auto simp: client_redraw_def)
  with assms p show ?thesis by (cases r) (auto simp: client_redraw_def Let_def intro!: speaks_commit split: if_splits)
next
  case False
  with assms show ?thesis by (auto simp: client_redraw_def split: if_splits sum.splits)
qed

lemma slate_redraw_speaks: "slate_redraw env s = Some s' \<Longrightarrow> speaks s s'"
  by (auto simp: slate_redraw_def ensure_term_def Let_def dest!: client_redraw_speaks elim!: speaks_from
      split: if_splits option.splits)

interpretation slate_talk: speaking_client "slate_redraw env" "slate_resize env" slate_handle_action slate_handle_text
  for env
  by unfold_locales (auto simp: slate_redraw_speaks slate_resize_def slate_handle_action_def slate_handle_text_def
      Let_def split: if_splits)

interpretation settings_talk: speaking_client "settings_redraw env" "\<lambda>w h s. Some s" "settings_handle_action env"
  "\<lambda>str s. Some s" for env
proof
  show "speaks s s'" if "settings_handle_action env a s = Some s'" for a s s'
    using that by (cases a) (auto simp: settings_redraw_def settings_handle_action_def
        dest!: client_redraw_speaks elim!: speaks_from)
qed (auto simp: settings_redraw_def dest!: client_redraw_speaks)

interpretation launcher_talk: speaking_client "launcher_redraw env" "\<lambda>w h s. Some s" "launcher_handle_action env"
  "launcher_handle_text env" for env
  by unfold_locales (auto simp: launcher_redraw_def launcher_handle_action_def launcher_handle_text_def
      launch_selected_def dest!: client_redraw_speaks elim!: speaks_from split: action.splits if_splits list.splits)

lemma greet_exchange_speaks:
  "cl_trace (greet_exchange env s) = cl_trace s" "cl_configured (greet_exchange env s) = cl_configured s"
  by (simp_all add: greet_exchange_def greet_outcome_def greetd_call_def Let_def split: sum.split flow_outcome.split)

interpretation greet_talk: speaking_client "greet_redraw env" greet_resize "greet_handle_action env"
  "greet_handle_text env" for env
proof
  show "speaks s s'" if "greet_handle_action env a s = Some s'" for a s s'
    using that
    by (cases a) (auto simp: greet_handle_action_def greet_submit_def greet_redraw_def greetd_call_def Let_def
        greet_exchange_speaks dest!: client_redraw_speaks elim!: speaks_from
        split: if_splits sum.splits focused_field.splits)
qed (auto simp: greet_redraw_def greet_resize_def greet_handle_text_def Let_def dest!: client_redraw_speaks
    elim!: speaks_from split: if_splits focused_field.splits)

section \<open>Property\<close>

text \<open>What the inputs of each client must be answered with; the launcher's layer surface is never pinged.\<close>

fun slate_answer :: "slate_input \<Rightarrow> client_effect list" where
  "slate_answer (SlateEvent ev) = answer ev"
| "slate_answer (TermEvent ev) = []"

fun settings_answer :: "settings_input \<Rightarrow> client_effect list" where
  "settings_answer (SettingsEvent ev) = answer ev"
| "settings_answer (ReloadDone r) = []"

fun layer_answer :: "client_event \<Rightarrow> client_effect list" where
  "layer_answer (ClPing serial) = []"
| "layer_answer ev = answer ev"

text \<open>
  The first \<open>k\<close> batches were handled, all of them unless the client closed; the answers on the wire
  are theirs, one each and in order, and no frame precedes the first acknowledged configure event.
\<close>

definition polite :: "('i \<Rightarrow> client_effect list) \<Rightarrow> 'i list list \<Rightarrow> 'x client_scheme \<Rightarrow> bool" where
  "polite ans turns s \<longleftrightarrow> frames_acked (cl_trace s) \<and>
     (\<exists>k \<le> length turns. (k < length turns \<longrightarrow> cl_should_close s) \<and>
        filter is_answer (cl_trace s) = concat (map ans (concat (take k turns))))"

lemma polite_run:
  assumes "\<And>b s s'. turn b s = Some s' \<Longrightarrow> talked (concat (map ans b)) s s'"
    and "each turns (\<lambda>b. guarded_by (\<lambda>s. \<not> cl_should_close s) (turn b)) s0 = Some s"
    and "filter is_answer (cl_trace s0) = []" and "proper s0"
  shows "polite ans turns s"
  using turns_talked [of turn ans turns s0 s] assms by (auto simp: polite_def talked_def proper_def)

lemmas init_defs = slate_init_def slate_new_def slate_state.defs settings_init_def settings_new_def settings_state.defs
  greet_init_def greet_new_def greet_state.defs launcher_init_def launcher_new_def launcher_state.defs
  client_init_surface_def client_new_def client.defs cl_emit_def

lemma init_proper:
  "proper (slate_init f)" "proper (settings_init f)" "proper (greet_init f bg)" "proper (launcher_init f theme senv)"
  "filter is_answer (cl_trace (slate_init f)) = []" "filter is_answer (cl_trace (settings_init f)) = []"
  "filter is_answer (cl_trace (greet_init f bg)) = []" "filter is_answer (cl_trace (launcher_init f theme senv)) = []"
  by (simp_all add: init_defs proper_def frames_acked_def)

lemma slate_batch_talked:
  assumes "steps [each b (slate_step env), slate_drain env] s = Some s'"
  shows "talked (concat (map slate_answer b)) s s'"
proof -
  have step: "talked (slate_answer i) s s'" if "slate_step env i s = Some s'" for i s s'
    using that slate_talk.dispatch_talks
    by (cases i) (auto simp: slate_step_def slate_dispatch_def intro!: speaks_talked split: if_splits)
  from assms obtain t where t: "each b (slate_step env) s = Some t" "slate_drain env t = Some s'"
    by (auto simp: steps_def split: option.splits)
  have "talked [] t s'"
    using t(2) by (auto simp: slate_drain_def intro!: speaks_talked dest!: slate_redraw_speaks elim!: speaks_from split: if_splits)
  with talked_trans [OF each_talked [OF step t(1)] this] show ?thesis by simp
qed

lemma settings_step_talked: "settings_step env i s = Some s' \<Longrightarrow> talked (settings_answer i) s s'"
  using settings_talk.dispatch_talks
  by (cases i) (auto simp: settings_step_def settings_dispatch_def reload_done_def intro!: speaks_talked)

lemma launcher_dispatch_talked: "launcher_dispatch env ev s = Some s' \<Longrightarrow> talked (layer_answer ev) s s'"
  using launcher_talk.dispatch_talks [of "ce_xkb (lae_client env)" env ev s s'] by (cases ev) (auto simp: launcher_dispatch_def)

text \<open>
  C25: the clients obey the protocol of their surfaces. Whatever the events, none of the four clients
  panics; each answers every ping and acknowledges every configure event it handles, once and
  in order, and nothing else; and none commits a frame before its first acknowledged configure event.
\<close>

theorem clients_speak_protocol:
  assumes "rast_ok (ce_rast (sle_client env1))" and "\<forall>i \<in> set (concat turns1). slate_input_ok i"
    and "rast_ok (ce_rast (se_client env2))" and "\<forall>i \<in> set (concat turns2). settings_input_ok i"
    and "rast_ok (ce_rast (ge_client env3))" and "\<forall>ev \<in> set (concat turns3). client_event_ok ev"
    and "rast_ok (ce_rast (lae_client env4))" and "\<forall>ev \<in> set (concat turns4). client_event_ok ev"
  shows "(\<exists>s. slate_run env1 f turns1 = Some s \<and> polite slate_answer turns1 s) \<and>
    (\<exists>s. settings_run env2 f turns2 = Some s \<and> polite settings_answer turns2 s) \<and>
    (\<exists>s. greet_run env3 f bg turns3 = Some s \<and> polite answer turns3 s) \<and>
    (\<exists>s. launcher_run env4 f theme senv turns4 = Some s \<and> polite layer_answer turns4 s)"
proof -
  have "polite slate_answer turns1 s" if "slate_run env1 f turns1 = Some s" for s
    using that by (intro polite_run [OF slate_batch_talked _ init_proper(5,1)]) (auto simp: slate_run_def slate_turn_def [abs_def])
  moreover have "polite settings_answer turns2 s" if "settings_run env2 f turns2 = Some s" for s
    using that by (intro polite_run [OF each_talked [OF settings_step_talked] _ init_proper(6,2)])
      (auto simp: settings_run_def surface_loop_def [abs_def])
  moreover have "polite answer turns3 s" if "greet_run env3 f bg turns3 = Some s" for s
    using that by (intro polite_run [OF each_talked [OF greet_talk.dispatch_talks] _ init_proper(7,3)])
      (auto simp: greet_run_def surface_loop_def [abs_def] greet_dispatch_def)
  moreover have "polite layer_answer turns4 s" if "launcher_run env4 f theme senv turns4 = Some s" for s
    using that by (intro polite_run [OF each_talked [OF launcher_dispatch_talked] _ init_proper(8,4)])
      (auto simp: launcher_run_def surface_loop_def [abs_def])
  moreover note slate_run_inv [OF assms(1,2), of f] settings_run_inv [OF assms(3,4), of f]
    greet_run_inv [OF assms(5,6), of f bg] launcher_run_inv [OF assms(7,8), of f theme senv]
  ultimately show ?thesis by blast
qed

theorem clients_speak_protocol_witness:
  "\<exists>s. slate_run slate_example_env False slate_example = Some s \<and>
     filter is_answer (cl_trace s) = [ClAckConfigure 1, ClAckConfigure 2]"
proof -
  have ok: "rast_ok (ce_rast (sle_client slate_example_env))" "\<forall>i \<in> set (concat slate_example). slate_input_ok i"
    "rast_ok (ce_rast (se_client settings_example_env))" "rast_ok (ce_rast (ge_client login_env))"
    by (simp_all add: slate_example_env_def slate_example_def settings_example_env_def login_env_def rast_ok_def
        glyph_ok_def box_rasterizer_def)
  have none: "\<forall>i \<in> set (concat []). P i" for P :: "'a \<Rightarrow> bool" by simp
  have closes: "map_option cl_should_close (slate_run slate_example_env False slate_example) = Some False"
    by (simp add: slate_run_simps slate_example_env_def slate_example_def kind_os_def session_new_def
        i32_as_u32_def cell_grid_for_window_def)
  from clients_speak_protocol [OF ok(1,2,3) none ok(4) none launcher_example_ok(1) none, of False None theme_default lone_env]
  obtain s where s: "slate_run slate_example_env False slate_example = Some s" "polite slate_answer slate_example s"
    by blast
  with closes have "filter is_answer (cl_trace s) = concat (map slate_answer (concat slate_example))"
    by (auto simp: polite_def le_less)
  with s(1) show ?thesis by (simp add: slate_example_def)
qed

end
