(* ===== verification/Client_Start.thy ===== *)
theory Client_Start
  imports Client_Protocol Lock_Safety Compositor
begin

text \<open>
  The clients as processes: \<open>main\<close> and \<open>run\<close> of \<open>slate\<close>, \<open>nx-settings\<close>, \<open>nx-greet\<close>, \<open>launcher\<close> and
  \<open>nx-lock\<close>, from the connection to the exit status; and the globals that FRAME creates in
  \<open>NullxesState::new\<close> (\<open>frame/src/state.rs\<close>), which are the ones the clients bind. The connection, the registry and
  the versions of the globals belong to the Wayland libraries and are parameters.
\<close>

section \<open>Connecting\<close>

datatype global = WlCompositor | WlShm | WlSeat | WlOutput | XdgWmBase | ZwlrLayerShell | ExtSessionLockManager | OtherGlobal nat

text \<open>
  \<open>wy_bind g lo hi\<close> is \<open>globals.bind(&qh, lo..=hi, ())\<close>, the version that was bound or a failure.
\<close>

record wayland =
  wy_connect :: bool
  wy_registry :: bool
  wy_bind :: "global \<Rightarrow> nat \<Rightarrow> nat \<Rightarrow> nat option"

datatype start_error = NoCompositor | RegistryFailed | BindFailed global

type_synonym binding = "global \<times> nat \<times> nat"

fun bind_all :: "wayland \<Rightarrow> binding list \<Rightarrow> start_error + nat list" where
  "bind_all w [] = Inr []"
| "bind_all w ((g, lo, hi) # bs) =
     (case wy_bind w g lo hi of
        None \<Rightarrow> Inl (BindFailed g)
      | Some v \<Rightarrow> (case bind_all w bs of Inl e \<Rightarrow> Inl e | Inr vs \<Rightarrow> Inr (v # vs)))"

definition client_start :: "wayland \<Rightarrow> binding list \<Rightarrow> start_error + nat list" where
  "client_start w bs =
     (if \<not> wy_connect w then Inl NoCompositor
      else if \<not> wy_registry w then Inl RegistryFailed
      else bind_all w bs)"

definition slate_globals :: "binding list" where
  "slate_globals = [(WlCompositor, 4, 6), (WlShm, 1, 1), (XdgWmBase, 1, 6), (WlSeat, 5, 8)]"

definition settings_globals :: "binding list" where
  "settings_globals = [(WlCompositor, 4, 6), (WlShm, 1, 1), (XdgWmBase, 1, 6), (WlSeat, 5, 8)]"

definition greet_globals :: "binding list" where
  "greet_globals = [(WlCompositor, 4, 6), (WlShm, 1, 1), (XdgWmBase, 1, 6), (WlSeat, 5, 8)]"

definition launcher_globals :: "binding list" where
  "launcher_globals = [(WlCompositor, 4, 6), (WlShm, 1, 1), (ZwlrLayerShell, 1, 4), (WlSeat, 5, 8)]"

definition lock_globals :: "binding list" where
  "lock_globals = [(WlCompositor, 4, 6), (WlShm, 1, 1), (ExtSessionLockManager, 1, 1), (WlSeat, 5, 8)]"

definition notif_globals :: "binding list" where
  "notif_globals = [(WlCompositor, 4, 6), (WlShm, 1, 1), (ZwlrLayerShell, 1, 4)]"

lemmas globals_defs = slate_globals_def settings_globals_def greet_globals_def launcher_globals_def lock_globals_def
  notif_globals_def

section \<open>Running and exiting\<close>

text \<open>
  A process after some turns of its loop; \<open>broken\<close> says that the dispatch after them failed. A panic
  aborts, an error that \<open>main\<close> returns is the exit status 1.
\<close>

datatype process_end = ExitCode int | StillRunning | Aborted

definition finish :: "('c \<Rightarrow> bool) \<Rightarrow> ('c \<Rightarrow> int) \<Rightarrow> int \<Rightarrow> bool \<Rightarrow> 'c option \<Rightarrow> process_end" where
  "finish ended code on_error broken r =
     (case r of
        None \<Rightarrow> Aborted
      | Some s \<Rightarrow> if ended s then ExitCode (code s) else if broken then ExitCode on_error else StillRunning)"

definition slate_main :: "wayland \<Rightarrow> slate_env \<Rightarrow> bool \<Rightarrow> slate_input list list \<Rightarrow> bool \<Rightarrow> process_end" where
  "slate_main w env fonts_found turns broken =
     (case client_start w slate_globals of
        Inl _ \<Rightarrow> ExitCode 1
      | Inr _ \<Rightarrow> finish cl_should_close (\<lambda>_. 0) 1 broken (slate_run env fonts_found turns))"

text \<open>The settings log a failed dispatch and end as if they had been closed.\<close>

definition settings_main :: "wayland \<Rightarrow> settings_env \<Rightarrow> bool \<Rightarrow> settings_input list list \<Rightarrow> bool \<Rightarrow> process_end" where
  "settings_main w env fonts_found turns broken =
     (case client_start w settings_globals of
        Inl _ \<Rightarrow> ExitCode 1
      | Inr _ \<Rightarrow> finish cl_should_close (\<lambda>_. 0) 0 broken (settings_run env fonts_found turns))"

definition greet_main ::
  "wayland \<Rightarrow> greet_env \<Rightarrow> bool \<Rightarrow> background_image option \<Rightarrow> client_event list list \<Rightarrow> bool \<Rightarrow> process_end" where
  "greet_main w env fonts_found bg turns broken =
     (case client_start w greet_globals of
        Inl _ \<Rightarrow> ExitCode 1
      | Inr _ \<Rightarrow> finish cl_should_close (\<lambda>_. 0) 1 broken (greet_run env fonts_found bg turns))"

text \<open>The path of the user's theme, which the launcher loads before it connects.\<close>

definition user_theme_path :: "rstring option \<Rightarrow> rstring" where
  "user_theme_path config_dir =
     path_join (path_join (case config_dir of Some d \<Rightarrow> d | None \<Rightarrow> lit ''.'') (lit ''nullxes'')) (lit ''theme.toml'')"

text \<open>How \<open>acquire_lock\<close> ended; \<open>Launcher_Lock\<close> models the file and the other launchers.\<close>

datatype lock_outcome = LockTaken | AlreadyHeld | LockIo

definition launcher_main ::
  "lock_outcome \<Rightarrow> wayland \<Rightarrow> rstring option \<Rightarrow> (rstring \<Rightarrow> rstring option) \<Rightarrow> (rstring \<Rightarrow> theme option) \<Rightarrow>
   launcher_env \<Rightarrow> bool \<Rightarrow> scan_env \<Rightarrow> client_event list list \<Rightarrow> bool \<Rightarrow> process_end" where
  "launcher_main lock w config_dir read parse env fonts_found senv turns broken =
     (if lock = AlreadyHeld then ExitCode 0
      else let theme = theme_load_or_default read parse (user_theme_path config_dir) in
        case client_start w launcher_globals of
          Inl _ \<Rightarrow> ExitCode 1
        | Inr _ \<Rightarrow> finish cl_should_close (\<lambda>_. 0) 1 broken (launcher_run env fonts_found theme senv turns))"

text \<open>\<open>run_main\<close> of the locker hands on the exit code of the state, also 0.\<close>

definition lock_main ::
  "wayland \<Rightarrow> lock_env \<Rightarrow> bool \<Rightarrow> rstring option \<Rightarrow> lock_input list list \<Rightarrow> bool \<Rightarrow> process_end" where
  "lock_main w env fonts_found entry turns broken =
     (case client_start w lock_globals of
        Inl _ \<Rightarrow> ExitCode 1
      | Inr _ \<Rightarrow> finish ls_should_quit ls_exit_code 1 broken (lock_run env fonts_found entry turns))"

lemmas main_defs = slate_main_def settings_main_def greet_main_def launcher_main_def lock_main_def finish_def

section \<open>The globals of FRAME\<close>

text \<open>
  The protocol states that \<open>NullxesState::new\<close> creates, in its order. Which globals at which versions each
  of them advertises is smithay's: \<open>adv\<close>.
\<close>

datatype protocol_state =
    CompositorState | XdgShellState | WlrLayerShellState | SessionLockManagerState | ShmState | OutputManagerState
  | DataDeviceState | WlSeatState

definition frame_protocols :: "protocol_state list" where
  "frame_protocols = [CompositorState, XdgShellState, WlrLayerShellState, SessionLockManagerState, ShmState,
     OutputManagerState, DataDeviceState, WlSeatState]"

type_synonym advertising = "protocol_state \<Rightarrow> (global \<times> nat) list"

definition frame_globals :: "advertising \<Rightarrow> (global \<times> nat) list" where
  "frame_globals adv = concat (map adv frame_protocols)"

text \<open>
  The documented behaviour of smithay: each state advertises the global of its protocol and no other state does,
  in at least the version given here; and of \<open>GlobalList::bind\<close>, which takes the
  highest common version.
\<close>

definition home_of :: "global \<Rightarrow> (protocol_state \<times> nat) option" where
  "home_of g = (case g of WlCompositor \<Rightarrow> Some (CompositorState, 5) | WlShm \<Rightarrow> Some (ShmState, 1)
     | WlSeat \<Rightarrow> Some (WlSeatState, 7) | XdgWmBase \<Rightarrow> Some (XdgShellState, 5)
     | ZwlrLayerShell \<Rightarrow> Some (WlrLayerShellState, 4)
     | ExtSessionLockManager \<Rightarrow> Some (SessionLockManagerState, 1) | _ \<Rightarrow> None)"

definition smithay_advertises :: "advertising \<Rightarrow> bool" where
  "smithay_advertises adv \<longleftrightarrow> (\<forall>g p v. home_of g = Some (p, v) \<longrightarrow> (\<exists>v' \<ge> v. (g, v') \<in> set (adv p))) \<and>
     (\<forall>p g v. (g, v) \<in> set (adv p) \<longrightarrow> (case home_of g of None \<Rightarrow> True | Some (q, v') \<Rightarrow> q = p \<and> v' \<le> v))"

definition bind_documented :: "wayland \<Rightarrow> (global \<times> nat) list \<Rightarrow> bool" where
  "bind_documented w gs \<longleftrightarrow> (\<forall>g lo hi. wy_bind w g lo hi =
     (case map_of gs g of None \<Rightarrow> None | Some v \<Rightarrow> if lo \<le> v then Some (min hi v) else None))"

lemma bind_all_ok:
  assumes "\<And>g lo hi. (g, lo, hi) \<in> set bs \<Longrightarrow> lo \<le> hi \<and> (\<exists>v. map_of gs g = Some v \<and> lo \<le> v)" and "bind_documented w gs"
  shows "\<exists>vs. bind_all w bs = Inr vs \<and> list_all2 (\<lambda>(g, lo, hi) v. lo \<le> v \<and> v \<le> hi) bs vs"
  using assms(1)
proof (induction bs)
  case (Cons b bs)
  obtain g lo hi where b: "b = (g, lo, hi)" by (cases b)
  with Cons.prems [of g lo hi] obtain v where "map_of gs g = Some v" "lo \<le> v" "lo \<le> hi" by auto
  with assms(2) have "wy_bind w g lo hi = Some (min hi v)" by (simp add: bind_documented_def)
  moreover have "\<exists>vs. bind_all w bs = Inr vs \<and> list_all2 (\<lambda>(g, lo, hi) v. lo \<le> v \<and> v \<le> hi) bs vs"
    by (rule Cons.IH) (rule Cons.prems, simp)
  ultimately show ?case using b \<open>lo \<le> v\<close> \<open>lo \<le> hi\<close> by auto
qed simp

lemma frame_global:
  assumes "smithay_advertises adv" and "home_of g = Some (p, v)"
  shows "\<exists>v'. map_of (frame_globals adv) g = Some v' \<and> v \<le> v'"
proof -
  have p: "p \<in> set frame_protocols" by (cases p) (simp_all add: frame_protocols_def)
  obtain v1 where "(g, v1) \<in> set (adv p)" using assms unfolding smithay_advertises_def by blast
  with p have "g \<in> fst ` set (frame_globals adv)" by (force simp: frame_globals_def)
  then obtain v' where v': "map_of (frame_globals adv) g = Some v'" by (metis map_of_eq_None_iff not_None_eq)
  then have "(g, v') \<in> set (frame_globals adv)" by (rule map_of_SomeD)
  then obtain q where "(g, v') \<in> set (adv q)" by (auto simp: frame_globals_def)
  with assms have "v \<le> v'" unfolding smithay_advertises_def by fastforce
  with v' show ?thesis by blast
qed

text \<open>
  The clients that bind globals. FRAME's own \<open>WlOutput\<close> is bound by none of them.
\<close>

definition client_globals :: "binding list list" where
  "client_globals = [slate_globals, settings_globals, greet_globals, launcher_globals, lock_globals, notif_globals]"

lemma client_globals_home:
  assumes "bs \<in> set client_globals" and "(g, lo, hi) \<in> set bs"
  shows "lo \<le> hi \<and> (\<exists>p v. home_of g = Some (p, v) \<and> lo \<le> v)"
  using assms by (auto simp: client_globals_def globals_defs home_of_def)

text \<open>
  Every client starts on FRAME. Once it is connected and has the registry, each global that it binds is
  one that FRAME creates, in a version within the range it asks for; and none of
  the clients binds an output.
\<close>

lemma clients_start_on_frame:
  assumes "smithay_advertises adv" and "bind_documented w (frame_globals adv)" and "wy_connect w" and "wy_registry w"
    and "bs \<in> set client_globals"
  shows "(\<exists>vs. client_start w bs = Inr vs \<and> list_all2 (\<lambda>(g, lo, hi) v. lo \<le> v \<and> v \<le> hi) bs vs) \<and>
    WlOutput \<notin> fst ` set bs"
proof
  have "lo \<le> hi \<and> (\<exists>v. map_of (frame_globals adv) g = Some v \<and> lo \<le> v)" if b: "(g, lo, hi) \<in> set bs" for g lo hi
    using client_globals_home [OF assms(5) b] frame_global [OF assms(1)] order_trans by blast
  from bind_all_ok [OF this assms(2)]
  show "\<exists>vs. client_start w bs = Inr vs \<and> list_all2 (\<lambda>(g, lo, hi) v. lo \<le> v \<and> v \<le> hi) bs vs"
    by (simp add: client_start_def assms(3,4))
  show "WlOutput \<notin> fst ` set bs" using assms(5) by (auto simp: client_globals_def globals_defs)
qed

definition demo_advertising :: advertising where
  "demo_advertising p = (case p of CompositorState \<Rightarrow> [(WlCompositor, 5), (OtherGlobal 0, 1)] | ShmState \<Rightarrow> [(WlShm, 1)]
     | WlSeatState \<Rightarrow> [(WlSeat, 9)] | XdgShellState \<Rightarrow> [(XdgWmBase, 6)] | WlrLayerShellState \<Rightarrow> [(ZwlrLayerShell, 4)]
     | SessionLockManagerState \<Rightarrow> [(ExtSessionLockManager, 1)] | _ \<Rightarrow> [])"

definition demo_wayland :: "bool \<Rightarrow> (global \<times> nat) list \<Rightarrow> wayland" where
  "demo_wayland up gs = \<lparr>wy_connect = up, wy_registry = True,
     wy_bind = (\<lambda>g lo hi. case map_of gs g of None \<Rightarrow> None | Some v \<Rightarrow> if lo \<le> v then Some (min hi v) else None)\<rparr>"

lemma demo_advertises: "smithay_advertises demo_advertising"
  by (auto simp: smithay_advertises_def demo_advertising_def home_of_def
      split: global.splits protocol_state.splits if_splits)

lemma demo_documented: "bind_documented (demo_wayland up gs) gs"
  by (simp add: bind_documented_def demo_wayland_def)

lemma clients_start_example:
  "\<exists>vs. client_start (demo_wayland True (frame_globals demo_advertising)) slate_globals = Inr vs \<and> length vs = 4"
proof -
  have "slate_globals \<in> set client_globals" "length slate_globals = 4" by (simp_all add: client_globals_def globals_defs)
  with clients_start_on_frame [OF demo_advertises demo_documented, of True slate_globals] show ?thesis
    by (auto simp: demo_wayland_def dest: list_all2_lengthD)
qed

section \<open>How the processes end\<close>

text \<open>Without a compositor, as under greetd's own configuration, every client exits with the status 1.\<close>

lemma mains_need_compositor:
  assumes "\<not> wy_connect w"
  shows "slate_main w se f ts b = ExitCode 1" and "settings_main w te f us b = ExitCode 1"
    and "greet_main w ge f bg vs b = ExitCode 1" and "lock_main w le f entry xs b = ExitCode 1"
    and "lock \<noteq> AlreadyHeld \<Longrightarrow> launcher_main lock w d r p lae f senv ys b = ExitCode 1"
  using assms by (simp_all add: main_defs client_start_def Let_def)

text \<open>A second launcher leaves before it looks for the compositor, with the status 0.\<close>

lemma second_launcher_exits: "launcher_main AlreadyHeld w d r p env f senv turns b = ExitCode 0"
  by (simp add: launcher_main_def)

text \<open>The locker exits with the status 0 only after PAM has accepted a password.\<close>

lemma lock_exit_zero:
  assumes "rast_ok (le_rast env)" and "\<forall>i \<in> set (concat turns). lock_input_ok i"
    and "lock_main w env f entry turns b = ExitCode 0"
  shows "\<exists>s n pw. lock_run env f entry turns = Some s \<and> UnlockAndDestroy \<in> set (ls_trace s) \<and> pw \<noteq> [] \<and>
    authenticate (le_pam env n) (le_service env) (ls_username s) pw = AuthOk"
  using lock_run_inv [OF assms(1,2), of f entry] assms(3)
  by (auto simp: lock_main_def finish_def lock_inv_def unlock_ok_def granted_def split: sum.splits if_splits)

text \<open>No client aborts, whatever the compositor sends.\<close>

lemma finish_not_aborted: "r = Some s \<Longrightarrow> finish ended code on_error broken r \<noteq> Aborted"
  by (simp add: finish_def)

lemma mains_never_abort:
  shows "rast_ok (le_rast le) \<Longrightarrow> \<forall>i \<in> set (concat xs). lock_input_ok i \<Longrightarrow> lock_main w le f entry xs b \<noteq> Aborted"
    and "rast_ok (ce_rast (sle_client se)) \<Longrightarrow> \<forall>i \<in> set (concat ts). slate_input_ok i \<Longrightarrow>
      slate_main w se f ts b \<noteq> Aborted"
    and "rast_ok (ce_rast (se_client te)) \<Longrightarrow> \<forall>i \<in> set (concat us). settings_input_ok i \<Longrightarrow>
      settings_main w te f us b \<noteq> Aborted"
    and "rast_ok (ce_rast (ge_client ge)) \<Longrightarrow> \<forall>ev \<in> set (concat vs). client_event_ok ev \<Longrightarrow>
      greet_main w ge f bg vs b \<noteq> Aborted"
    and "rast_ok (ce_rast (lae_client lae)) \<Longrightarrow> \<forall>ev \<in> set (concat ys). client_event_ok ev \<Longrightarrow>
      launcher_main lock w d r p lae f senv ys b \<noteq> Aborted"
  subgoal using lock_run_inv [of le xs f entry] by (auto simp: lock_main_def finish_not_aborted split: sum.split)
  subgoal using slate_run_inv [of se ts f] by (auto simp: slate_main_def finish_not_aborted split: sum.split)
  subgoal using settings_run_inv [of te us f] by (auto simp: settings_main_def finish_not_aborted split: sum.split)
  subgoal using greet_run_inv [of ge vs f bg] by (auto simp: greet_main_def finish_not_aborted split: sum.split)
  subgoal
    using launcher_run_inv [of lae ys f "theme_load_or_default r p (user_theme_path d)" senv]
    by (auto simp: launcher_main_def Let_def finish_not_aborted split: sum.split)
  done

end
