(* ===== verification/Unit_Tests.thy ===== *)
theory Unit_Tests
  imports Workspace Tokens Launcher_Apps Theme_Export
begin

text \<open>
  The repository's own tests, run on the model: the test modules of \<open>frame/src/workspace.rs\<close>,
  \<open>theme/src/motion.rs\<close> and \<open>launcher/src/apps.rs\<close>, and \<open>theme/tests/export_determinism.rs\<close>. A test is a
  \<^typ>\<open>bool\<close>, false when an assertion fails or the tested code panics.
\<close>

section \<open>Workspaces\<close>

definition test_switch_and_wrap :: bool where
  "test_switch_and_wrap =
     (let m0 = mgr_new 3;
          (r1, m1) = switch_to m0 2;
          (r2, m2) = switch_next m1 False;
          (r3, m3) = switch_next m2 True
      in mgr_active m0 = 0 \<and> r1 \<and> mgr_active m1 = 2 \<and> \<not> r2 \<and> r3 \<and> mgr_active m3 = 0)"

definition test_move_plan_returns_indices :: bool where
  "test_move_plan_returns_indices =
     (case plan_move_focused (set_focus (mgr_new 2) (Some 7)) 1 of
        None \<Rightarrow> False
      | Some (m, plan) \<Rightarrow> plan = Some (0, 1, 7) \<and> focused (snd (switch_to m 1)) = Some 7)"

definition test_out_of_range_move_is_noop :: bool where
  "test_out_of_range_move_is_noop =
     (case plan_move_focused (set_focus (mgr_new 2) (Some 1)) 5 of
        None \<Rightarrow> False
      | Some (m, plan) \<Rightarrow> plan = None \<and> focused m = Some 1)"

lemma clamp_count_small: "clamp_count 2 = 2" "clamp_count 3 = 3"
  by code_simp+

lemma workspace_tests: "test_switch_and_wrap" "test_move_plan_returns_indices" "test_out_of_range_move_is_noop"
  by (simp_all add: test_switch_and_wrap_def test_move_plan_returns_indices_def test_out_of_range_move_is_noop_def
      mgr_new_def clamp_count_small switch_to_def switch_next_def plan_move_focused_def set_focus_def focused_def
      numeral_2_eq_2 numeral_3_eq_3)

section \<open>Easing\<close>

definition test_ease_out_expo_boundaries :: "(rat \<Rightarrow> rat) \<Rightarrow> bool" where
  "test_ease_out_expo_boundaries exp2 \<longleftrightarrow> easing_eval exp2 EaseOutExpo 0 = 0 \<and> easing_eval exp2 EaseOutExpo 1 = 1"

definition test_ease_in_expo_boundaries :: "(rat \<Rightarrow> rat) \<Rightarrow> bool" where
  "test_ease_in_expo_boundaries exp2 \<longleftrightarrow> easing_eval exp2 EaseInExpo 0 = 0 \<and> easing_eval exp2 EaseInExpo 1 = 1"

lemma easing_tests:
  assumes "exp2_documented exp2"
  shows "test_ease_out_expo_boundaries exp2" "test_ease_in_expo_boundaries exp2"
proof -
  have fl0: "fl 24 0 = 0" and fl10: "fl 24 10 = 10" by code_simp+
  show "test_ease_out_expo_boundaries exp2" "test_ease_in_expo_boundaries exp2"
    using assms by (simp_all add: test_ease_out_expo_boundaries_def test_ease_in_expo_boundaries_def easing_eval_def
        exp2_documented_def fl0 fl10)
qed

section \<open>The command of a desktop entry\<close>

definition test_shlex_drops_field_codes :: "(rstring \<Rightarrow> rstring list option) \<Rightarrow> bool" where
  "test_shlex_drops_field_codes shlex \<longleftrightarrow>
     parse_exec shlex (lit ''/usr/bin/foo --flag %F %U arg'') = [lit ''/usr/bin/foo'', lit ''--flag'', lit ''arg'']"

definition test_shlex_handles_quoted :: "(rstring \<Rightarrow> rstring list option) \<Rightarrow> bool" where
  "test_shlex_handles_quoted shlex \<longleftrightarrow>
     parse_exec shlex (lit ''/usr/bin/foo \"one two\" --x=y'') = [lit ''/usr/bin/foo'', lit ''one two'', lit ''--x=y'']"

definition test_shlex_unparsable_returns_empty :: "(rstring \<Rightarrow> rstring list option) \<Rightarrow> bool" where
  "test_shlex_unparsable_returns_empty shlex \<longleftrightarrow> parse_exec shlex (lit ''\"unterminated'') = []"

text \<open>What \<open>shlex\<close> does with the three texts: it splits at blanks outside quotes and refuses an open quote.\<close>

lemma exec_tests:
  shows "shlex (lit ''/usr/bin/foo --flag %F %U arg'') =
      Some [lit ''/usr/bin/foo'', lit ''--flag'', lit ''%F'', lit ''%U'', lit ''arg''] \<Longrightarrow> test_shlex_drops_field_codes shlex"
    and "shlex (lit ''/usr/bin/foo \"one two\" --x=y'') = Some [lit ''/usr/bin/foo'', lit ''one two'', lit ''--x=y''] \<Longrightarrow>
      test_shlex_handles_quoted shlex"
    and "shlex (lit ''\"unterminated'') = None \<Longrightarrow> test_shlex_unparsable_returns_empty shlex"
  by (simp_all add: test_shlex_drops_field_codes_def test_shlex_handles_quoted_def
      test_shlex_unparsable_returns_empty_def parse_exec_def is_field_code_def)

section \<open>The export is deterministic\<close>

text \<open>
  The two runs write below the directories \<open>a\<close> and \<open>b\<close>; the test reads one file of each.
\<close>

definition exported_twice ::
  "export_env \<Rightarrow> (rstring \<Rightarrow> export_op list) \<Rightarrow> rstring \<Rightarrow> rstring \<Rightarrow> rstring \<Rightarrow> (rstring \<Rightarrow> rstring option) \<Rightarrow> bool" where
  "exported_twice ex generate name a b files =
     (let (ok_a, files1) = export_run ex (generate a) files;
          (ok_b, files2) = export_run ex (generate b) files1
      in ok_a \<and> ok_b \<and> (case (files2 (path_join a name), files2 (path_join b name)) of
           (Some x, Some y) \<Rightarrow> x = y | _ \<Rightarrow> False))"

definition test_gtk_byte_identical_twice ::
  "export_env \<Rightarrow> rstring \<Rightarrow> rstring \<Rightarrow> (rstring \<Rightarrow> rstring option) \<Rightarrow> bool" where
  "test_gtk_byte_identical_twice ex a b files =
     exported_twice ex (export_gtk theme_default) (lit ''gtk-3.0/gtk.css'') a b files"

definition test_qt_byte_identical_twice ::
  "export_env \<Rightarrow> rstring \<Rightarrow> rstring \<Rightarrow> (rstring \<Rightarrow> rstring option) \<Rightarrow> bool" where
  "test_qt_byte_identical_twice ex a b files =
     exported_twice ex (export_qt theme_default) (lit ''nullxes.conf'') a b files"

lemma export_tests:
  assumes "\<forall>op. ex_ok ex op"
  shows "test_gtk_byte_identical_twice ex a b files" "test_qt_byte_identical_twice ex a b files"
proof -
  have "path_join x (lit ''gtk-3.0/gtk.css'') \<noteq> path_join y (lit ''gtk-4.0/gtk.css'')" for x y
    by (rule path_join_tail) (simp_all add: lit_def)
  then show "test_gtk_byte_identical_twice ex a b files" "test_qt_byte_identical_twice ex a b files"
    using assms by (simp_all add: test_gtk_byte_identical_twice_def test_qt_byte_identical_twice_def
        exported_twice_def export_gtk_def export_qt_def export_op_run_def)
qed

end
