(* ===== verification/Spec2Isabelle.thy ===== *)
theory Spec2Isabelle
  imports Windows Control Panel Lock_Safety Greeter_Safety Settings Slate_Safety Launcher Launcher_Lock
    Notif_Loop Notif_Bus Notif_Daemon
    Frame_Loop Boot Ipc_Sessions Ipc_Call Services Xtask Theme_Export Tokens Font_Search
    Lock_Session Settings_Reload Desktop_Launcher Desktop_Windows Client_Protocol Client_Start Unit_Tests
begin

text \<open>
  Verification development for NULLXES OS, a Wayland desktop in Rust. All paths below are relative to
  \<open>src/crates\<close>.

  The program. FRAME (\<open>frame\<close>) is the compositor: one process that owns the workspaces, the input,
  the session lock, Xwayland and a panel it draws itself. It publishes two sockets, the Wayland socket and
  the control socket (\<open>ipc\<close>). The clients are separate processes: \<open>launcher\<close>, \<open>slate\<close> (terminal),
  \<open>nx-settings\<close>, \<open>nx-lock\<close> (screen locker), \<open>nx-greet\<close> (login screen) and \<open>nx-notif\<close>
  (notifications). They share \<open>wlcommon\<close> (buffers, keyboard, fonts) and \<open>theme\<close> (colours, text,
  tokens, exported assets). \<open>xtask\<close> is the repository's lint.

  The interfaces between them. What FRAME asks of smithay is the record of functions
  \<open>space_api\<close> and its extension \<open>smithay_api\<close>; the laws of a space are the locale
  \<open>space_laws\<close>, interpreted on a list of windows. Every long-running part is a state and a handler, and the locales
  \<open>event_machine\<close> and \<open>total_machine\<close> (Prelude) state what all of them promise: the
  handler keeps the invariant, and under it never panics, so that both hold after any
  sequence of events. \<open>frame_machine\<close> extends this contract for the compositor, \<open>panicking_machine\<close> (Frame_Loop) is its form for a
  loop with known panics. \<open>painter\<close> (Scene) is
  the contract of a paint function towards the buffer pool, \<open>canvas_op\<close> (Canvas) that of
  a drawing primitive, \<open>event_client\<close> and its extension \<open>surface_client\<close> (Client) that of the
  window clients towards the event loop they share, \<open>speaking_client\<close> (Client_Protocol) what such a client
  answers the compositor, \<open>silent_client\<close> (Desktop) what a compositor never tells one of its
  clients. Each is interpreted where the code's model is defined.

  How the code is read. A struct is a record, an enum a datatype; \<open>u8\<close> to \<open>u64\<close> are words, \<open>i32\<close> is an
  \<open>int\<close> with its wrap-around and saturation written out; \<open>usize\<close> is \<open>nat\<close>, with underflow and
  out-of-range indices as panics; \<open>f32\<close> and \<open>f64\<close> are the exact rationals such a number can hold,
  every operation rounded to nearest even (Floats). A string is the list of its Unicode
  scalar values. \<^const>\<open>None\<close> as the result of a step is a panic; errors are values of a sum. Loops over
  data are structural recursions. The loops of programs are folds over the list of what arrives, so
  a statement about every list is one about every run. There is no fuel: the only bounded loops are the 32 connection attempts and
  the three respawns of the code itself.

  Theories of the compositor.
  Smithay: windows, outputs, spaces, layer maps as the code uses them. Workspace:
  \<open>frame/src/workspace.rs\<close>. Frame_Config: \<open>config.rs\<close>. Idle: \<open>idle.rs\<close>. Xwm: \<open>xwm.rs\<close>.
  Compositor: \<open>state.rs\<close> and \<open>handlers\<close>. Input: \<open>input\<close>. Ipc_Wire: the crate \<open>ipc\<close>. Ipc_Server:
  \<open>ipc_server.rs\<close>. Session: the events of the whole compositor, its invariant
  \<open>frame_ok\<close> and the lock. Windows: which windows are in which workspace. Control: key bindings and requests.
  Panel: \<open>panel\<close>. Render: \<open>render.rs\<close>. Frame_Loop: the whole loop, with frames, the callbacks of the X11 window manager and
  the panel's snapshot next to the events of Session. Boot: \<open>main.rs\<close>, \<open>runtime.rs\<close>, \<open>signals.rs\<close> and
  \<open>backend\<close>. Ipc_Sessions: the accept loop and several connections at once. Ipc_Call: both ends
  of one connection. Services: \<open>system\<close>.

  Theories of the shared crates.
  Floats, Color (\<open>theme/src/color.rs\<close>), Theme (\<open>config.rs\<close>), Tokens (\<open>spacing.rs\<close>,
  \<open>typography.rs\<close>, \<open>motion.rs\<close>), Theme_Export (\<open>export\<close> and \<open>bin/theme_export.rs\<close>), Canvas and
  Shm_Pool (\<open>wlcommon/src/shm.rs\<close>), Text (\<open>theme/src/text.rs\<close>), Font_Search
  (\<open>wlcommon/src/fonts.rs\<close> and the panel's copy), Keymap (\<open>wlcommon/src/keymap.rs\<close>), Scene (the
  calls a paint function makes), Client (what the window clients have in common).

  Theories of the clients and tools.
  Lock_Client and Lock_Safety (\<open>nx-lock\<close>), Greeter and Greeter_Safety (\<open>nx-greet\<close>), Settings
  (\<open>nx-settings\<close>), Slate and Slate_Safety (\<open>slate\<close>), Launcher_Apps, Launcher and Launcher_Lock
  (\<open>launcher\<close>), Notif, Notif_Loop, Notif_Bus and Notif_Daemon (\<open>nx-notif\<close>), Xtask (\<open>xtask\<close>).

  Theories of programs together.
  Lock_Session runs FRAME and the screen locker side by side, Settings_Reload the settings' save
  and FRAME's reload, Ipc_Call a client of the control socket and its server. Desktop composes FRAME with
  any client, as an inductive relation over all interleavings in which the client reads at most what it has been
  sent; Desktop_Launcher and Desktop_Windows put in the launcher, the terminal and the settings. Client_Protocol is the
  side of the clients in the Wayland protocol, Client_Start their \<open>main\<close> from the connection to the
  exit status. Unit_Tests runs the repository's own tests on the model.

  What the lemmas show. Every handler of every process keeps that process's invariant and does not
  panic (\<open>frame_ok\<close>, \<open>lock_inv\<close>, \<open>greet_inv\<close>, \<open>slate_inv\<close>, \<open>settings_inv\<close>, \<open>launcher_inv\<close> and the
  notification daemon's), whatever the order of the events. FRAME's loop as a whole has two panics, the label of the panel and the request for an
  X11 window manager that does not run, and Frame_Loop says exactly when they happen. On top of this: a lock is only
  opened for an accepted password, a session only started for an accepted user, only listed programs
  are launched, a busy buffer is never drawn to, a window is in one workspace. Messages, colours, typed text, configuration
  and notification history survive their round trips. Drawing primitives paint exactly their pixels. The
  navigation of workspaces refines modular arithmetic, the remote call the direct call, the
  desktop entry scan its specification.

  What they show is wrong. FRAME cannot start, since its IPC listener is built outside the context of
  the runtime (Boot). A locked session cannot be unlocked, since no lock surface gets the keyboard
  focus (Lock_Session), and the desktop is drawn over the lock surface (Render). The locker
  binds no output and paints nothing (Lock_Safety). FRAME sends no window its first
  configure event, so no window is ever drawn (Desktop_Windows), and gives no layer surface the keyboard, so the
  launcher never reads a key (Desktop_Launcher). Notifications are never painted (Notif_Loop), and
  queued ones starve (Notif). The lint rejects its own source (Xtask). Each of these is a theorem or a lemma with
  a run that shows it.

  Parameters. smithay, the kernel's answers, PAM, greetd, D-Bus services, xkbcommon, the font
  rasteriser, the TOML, JSON and desktop entry parsers, the image codecs, the fuzzy matcher and the clock are
  arguments of the definitions. Where a property needs something of them it is a named
  hypothesis of documented behaviour: \<open>space_laws\<close>, \<open>rast_ok\<close> (a glyph's bitmap has the size it
  states), \<open>from_std_documented\<close> (tokio), \<open>front_to_back\<close> (smithay's damage tracker),
  \<open>smithay_advertises\<close> and \<open>bind_documented\<close> (the globals of a protocol state, and what binding one returns),
  \<open>exp2_documented\<close>, and that
  a parser reads what its printer wrote; each has a witness with a concrete instance.

  Bounds of the model. Battery percentages are finite numbers. A JSON object with a duplicate key is refused, a struct given
  as an array too. What a failed write leaves in its target is arbitrary (Theme_Export).

  Not modelled. Logging and its set-up; the generated D-Bus proxies; the macros that
  delegate Wayland globals; handlers with an empty body, or
  that only hand a library object back; the gesture callbacks of the move grab, which forward their arguments; reading the
  clock; the \<open>READY\<close> datagram and the libinput adapter, which only call the
  operating system; packaging and the ISO scripts.
\<close>

end
